(* ===== verification/Prelude.thy ===== *)
theory Prelude
  imports Main "HOL-Library.Word" "HOL-Library.Char_ord" "HOL-Library.List_Lexorder"
begin

text \<open>
  What the components of the server model share: the names of the model's basic types, the
  character classes of the "C" locale that the code reads through \<open>cctype\<close>, the decimal
  printing of \<open>std::to_string\<close>, generic facts on lists and maps, and the contract of a
  state machine with an invariant, which every stateful component interprets on its own steps.

  A \<open>std::string\<close> is a \<open>string\<close> (a list of bytes), a \<open>std::vector<uint8_t>\<close> is a list of
  8-bit words, a clock reading is an \<open>int\<close>.  An \<open>unordered_map\<close> is a map, an
  \<open>unordered_set\<close> a set; where the code iterates over one of them, the order is a parameter.
\<close>

type_synonym byte = "8 word"
type_synonym bytes = "byte list"
type_synonym user_id = string
type_synonym time = int

text \<open>
  \<open>frame_simps\<close>: which fields an operation leaves alone.  \<open>inv_intros\<close>: operations keep their
  component's invariant.  \<open>ctype_simps\<close>: the character classes.
\<close>

named_theorems frame_simps \<open>fields an operation does not write\<close>
named_theorems inv_intros \<open>operations keep the invariant\<close>
named_theorems ctype_simps \<open>unfolding the character classes\<close>

section \<open>Character classes of the C locale\<close>

definition is_upper :: "char \<Rightarrow> bool" where
  "is_upper c \<longleftrightarrow> CHR ''A'' \<le> c \<and> c \<le> CHR ''Z''"

definition is_lower :: "char \<Rightarrow> bool" where
  "is_lower c \<longleftrightarrow> CHR ''a'' \<le> c \<and> c \<le> CHR ''z''"

definition is_digit :: "char \<Rightarrow> bool" where
  "is_digit c \<longleftrightarrow> CHR ''0'' \<le> c \<and> c \<le> CHR ''9''"

definition is_alnum :: "char \<Rightarrow> bool" where
  "is_alnum c \<longleftrightarrow> is_upper c \<or> is_lower c \<or> is_digit c"

definition is_space :: "char \<Rightarrow> bool" where
  "is_space c \<longleftrightarrow> c = CHR '' '' \<or> (CHR 0x09 \<le> c \<and> c \<le> CHR 0x0D)"

definition to_lower :: "char \<Rightarrow> char" where
  "to_lower c = (if is_upper c then char_of (of_char c + 32 :: nat) else c)"

declare is_upper_def [ctype_simps] is_lower_def [ctype_simps] is_digit_def [ctype_simps]
  is_alnum_def [ctype_simps] is_space_def [ctype_simps] to_lower_def [ctype_simps]
  char_of_def [ctype_simps] bit_iff_odd [ctype_simps]

lemma char_le_iff: "c \<le> d \<longleftrightarrow> (of_char c :: nat) \<le> of_char d"
  by (simp add: less_eq_char_def)

lemma is_upper_code: "is_upper c \<longleftrightarrow> 65 \<le> (of_char c :: nat) \<and> (of_char c :: nat) \<le> 90"
  by (simp add: is_upper_def char_le_iff)

lemma is_lower_code: "is_lower c \<longleftrightarrow> 97 \<le> (of_char c :: nat) \<and> (of_char c :: nat) \<le> 122"
  by (simp add: is_lower_def char_le_iff)

lemma is_digit_code: "is_digit c \<longleftrightarrow> 48 \<le> (of_char c :: nat) \<and> (of_char c :: nat) \<le> 57"
  by (simp add: is_digit_def char_le_iff)

lemma of_char_to_lower:
  "(of_char (to_lower c) :: nat) = (if is_upper c then of_char c + 32 else of_char c)"
  by (auto simp: to_lower_def is_upper_code take_bit_eq_mod of_char_of)

lemma to_lower_not_upper [simp]: "\<not> is_upper (to_lower c)"
  by (auto simp: is_upper_code of_char_to_lower)

lemma to_lower_idem [simp]: "to_lower (to_lower c) = to_lower c"
  by (subst to_lower_def) simp

lemma to_lower_id: "\<not> is_upper c \<Longrightarrow> to_lower c = c"
  by (simp add: to_lower_def)

lemma is_alnum_to_lower [simp]: "is_alnum (to_lower c) \<longleftrightarrow> is_alnum c"
  by (auto simp: is_alnum_def is_upper_code is_lower_code is_digit_code of_char_to_lower)

lemma is_digit_to_lower [simp]: "is_digit (to_lower c) \<longleftrightarrow> is_digit c"
  by (auto simp: is_upper_code is_digit_code of_char_to_lower)

text \<open>A \<open>char\<close> read as an unsigned byte keeps its code.\<close>

lemma unat_of_char: "unat (of_char c :: byte) = of_char c"
proof -
  have "(of_char c :: byte) = of_nat (of_char c)" by (rule of_nat_of_char [symmetric])
  then show ?thesis by (simp add: unat_of_nat)
qed

section \<open>Decimal printing\<close>

definition digit_char :: "nat \<Rightarrow> char" where
  "digit_char d = char_of (48 + d)"

text \<open>\<open>std::to_string\<close> of an unsigned value.\<close>

fun show_nat :: "nat \<Rightarrow> string" where
  "show_nat n = (if n < 10 then [digit_char n] else show_nat (n div 10) @ [digit_char (n mod 10)])"

declare show_nat.simps [simp del]

definition show_int :: "int \<Rightarrow> string" where
  "show_int i = (if i < 0 then CHR ''-'' # show_nat (nat (- i)) else show_nat (nat i))"

text \<open>Reading the digits back, most significant first.\<close>

definition digits_val :: "string \<Rightarrow> nat" where
  "digits_val s = foldl (\<lambda>v c. 10 * v + (of_char c - 48)) 0 s"

lemma of_char_digit_char: "d < 10 \<Longrightarrow> (of_char (digit_char d) :: nat) = 48 + d"
  by (simp add: digit_char_def take_bit_eq_mod of_char_of)

lemma digits_val_snoc: "digits_val (s @ [c]) = 10 * digits_val s + (of_char c - 48)"
  by (simp add: digits_val_def)

lemma digits_val_show_nat [simp]: "digits_val (show_nat n) = n"
proof (induction n rule: show_nat.induct)
  case (1 n)
  show ?case
  proof (cases "n < 10")
    case True
    then show ?thesis
      by (subst show_nat.simps) (simp add: digits_val_def of_char_digit_char)
  next
    case False
    with 1 have "digits_val (show_nat (n div 10)) = n div 10" by simp
    with False show ?thesis
      by (subst show_nat.simps) (simp add: digits_val_snoc of_char_digit_char)
  qed
qed

lemma show_nat_inj [simp]: "show_nat m = show_nat n \<longleftrightarrow> m = n"
  using digits_val_show_nat by metis

lemma show_nat_nonempty [simp]: "show_nat n \<noteq> []"
  by (subst show_nat.simps) simp

section \<open>Lists and maps\<close>

lemma finite_dom_upd [simp]: "finite (dom (m(k := x))) \<longleftrightarrow> finite (dom m)"
  by (cases x) auto

text \<open>Joining strings with a separator, as the code's loops over an argument list do.\<close>

fun join_with :: "string \<Rightarrow> string list \<Rightarrow> string" where
  "join_with sep [] = []"
| "join_with sep [x] = x"
| "join_with sep (x # y # ys) = x @ sep @ join_with sep (y # ys)"

section \<open>Integers as bytes\<close>

text \<open>
  \<open>memcpy\<close> of an integer on a little-endian machine: \<open>n\<close> bytes, the least significant first;
  bits beyond them are lost, as in the cast that precedes the copy.
\<close>

fun le_bytes :: "nat \<Rightarrow> nat \<Rightarrow> bytes" where
  "le_bytes 0 v = []"
| "le_bytes (Suc n) v = of_nat v # le_bytes n (v div 256)"

fun le_value :: "bytes \<Rightarrow> nat" where
  "le_value [] = 0"
| "le_value (b # bs) = unat b + 256 * le_value bs"

text \<open>The network order of the frame header.\<close>

definition be_bytes :: "nat \<Rightarrow> nat \<Rightarrow> bytes" where
  "be_bytes n v = rev (le_bytes n v)"

definition be_value :: "bytes \<Rightarrow> nat" where
  "be_value bs = le_value (rev bs)"

lemma length_le_bytes [simp]: "length (le_bytes n v) = n"
  by (induction n arbitrary: v) auto

lemma le_value_le_bytes [simp]: "le_value (le_bytes n v) = v mod 256 ^ n"
proof (induction n arbitrary: v)
  case (Suc n)
  have "unat (of_nat v :: byte) = v mod 256" by (simp add: unat_of_nat)
  with Suc show ?case by (simp add: mod_mult2_eq)
qed simp

lemma le_value_bound: "le_value bs < 256 ^ length bs"
proof (induction bs)
  case (Cons b bs)
  have "unat b \<le> 255" using unsigned_less [where ?w=b and ?'a=nat] by simp
  moreover have "256 * (le_value bs + 1) \<le> 256 * (256 ^ length bs)"
    using Cons by (intro mult_le_mono2) simp
  ultimately show ?case by simp
qed simp

lemma length_be_bytes [simp]: "length (be_bytes n v) = n"
  by (simp add: be_bytes_def)

lemma be_value_be_bytes [simp]: "be_value (be_bytes n v) = v mod 256 ^ n"
  by (simp add: be_bytes_def be_value_def)

lemma le_bytes_le_value [simp]: "le_bytes (length bs) (le_value bs) = bs"
proof (induction bs)
  case (Cons b bs)
  have b: "unat b < 256" using unsigned_less [where ?w = b and ?'a = nat] by simp
  then have "(unat b + 256 * le_value bs) div 256 = le_value bs" by simp
  moreover have "(of_nat (unat b + 256 * le_value bs) :: byte) = b"
    by (rule unsigned_word_eqI [where ?'a = nat])
       (use b in \<open>simp add: unat_of_nat del: of_nat_add of_nat_mult\<close>)
  ultimately show ?case using Cons by (simp del: of_nat_add of_nat_mult)
qed simp

lemma be_bytes_be_value: "length bs = n \<Longrightarrow> be_bytes n (be_value bs) = bs"
  using le_bytes_le_value [of "rev bs"] by (simp add: be_bytes_def be_value_def)

lemma unat_of_nat_32: "n < 2 ^ 32 \<Longrightarrow> unat (of_nat n :: 32 word) = n"
  by (simp add: unat_of_nat)

section \<open>State machines with an invariant\<close>

text \<open>
  The contract a stateful component offers its callers: whatever sequence of operations they
  perform, the component stays in a state that satisfies its invariant.  Each component
  discharges the one-step law for its own operations.
\<close>

locale invariant_machine =
  fixes step :: "'s \<Rightarrow> 'e \<Rightarrow> 's"
    and inv :: "'s \<Rightarrow> bool"
  assumes inv_step: "inv s \<Longrightarrow> inv (step s e)"
begin

lemma inv_run: "inv s \<Longrightarrow> inv (foldl step s es)"
  by (induction es arbitrary: s) (auto intro: inv_step)

end

text \<open>A machine that in addition never decreases a rank of its state.\<close>

locale ranked_machine = invariant_machine step inv
  for step :: "'s \<Rightarrow> 'e \<Rightarrow> 's" and inv :: "'s \<Rightarrow> bool" +
  fixes rank :: "'s \<Rightarrow> 'r :: preorder"
  assumes rank_step: "inv s \<Longrightarrow> rank s \<le> rank (step s e)"
begin

lemma rank_run: "inv s \<Longrightarrow> rank s \<le> rank (foldl step s es)"
proof (induction es arbitrary: s)
  case Nil
  show ?case by simp
next
  case (Cons e es)
  have "rank s \<le> rank (step s e)" using Cons.prems by (rule rank_step)
  also have "\<dots> \<le> rank (foldl step (step s e) es)"
    by (rule Cons.IH) (rule inv_step [OF Cons.prems])
  finally show ?case by simp
qed

end

text \<open>A machine that hands out things by number, from a set that only shrinks.\<close>

fun issue_list :: "('s \<Rightarrow> 'e \<Rightarrow> 's) \<Rightarrow> ('s \<Rightarrow> 'e \<Rightarrow> nat option) \<Rightarrow> 's \<Rightarrow> 'e list \<Rightarrow> nat list" where
  "issue_list step issued s [] = []"
| "issue_list step issued s (e # es) =
     (case issued s e of None \<Rightarrow> [] | Some i \<Rightarrow> [i]) @ issue_list step issued (step s e) es"

locale issuer = invariant_machine step inv
  for step :: "'s \<Rightarrow> 'e \<Rightarrow> 's" and inv :: "'s \<Rightarrow> bool" +
  fixes issued :: "'s \<Rightarrow> 'e \<Rightarrow> nat option"
    and avail :: "'s \<Rightarrow> nat set"
  assumes issued_avail: "inv s \<Longrightarrow> issued s e = Some i \<Longrightarrow> i \<in> avail s \<and> i \<notin> avail (step s e)"
    and avail_step: "inv s \<Longrightarrow> avail (step s e) \<subseteq> avail s"
begin

lemma issued_distinct:
  "inv s \<Longrightarrow> distinct (issue_list step issued s es) \<and> set (issue_list step issued s es) \<subseteq> avail s"
proof (induction es arbitrary: s)
  case (Cons e es)
  note IH = Cons.IH [OF inv_step [OF Cons.prems, of e]]
  note shrink = avail_step [OF Cons.prems, of e]
  show ?case
  proof (cases "issued s e")
    case None
    with IH shrink show ?thesis by auto
  next
    case (Some i)
    with IH shrink issued_avail [OF Cons.prems Some] show ?thesis by auto
  qed
qed simp

end

end
