(* ===== verification/Messages.thy ===== *)
theory Messages
  imports Prelude Complex_Main "HOL-Library.Sublist"
begin

text \<open>
  The messages of \<open>src/proto/ircord.proto\<close> that the server reads and writes, and the framing of
  \<open>src/net/session.cpp\<close>.  The wire format inside a frame is protobuf's, whose code is generated
  when the server is built: it is the parameter \<open>codec\<close>, one serialiser and one parser per message.
  A \<open>string\<close> field is a \<open>string\<close>, a \<open>bytes\<close> field is \<open>bytes\<close>, integers have their width, and a
  \<open>float\<close> is the rational number it stands for.
\<close>

section \<open>Message types\<close>

text \<open>A proto3 enumeration is open: a number with no name is kept.\<close>

datatype message_type =
    MT_UNKNOWN
  | MT_HELLO
  | MT_AUTH_CHALLENGE
  | MT_AUTH_RESPONSE
  | MT_AUTH_OK
  | MT_AUTH_FAIL
  | MT_CHAT_ENVELOPE
  | MT_KEY_UPLOAD
  | MT_KEY_REQUEST
  | MT_KEY_BUNDLE
  | MT_PRESENCE
  | MT_VOICE_SIGNAL
  | MT_VOICE_ROOM_JOIN
  | MT_VOICE_ROOM_LEAVE
  | MT_VOICE_ROOM_STATE
  | MT_INVITE
  | MT_COMMAND
  | MT_COMMAND_RESPONSE
  | MT_NICK_CHANGE
  | MT_USER_INFO
  | MT_FCM_TOKEN
  | MT_FCM_UNREGISTER
  | MT_MOTD
  | MT_FILE_UPLOAD
  | MT_FILE_DOWNLOAD
  | MT_FILE_CHUNK
  | MT_FILE_PROGRESS
  | MT_FILE_COMPLETE
  | MT_FILE_ERROR
  | MT_PING
  | MT_PONG
  | MT_ERROR
  | MT_OTHER int

fun type_number :: "message_type \<Rightarrow> int" where
  "type_number MT_UNKNOWN = 0"
| "type_number MT_HELLO = 1"
| "type_number MT_AUTH_CHALLENGE = 2"
| "type_number MT_AUTH_RESPONSE = 3"
| "type_number MT_AUTH_OK = 4"
| "type_number MT_AUTH_FAIL = 5"
| "type_number MT_CHAT_ENVELOPE = 10"
| "type_number MT_KEY_UPLOAD = 20"
| "type_number MT_KEY_REQUEST = 21"
| "type_number MT_KEY_BUNDLE = 22"
| "type_number MT_PRESENCE = 30"
| "type_number MT_VOICE_SIGNAL = 40"
| "type_number MT_VOICE_ROOM_JOIN = 41"
| "type_number MT_VOICE_ROOM_LEAVE = 42"
| "type_number MT_VOICE_ROOM_STATE = 43"
| "type_number MT_INVITE = 50"
| "type_number MT_COMMAND = 60"
| "type_number MT_COMMAND_RESPONSE = 61"
| "type_number MT_NICK_CHANGE = 62"
| "type_number MT_USER_INFO = 63"
| "type_number MT_FCM_TOKEN = 70"
| "type_number MT_FCM_UNREGISTER = 71"
| "type_number MT_MOTD = 75"
| "type_number MT_FILE_UPLOAD = 80"
| "type_number MT_FILE_DOWNLOAD = 81"
| "type_number MT_FILE_CHUNK = 82"
| "type_number MT_FILE_PROGRESS = 83"
| "type_number MT_FILE_COMPLETE = 84"
| "type_number MT_FILE_ERROR = 85"
| "type_number MT_PING = 90"
| "type_number MT_PONG = 91"
| "type_number MT_ERROR = 99"
| "type_number (MT_OTHER i) = i"

section \<open>Messages\<close>

record envelope =
  env_seq :: "64 word"
  env_timestamp_ms :: "64 word"
  env_type :: message_type
  env_payload :: bytes

text \<open>An \<open>Envelope\<close> as its constructor leaves it, with a type and a payload set.\<close>

definition plain_envelope :: "message_type \<Rightarrow> bytes \<Rightarrow> envelope" where
  "plain_envelope t p = \<lparr>env_seq = 0, env_timestamp_ms = 0, env_type = t, env_payload = p\<rparr>"

record hello =
  protocol_version :: "32 word"
  client_version :: string

record auth_response =
  ar_user_id :: user_id
  ar_identity_pub :: bytes
  ar_signature :: bytes
  ar_signed_prekey :: bytes
  ar_spk_sig :: bytes
  ar_password :: string

record key_upload =
  ku_signed_prekey :: bytes
  ku_spk_signature :: bytes
  ku_one_time_prekeys :: "bytes list"

record key_bundle =
  kb_identity_pub :: bytes
  kb_signed_prekey :: bytes
  kb_spk_signature :: bytes
  kb_one_time_prekey :: bytes
  kb_recipient_for :: user_id

record chat_envelope =
  ch_sender_id :: user_id
  ch_recipient_id :: string
  ch_ciphertext :: bytes

datatype presence_status = OFFLINE | ONLINE | AWAY

datatype signal_type =
    OFFER | ANSWER | ICE_CANDIDATE | CALL_INVITE | CALL_ACCEPT | CALL_REJECT | CALL_HANGUP
  | SIGNAL_OTHER int

record voice_signal =
  vs_from_user :: user_id
  vs_to_user :: string
  vs_signal_type :: signal_type

record irc_command =
  ic_command :: string
  ic_args :: "string list"

record command_response =
  cr_success :: bool
  cr_message :: string
  cr_command :: string

record user_info =
  ui_user_id :: user_id
  ui_nickname :: string
  ui_is_online :: bool
  ui_channels :: "string list"

record file_upload_request =
  fr_file_id :: string
  fr_filename :: string
  fr_file_size :: "64 word"
  fr_mime_type :: string
  fr_recipient_id :: user_id
  fr_channel_id :: string
  fr_chunk_size :: "32 word"

record file_upload_chunk =
  uc_file_id :: string
  uc_chunk_index :: "32 word"
  uc_data :: bytes
  uc_is_last :: bool

record file_download_request =
  dr_file_id :: string
  dr_chunk_index :: "32 word"

record file_progress =
  fp_file_id :: string
  fp_bytes_transferred :: "64 word"
  fp_total_bytes :: "64 word"
  fp_percent :: rat
  fp_status :: string

text \<open>The messages the server sends.\<close>

datatype server_message =
    Auth_Challenge bytes
  | Empty
  | Error_Message "32 word" string
  | Key_Bundle key_bundle
  | Presence user_id presence_status
  | Voice_Room_Join string user_id
  | Voice_Room_Leave string user_id
  | Voice_Room_State string "user_id list"
  | Command_Response command_response
  | Nick_Change string string
  | Motd "string list"
  | File_Chunk string "32 word" bytes bool
  | File_Progress file_progress
  | File_Complete string "64 word"
  | File_Error string "32 word" string

record codec =
  ser_envelope :: "envelope \<Rightarrow> bytes"
  parse_envelope :: "bytes \<Rightarrow> envelope option"
  ser :: "server_message \<Rightarrow> bytes"
  ser_user_info :: "user_info \<Rightarrow> string"
  parse_hello :: "bytes \<Rightarrow> hello option"
  parse_auth :: "bytes \<Rightarrow> auth_response option"
  parse_chat :: "bytes \<Rightarrow> chat_envelope option"
  parse_voice_signal :: "bytes \<Rightarrow> voice_signal option"
  parse_voice_join :: "bytes \<Rightarrow> string option"
  parse_voice_leave :: "bytes \<Rightarrow> string option"
  parse_key_upload :: "bytes \<Rightarrow> key_upload option"
  parse_key_request :: "bytes \<Rightarrow> user_id option"
  parse_command :: "bytes \<Rightarrow> irc_command option"
  parse_upload_chunk :: "bytes \<Rightarrow> file_upload_chunk option"
  parse_upload_request :: "bytes \<Rightarrow> file_upload_request option"
  parse_download :: "bytes \<Rightarrow> file_download_request option"

section \<open>Frames\<close>

definition kMaxMessageSize :: nat where
  "kMaxMessageSize = 65536"

text \<open>\<open>Session::send\<close>: the length in network order, cut to 32 bits, and the serialised envelope.\<close>

definition encode_frame :: "bytes \<Rightarrow> bytes" where
  "encode_frame data = be_bytes 4 (length data) @ data"

text \<open>
  The read loop (\<open>do_read_frame_header\<close>, \<open>do_read_frame_payload\<close>) over the bytes of a connection:
  the frames it passes on, and how it ends.
\<close>

datatype read_end = Stream_End | Message_Too_Large nat | Zero_Length_Message

function (sequential) read_frames :: "bytes \<Rightarrow> bytes list \<times> read_end" where
  "read_frames stream =
     (if length stream < 4 then ([], Stream_End)
      else
        let size = be_value (take 4 stream); rest = drop 4 stream
        in if size > kMaxMessageSize then ([], Message_Too_Large size)
           else if size = 0 then ([], Zero_Length_Message)
           else if length rest < size then ([], Stream_End)
           else case read_frames (drop size rest) of (fs, e) \<Rightarrow> (take size rest # fs, e))"
  by pat_completeness auto
termination by (relation "measure length") auto

declare read_frames.simps [simp del]

text \<open>A frame the other side accepts.\<close>

definition frame_fits :: "bytes \<Rightarrow> bool" where
  "frame_fits data \<longleftrightarrow> data \<noteq> [] \<and> length data \<le> kMaxMessageSize"

lemma read_one_frame:
  assumes "frame_fits data"
  shows "read_frames (encode_frame data @ rest) =
    (case read_frames rest of (fs, e) \<Rightarrow> (data # fs, e))"
  using assms
  by (subst read_frames.simps) (auto simp: encode_frame_def frame_fits_def kMaxMessageSize_def Let_def)

text \<open>
  C30: Framing is transparent: the read loop recovers, in order, every payload of 1 to 65536 bytes
  that was framed and concatenated, and then goes on with what follows on the stream.
\<close>

theorem frames_roundtrip:
  assumes "\<forall>p \<in> set ps. frame_fits p"
  shows "read_frames (concat (map encode_frame ps) @ rest) =
    (ps @ fst (read_frames rest), snd (read_frames rest))"
  using assms by (induction ps) (simp_all add: read_one_frame split: prod.splits)

theorem frames_roundtrip_witness:
  "read_frames (encode_frame [1, 2] @ encode_frame [3] @ [0]) = ([[1, 2], [3]], Stream_End)"
proof -
  have "\<forall>p \<in> set [[1 :: byte, 2], [3]]. frame_fits p"
    by (simp add: frame_fits_def kMaxMessageSize_def)
  moreover have "read_frames [0] = ([], Stream_End)" by (simp add: read_frames.simps)
  ultimately show ?thesis using frames_roundtrip [of "[[1, 2], [3]]" "[0]"] by simp
qed

text \<open>
  Whatever bytes a client sends, the read loop passes on only frames of 1 to 65536 bytes, never
  reads past the stream, and ends: the frames with their headers are a prefix of the stream.
\<close>

theorem frames_bounded:
  "list_all frame_fits (fst (read_frames stream)) \<and>
   prefix (concat (map encode_frame (fst (read_frames stream)))) stream"
proof (induction stream rule: read_frames.induct)
  case (1 stream)
  define size where "size = be_value (take 4 stream)"
  define rest where "rest = drop 4 stream"
  show ?case
  proof (cases "length stream < 4 \<or> size > kMaxMessageSize \<or> size = 0 \<or> length rest < size")
    case True
    then have "fst (read_frames stream) = []"
      by (subst read_frames.simps) (auto simp: Let_def size_def rest_def)
    then show ?thesis by simp
  next
    case False
    then have fits: "frame_fits (take size rest)" by (auto simp: frame_fits_def)
    have "be_bytes 4 size = take 4 stream"
      using False by (simp add: size_def be_bytes_be_value)
    then have "encode_frame (take size rest) = take 4 stream @ take size rest"
      using False by (simp add: encode_frame_def min_absorb2)
    then have stream: "stream = encode_frame (take size rest) @ drop size rest"
      by (simp add: rest_def del: drop_drop)
    then have "fst (read_frames stream) = take size rest # fst (read_frames (drop size rest))"
      using read_one_frame [OF fits, of "drop size rest"] by (simp split: prod.splits)
    moreover have "list_all frame_fits (fst (read_frames (drop size rest))) \<and>
        prefix (concat (map encode_frame (fst (read_frames (drop size rest))))) (drop size rest)"
      using 1 False by (simp add: size_def rest_def)
    ultimately have "list_all frame_fits (fst (read_frames stream))"
      and "prefix (concat (map encode_frame (fst (read_frames stream))))
        (encode_frame (take size rest) @ drop size rest)"
      using fits by simp_all
    then show ?thesis by (simp only: stream [symmetric])
  qed
qed

end
