(* ===== verification/Voice_Rooms.thy ===== *)
theory Voice_Rooms
  imports Messages
begin

text \<open>
  The voice rooms of \<open>src/voice/voice_room_manager.cpp\<close>: \<open>rooms\<close> maps a channel to its participants
  (a \<open>std::set\<close>, iterated in ascending order) and \<open>user_room\<close> a user to the room they are in.  An
  operation returns the notifications it sends, in order, with their recipients; the manager hands
  them to the recipients' sessions.
\<close>

record voice_state =
  rooms :: "string \<Rightarrow> user_id set option"
  user_room :: "user_id \<Rightarrow> string option"

type_synonym notices = "(user_id \<times> message_type \<times> server_message) list"

definition empty_voice :: voice_state where
  "empty_voice = \<lparr>rooms = (\<lambda>_. None), user_room = (\<lambda>_. None)\<rparr>"

definition kMaxPerRoom :: nat where
  "kMaxPerRoom = 8"

definition leave_notices :: "string \<Rightarrow> user_id \<Rightarrow> user_id set \<Rightarrow> notices" where
  "leave_notices channel u peers =
     map (\<lambda>p. (p, MT_VOICE_ROOM_LEAVE, Voice_Room_Leave channel u)) (sorted_list_of_set peers)"

text \<open>\<open>rooms_[c]\<close> makes an empty room where there is none.\<close>

definition room_at :: "string \<Rightarrow> voice_state \<Rightarrow> user_id set" where
  "room_at c v = (case rooms v c of None \<Rightarrow> {} | Some r \<Rightarrow> r)"

text \<open>The first half of \<open>join\<close>: who is in a room leaves it.\<close>

definition auto_leave :: "user_id \<Rightarrow> voice_state \<Rightarrow> notices \<times> voice_state" where
  "auto_leave u v =
     (case user_room v u of
        None \<Rightarrow> ([], v)
      | Some old \<Rightarrow>
          let old_room = room_at old v - {u}
          in (leave_notices old u old_room,
              v\<lparr>rooms := (rooms v)(old := if old_room = {} then None else Some old_room),
                user_room := (user_room v)(u := None)\<rparr>))"

definition voice_join :: "string \<Rightarrow> user_id \<Rightarrow> voice_state \<Rightarrow> string \<times> notices \<times> voice_state" where
  "voice_join channel u v =
     (case auto_leave u v of
        (left, v1) \<Rightarrow>
          let room = room_at channel v1
          in if card room \<ge> kMaxPerRoom
             then (''Voice room is full (max '' @ show_nat kMaxPerRoom @ '')'', left,
                   v1\<lparr>rooms := (rooms v1)(channel \<mapsto> room)\<rparr>)
             else
               let room' = insert u room
               in ([],
                   left @ map (\<lambda>p. (p, MT_VOICE_ROOM_JOIN, Voice_Room_Join channel u))
                            (sorted_list_of_set room)
                        @ [(u, MT_VOICE_ROOM_STATE, Voice_Room_State channel (sorted_list_of_set room'))],
                   v1\<lparr>rooms := (rooms v1)(channel \<mapsto> room'),
                      user_room := (user_room v1)(u \<mapsto> channel)\<rparr>))"

definition voice_leave :: "string \<Rightarrow> user_id \<Rightarrow> voice_state \<Rightarrow> notices \<times> voice_state" where
  "voice_leave channel u v =
     (case rooms v channel of
        None \<Rightarrow> ([], v)
      | Some room \<Rightarrow>
          if u \<notin> room then ([], v)
          else
            let room' = room - {u}
            in (leave_notices channel u room',
                v\<lparr>rooms := (rooms v)(channel := if room' = {} then None else Some room'),
                  user_room := (user_room v)(u := None)\<rparr>))"

definition voice_disconnect :: "user_id \<Rightarrow> voice_state \<Rightarrow> notices \<times> voice_state" where
  "voice_disconnect u v =
     (case user_room v u of
        None \<Rightarrow> ([], v)
      | Some channel \<Rightarrow>
          (case rooms v channel of
             None \<Rightarrow> ([], v\<lparr>user_room := (user_room v)(u := None)\<rparr>)
           | Some room \<Rightarrow>
               let room' = room - {u}
               in (leave_notices channel u room',
                   v\<lparr>rooms := (rooms v)(channel := if room' = {} then None else Some room'),
                     user_room := (user_room v)(u := None)\<rparr>)))"

definition participants :: "string \<Rightarrow> voice_state \<Rightarrow> user_id list" where
  "participants channel v =
     (case rooms v channel of None \<Rightarrow> [] | Some room \<Rightarrow> sorted_list_of_set room)"

definition is_in_voice :: "user_id \<Rightarrow> voice_state \<Rightarrow> bool" where
  "is_in_voice u v = (user_room v u \<noteq> None)"

section \<open>The invariant\<close>

text \<open>
  The two maps are each other's inverse, every room has between one and eight participants, so a user
  is in at most one room.
\<close>

definition voice_ok :: "voice_state \<Rightarrow> bool" where
  "voice_ok v \<longleftrightarrow>
     (\<forall>c room. rooms v c = Some room \<longrightarrow> room \<noteq> {} \<and> finite room \<and> card room \<le> kMaxPerRoom) \<and>
     (\<forall>u c. user_room v u = Some c \<longleftrightarrow> u \<in> room_at c v)"

lemma empty_voice_ok [inv_intros]: "voice_ok empty_voice"
  by (simp add: voice_ok_def empty_voice_def room_at_def)

lemma room_at_upd:
  "room_at c (v\<lparr>rooms := (rooms v)(d := x), user_room := f\<rparr>) =
    (if c = d then (case x of None \<Rightarrow> {} | Some r \<Rightarrow> r) else room_at c v)"
  by (simp add: room_at_def)

lemma finite_room_at: "voice_ok v \<Longrightarrow> finite (room_at c v)"
  by (auto simp: voice_ok_def room_at_def split: option.splits)

lemma in_room_iff: "voice_ok v \<Longrightarrow> u \<in> room_at c v \<longleftrightarrow> user_room v u = Some c"
  by (simp add: voice_ok_def)

text \<open>Every way out of a room is the same update.\<close>

definition take_out :: "string \<Rightarrow> user_id \<Rightarrow> voice_state \<Rightarrow> voice_state" where
  "take_out c u v =
     v\<lparr>rooms := (rooms v)(c := if room_at c v - {u} = {} then None else Some (room_at c v - {u})),
       user_room := (user_room v)(u := None)\<rparr>"

lemma take_out_ok [inv_intros]:
  assumes "voice_ok v" "u \<in> room_at c v"
  shows "voice_ok (take_out c u v)"
proof -
  have only: "u \<in> room_at d v \<longleftrightarrow> d = c" for d
    using assms by (auto simp: in_room_iff [OF assms(1)])
  have "card (room_at c v - {u}) \<le> card (room_at c v)"
    by (rule card_mono) (auto simp: finite_room_at [OF assms(1)])
  moreover have "card (room_at c v) \<le> kMaxPerRoom"
    using assms by (auto simp: voice_ok_def room_at_def split: option.splits)
  ultimately show ?thesis
    using assms(1) only finite_room_at [OF assms(1), of c]
    by (auto simp: voice_ok_def take_out_def room_at_upd split: if_splits)
qed

lemma voice_leave_eq:
  "snd (voice_leave c u v) = (if u \<in> room_at c v then take_out c u v else v)"
  by (auto simp: voice_leave_def take_out_def room_at_def Let_def split: option.splits)

lemma voice_disconnect_eq:
  assumes "voice_ok v"
  shows "snd (voice_disconnect u v) =
    (case user_room v u of None \<Rightarrow> v | Some c \<Rightarrow> take_out c u v)"
proof (cases "user_room v u")
  case None
  then show ?thesis by (simp add: voice_disconnect_def)
next
  case (Some c)
  with assms have "u \<in> room_at c v" by (simp add: voice_ok_def)
  then obtain r where "rooms v c = Some r" by (auto simp: room_at_def split: option.splits)
  with Some show ?thesis
    by (simp add: voice_disconnect_def take_out_def room_at_def Let_def)
qed

lemma auto_leave_eq:
  "snd (auto_leave u v) = (case user_room v u of None \<Rightarrow> v | Some c \<Rightarrow> take_out c u v)"
  by (simp add: auto_leave_def take_out_def Let_def split: option.splits)

lemma in_own_room: "voice_ok v \<Longrightarrow> user_room v u = Some c \<Longrightarrow> u \<in> room_at c v"
  by (simp add: voice_ok_def)

lemma voice_leave_ok [inv_intros]: "voice_ok v \<Longrightarrow> voice_ok (snd (voice_leave c u v))"
  by (simp add: voice_leave_eq take_out_ok)

lemma voice_disconnect_ok [inv_intros]: "voice_ok v \<Longrightarrow> voice_ok (snd (voice_disconnect u v))"
  by (auto simp: voice_disconnect_eq take_out_ok in_own_room split: option.splits)

lemma auto_leave_ok [inv_intros]: "voice_ok v \<Longrightarrow> voice_ok (snd (auto_leave u v))"
  by (auto simp: auto_leave_eq take_out_ok in_own_room split: option.splits)

lemma auto_leave_out: "user_room (snd (auto_leave u v)) u = None"
  by (auto simp: auto_leave_eq take_out_def split: option.splits)

lemma voice_join_ok [inv_intros]:
  assumes "voice_ok v"
  shows "voice_ok (snd (snd (voice_join c u v)))"
proof -
  obtain left v1 where a: "auto_leave u v = (left, v1)" by fastforce
  have v1: "voice_ok v1" "user_room v1 u = None"
    using auto_leave_ok [OF assms, of u] auto_leave_out [of u v] by (simp_all add: a)
  have fin: "finite (room_at c v1)" using v1(1) by (rule finite_room_at)
  show ?thesis
  proof (cases "card (room_at c v1) \<ge> kMaxPerRoom")
    case True
    then have "room_at c v1 \<noteq> {}" by (auto simp: kMaxPerRoom_def)
    then have "rooms v1 c = Some (room_at c v1)" by (auto simp: room_at_def split: option.splits)
    then have "(rooms v1)(c \<mapsto> room_at c v1) = rooms v1" by (simp add: fun_upd_idem)
    with True v1(1) show ?thesis by (simp add: voice_join_def a Let_def)
  next
    case False
    moreover have "card (insert u (room_at c v1)) \<le> Suc (card (room_at c v1))"
      using fin by (simp add: card_insert_if)
    moreover have "u \<notin> room_at d v1" for d using v1(2) by (simp add: in_room_iff [OF v1(1)])
    ultimately show ?thesis
      using v1(1) fin by (auto simp: voice_join_def a Let_def voice_ok_def room_at_upd)
  qed
qed

datatype voice_op = V_Join string user_id | V_Leave string user_id | V_Disconnect user_id

fun voice_step :: "voice_state \<Rightarrow> voice_op \<Rightarrow> voice_state" where
  "voice_step v (V_Join c u) = snd (snd (voice_join c u v))"
| "voice_step v (V_Leave c u) = snd (voice_leave c u v)"
| "voice_step v (V_Disconnect u) = snd (voice_disconnect u v)"

interpretation voice: invariant_machine voice_step voice_ok
proof
  fix v e assume "voice_ok v"
  then show "voice_ok (voice_step v e)" by (cases e) (auto intro: inv_intros)
qed

section \<open>Correctness\<close>

text \<open>
  C32: Under any sequence of joins, leaves and disconnects, a user is in at most one voice room, the
  index \<open>user_room_\<close> and the rooms agree, and every existing room has between one and eight
  participants.
\<close>

theorem voice_rooms_consistent:
  "let v = foldl voice_step empty_voice ops
   in (is_in_voice u v \<longleftrightarrow> (\<exists>c. u \<in> set (participants c v))) \<and>
      (u \<in> set (participants c v) \<and> u \<in> set (participants d v) \<longrightarrow> c = d) \<and>
      length (participants c v) \<le> 8 \<and> (rooms v c = None \<longleftrightarrow> participants c v = [])"
proof -
  define v where "v = foldl voice_step empty_voice ops"
  have ok: "voice_ok v" unfolding v_def by (rule voice.inv_run) (rule empty_voice_ok)
  have part: "participants e v = sorted_list_of_set (room_at e v)" for e
    by (simp add: participants_def room_at_def split: option.splits)
  then have mem: "w \<in> set (participants e v) \<longleftrightarrow> user_room v w = Some e" for w e
    using finite_room_at [OF ok] in_room_iff [OF ok] by simp
  have "length (participants c v) \<le> 8"
    using ok by (auto simp: part voice_ok_def room_at_def kMaxPerRoom_def split: option.splits)
  moreover have "rooms v c = None \<longleftrightarrow> participants c v = []"
    using ok finite_room_at [OF ok, of c]
    by (auto simp: part voice_ok_def room_at_def split: option.splits)
  ultimately show ?thesis
    unfolding Let_def v_def [symmetric] by (auto simp: is_in_voice_def mem)
qed

theorem voice_rooms_consistent_witness:
  "length (participants ''#r''
     (foldl voice_step empty_voice [V_Join ''#r'' ''al'', V_Join ''#s'' ''al''])) \<le> 8"
  using voice_rooms_consistent [of "[V_Join ''#r'' ''al'', V_Join ''#s'' ''al'']" "''al''" "''#r''" "''#s''"]
  by (simp only: Let_def)

text \<open>
  A join that succeeds puts the user into the room, tells every participant there was (and only
  them) of it, and the last notice, to the joiner, lists the room as it now is; a join that fails
  means that eight others are in the room, and the user is then in no room at all.
\<close>

theorem voice_join_effect:
  assumes ok: "voice_ok v" and res: "voice_join c u v = (err, sent, v')"
  shows "if err = []
    then user_room v' u = Some c \<and> u \<in> room_at c v' \<and>
         last sent = (u, MT_VOICE_ROOM_STATE, Voice_Room_State c (participants c v')) \<and>
         {p. (p, MT_VOICE_ROOM_JOIN, Voice_Room_Join c u) \<in> set sent} = room_at c v' - {u}
    else card (room_at c v - {u}) \<ge> 8 \<and> user_room v' u = None"
proof -
  obtain left v1 where a: "auto_leave u v = (left, v1)" by fastforce
  have v1: "voice_ok v1" "user_room v1 u = None"
    using auto_leave_ok [OF ok, of u] auto_leave_out [of u v] by (simp_all add: a)
  have notin: "u \<notin> room_at d v1" for d using v1(2) by (simp add: in_room_iff [OF v1(1)])
  have fin: "finite (room_at c v1)" using v1(1) by (rule finite_room_at)
  have left: "(p, MT_VOICE_ROOM_JOIN, m) \<notin> set left" for p m
    using arg_cong [OF a, of fst] by (auto simp: auto_leave_def leave_notices_def Let_def split: option.splits)
  have before: "room_at c v1 = room_at c v - {u}"
  proof (cases "user_room v u")
    case None
    with a have "v1 = v" by (simp add: auto_leave_def)
    with notin [of c] show ?thesis by simp
  next
    case (Some d)
    have "v1 = take_out d u v" using arg_cong [OF a, of snd] Some by (simp add: auto_leave_eq)
    then have "room_at c v1 = (if c = d then room_at d v - {u} else room_at c v)"
      by (simp add: take_out_def room_at_upd)
    moreover have "c \<noteq> d \<Longrightarrow> u \<notin> room_at c v" using Some by (simp add: in_room_iff [OF ok])
    ultimately show ?thesis by auto
  qed
  show ?thesis
  proof (cases "card (room_at c v1) \<ge> kMaxPerRoom")
    case True
    then have "err \<noteq> []" "v' = v1\<lparr>rooms := (rooms v1)(c \<mapsto> room_at c v1)\<rparr>"
      using res by (auto simp add: voice_join_def a Let_def)
    moreover have "card (room_at c v - {u}) \<ge> 8"
      using True before by (simp add: kMaxPerRoom_def)
    ultimately show ?thesis using v1(2) by simp
  next
    case False
    let ?r = "room_at c v1"
    have eqs: "err = []"
      "sent = left @ map (\<lambda>p. (p, MT_VOICE_ROOM_JOIN, Voice_Room_Join c u)) (sorted_list_of_set ?r)
        @ [(u, MT_VOICE_ROOM_STATE, Voice_Room_State c (sorted_list_of_set (insert u ?r)))]"
      "v' = v1\<lparr>rooms := (rooms v1)(c \<mapsto> insert u ?r), user_room := (user_room v1)(u \<mapsto> c)\<rparr>"
      using res False by (simp_all add: voice_join_def a Let_def)
    have after: "room_at c v' = insert u ?r" by (simp add: eqs room_at_upd)
    have "participants c v' = sorted_list_of_set (insert u ?r)" by (simp add: eqs participants_def)
    then have "last sent = (u, MT_VOICE_ROOM_STATE, Voice_Room_State c (participants c v'))"
      by (simp add: eqs)
    moreover have "{p. (p, MT_VOICE_ROOM_JOIN, Voice_Room_Join c u) \<in> set sent} = room_at c v' - {u}"
      unfolding after eqs(2) using notin [of c] fin left by auto
    moreover have "user_room v' u = Some c" by (simp add: eqs)
    ultimately show ?thesis using eqs(1) after by simp
  qed
qed

theorem voice_join_effect_witness:
  "user_room (snd (snd (voice_join ''#r'' ''al'' empty_voice))) ''al'' = Some ''#r''"
proof -
  have j: "voice_join ''#r'' ''al'' empty_voice =
      ([], [(''al'', MT_VOICE_ROOM_STATE, Voice_Room_State ''#r'' [''al''])],
       \<lparr>rooms = [''#r'' \<mapsto> {''al''}], user_room = [''al'' \<mapsto> ''#r'']\<rparr>)"
    by (simp add: voice_join_def auto_leave_def empty_voice_def room_at_def kMaxPerRoom_def Let_def)
  show ?thesis using voice_join_effect [OF empty_voice_ok j] by (simp add: j)
qed

end
