(* ===== verification/File_Encryptor.thy ===== *)
theory File_Encryptor
  imports Prelude
begin

text \<open>
  \<open>src/crypto/file_encryptor.cpp\<close>: encryption of files at rest.  The hexadecimal form of the
  master key, the two envelopes (a file under its data key, the data key under the master key) and
  the blob the data key is stored as.

  libsodium is a parameter: \<open>kdf\<close> is \<open>crypto_pwhash\<close> (\<open>None\<close> when it fails), \<open>seal key nonce m\<close>
  is \<open>crypto_secretbox_easy\<close> (a 16-byte MAC before the ciphertext) and \<open>unseal\<close> is
  \<open>crypto_secretbox_open_easy\<close>.  The bytes of \<open>randombytes_buf\<close> are arguments, in a record with
  one field per call.  Allocations are assumed to succeed.
\<close>

section \<open>Hexadecimal\<close>

definition hex_digit :: "nat \<Rightarrow> char" where
  "hex_digit d = (if d < 10 then char_of (48 + d) else char_of (87 + d))"

definition hex_val :: "char \<Rightarrow> nat option" where
  "hex_val c =
     (let n = of_char c
      in if 48 \<le> n \<and> n \<le> 57 then Some (n - 48)
         else if 97 \<le> n \<and> n \<le> 102 then Some (n - 87)
         else if 65 \<le> n \<and> n \<le> 70 then Some (n - 55)
         else None)"

definition is_hex :: "char \<Rightarrow> bool" where
  "is_hex c \<longleftrightarrow> hex_val c \<noteq> None"

definition bytes_to_hex :: "bytes \<Rightarrow> string" where
  "bytes_to_hex bs = concat (map (\<lambda>b. [hex_digit (unat b div 16), hex_digit (unat b mod 16)]) bs)"

text \<open>
  \<open>std::stoi (s, nullptr, 16)\<close>, that is \<open>strtol\<close>: white space, a sign and a \<open>0x\<close> prefix are
  skipped, the longest run of digits is read, what follows it is ignored, and no digit at all is an
  exception.  (Two characters cannot be out of range.)
\<close>

definition skip_sign :: "string \<Rightarrow> bool \<times> string" where
  "skip_sign s =
     (case s of
        [] \<Rightarrow> (False, [])
      | c # r \<Rightarrow> if c = CHR ''-'' then (True, r) else if c = CHR ''+'' then (False, r) else (False, s))"

definition skip_0x :: "string \<Rightarrow> string" where
  "skip_0x s =
     (case s of
        a # b # c # r \<Rightarrow>
          if a = CHR ''0'' \<and> (b = CHR ''x'' \<or> b = CHR ''X'') \<and> is_hex c then c # r else s
      | _ \<Rightarrow> s)"

definition stoi16 :: "string \<Rightarrow> int option" where
  "stoi16 s =
     (let (neg, t) = skip_sign (dropWhile is_space s);
          ds = takeWhile is_hex (skip_0x t);
          v = foldl (\<lambda>v c. 16 * v + int (the (hex_val c))) 0 ds
      in if ds = [] then None else Some (if neg then - v else v))"

fun hex_pairs :: "string \<Rightarrow> bytes option" where
  "hex_pairs (a # b # r) =
     (case stoi16 [a, b] of
        None \<Rightarrow> None
      | Some v \<Rightarrow> map_option (\<lambda>bs. word_of_int v # bs) (hex_pairs r))"
| "hex_pairs _ = Some []"

definition hex_to_bytes :: "string \<Rightarrow> bytes option" where
  "hex_to_bytes hex = (if odd (length hex) then None else hex_pairs hex)"

section \<open>Keys and headers\<close>

definition MASTER_KEY_SIZE :: nat where "MASTER_KEY_SIZE = 32"
definition DEK_SIZE :: nat where "DEK_SIZE = 32"
definition IV_SIZE :: nat where "IV_SIZE = 12"
definition TAG_SIZE :: nat where "TAG_SIZE = 16"
definition SALT_SIZE :: nat where "SALT_SIZE = 32"
definition MACBYTES :: nat where "MACBYTES = 16"
definition NONCEBYTES :: nat where "NONCEBYTES = 24"

lemmas sizes = MASTER_KEY_SIZE_def DEK_SIZE_def IV_SIZE_def TAG_SIZE_def SALT_SIZE_def MACBYTES_def
  NONCEBYTES_def

record encrypted_key =
  ek_ciphertext :: bytes
  ek_iv :: bytes
  ek_tag :: bytes

text \<open>The random bytes of one call of \<open>encrypt\<close>, in the order the code draws them.\<close>

record entropy =
  rnd_dek :: bytes
  rnd_dek_iv :: bytes
  rnd_dek_tag :: bytes
  rnd_dek_salt :: bytes
  rnd_salt :: bytes
  rnd_nonce :: bytes

text \<open>The constructor: an empty master key means the encryptor is not ready.\<close>

definition new_file_encryptor :: "string \<Rightarrow> bytes" where
  "new_file_encryptor master_key_hex =
     (case hex_to_bytes master_key_hex of
        None \<Rightarrow> []
      | Some k \<Rightarrow> if length k \<noteq> MASTER_KEY_SIZE then [] else k)"

definition is_ready :: "bytes \<Rightarrow> bool" where
  "is_ready master_key \<longleftrightarrow> master_key \<noteq> []"

text \<open>The nonce of both directions: the 12 bytes of the IV, then zeros.\<close>

definition nonce_of_iv :: "bytes \<Rightarrow> bytes" where
  "nonce_of_iv iv = take NONCEBYTES (iv @ replicate NONCEBYTES 0)"

text \<open>
  What a decryption can come to.  \<open>Overrun\<close>: the box opens to more bytes than the output vector
  holds, and libsodium writes past its end.
\<close>

datatype 'a opened = Opened 'a | Rejected | Overrun

text \<open>
  Opening into a vector of \<open>capacity\<close> zeros: the message, and the zeros it does not reach.
\<close>

definition open_into ::
  "(bytes \<Rightarrow> bytes \<Rightarrow> bytes \<Rightarrow> bytes option) \<Rightarrow> bytes \<Rightarrow> bytes \<Rightarrow> bytes \<Rightarrow> nat \<Rightarrow> bytes opened"
where
  "open_into unseal key nonce boxed capacity =
     (case unseal key nonce boxed of
        None \<Rightarrow> Rejected
      | Some m \<Rightarrow> if length m \<le> capacity then Opened (m @ replicate (capacity - length m) 0) else Overrun)"

definition encrypt_dek ::
  "(bytes \<Rightarrow> bytes \<Rightarrow> bytes option) \<Rightarrow> (bytes \<Rightarrow> bytes \<Rightarrow> bytes \<Rightarrow> bytes) \<Rightarrow> entropy \<Rightarrow> bytes \<Rightarrow>
   bytes \<Rightarrow> encrypted_key option"
where
  "encrypt_dek kdf seal rnd master_key dek =
     (case kdf master_key (rnd_dek_salt rnd) of
        None \<Rightarrow> None
      | Some kek \<Rightarrow>
          Some \<lparr>ek_ciphertext = rnd_dek_salt rnd @ seal kek (nonce_of_iv (rnd_dek_iv rnd)) dek,
                ek_iv = rnd_dek_iv rnd, ek_tag = rnd_dek_tag rnd\<rparr>)"

definition decrypt_dek ::
  "(bytes \<Rightarrow> bytes \<Rightarrow> bytes option) \<Rightarrow> (bytes \<Rightarrow> bytes \<Rightarrow> bytes \<Rightarrow> bytes option) \<Rightarrow> bytes \<Rightarrow>
   encrypted_key \<Rightarrow> bytes opened"
where
  "decrypt_dek kdf unseal master_key ek =
     (if length (ek_ciphertext ek) < SALT_SIZE + DEK_SIZE + MACBYTES then Rejected
      else case kdf master_key (take SALT_SIZE (ek_ciphertext ek)) of
             None \<Rightarrow> Rejected
           | Some kek \<Rightarrow>
               open_into unseal kek (nonce_of_iv (ek_iv ek)) (drop SALT_SIZE (ek_ciphertext ek)) DEK_SIZE)"

text \<open>
  \<open>encrypt\<close> returns the header followed by the ciphertext, and writes the wrapped data key to its
  output argument (also when the derivation of the file key fails afterwards).
\<close>

definition encrypt ::
  "(bytes \<Rightarrow> bytes \<Rightarrow> bytes option) \<Rightarrow> (bytes \<Rightarrow> bytes \<Rightarrow> bytes \<Rightarrow> bytes) \<Rightarrow> entropy \<Rightarrow> bytes \<Rightarrow>
   bytes \<Rightarrow> encrypted_key \<Rightarrow> bytes option \<times> encrypted_key"
where
  "encrypt kdf seal rnd master_key plaintext out_key =
     (if \<not> is_ready master_key then (None, out_key)
      else case encrypt_dek kdf seal rnd master_key (rnd_dek rnd) of
             None \<Rightarrow> (None, out_key)
           | Some ek \<Rightarrow>
               (case kdf (rnd_dek rnd) (rnd_salt rnd) of
                  None \<Rightarrow> (None, ek)
                | Some file_key \<Rightarrow>
                    (let encrypted = seal file_key (rnd_nonce rnd) plaintext;
                         iv = take IV_SIZE (rnd_nonce rnd);
                         tag = take TAG_SIZE encrypted
                     in (Some (rnd_salt rnd @ iv @ tag @ le_bytes 8 (length plaintext)
                               @ le_bytes 8 (length encrypted - MACBYTES) @ drop MACBYTES encrypted),
                         ek))))"

definition decrypt ::
  "(bytes \<Rightarrow> bytes \<Rightarrow> bytes option) \<Rightarrow> (bytes \<Rightarrow> bytes \<Rightarrow> bytes \<Rightarrow> bytes option) \<Rightarrow> bytes \<Rightarrow>
   bytes \<Rightarrow> encrypted_key \<Rightarrow> bytes opened"
where
  "decrypt kdf unseal master_key data ek =
     (let header_size = SALT_SIZE + IV_SIZE + TAG_SIZE + 16;
          salt = take SALT_SIZE data;
          iv = take IV_SIZE (drop SALT_SIZE data);
          tag = take TAG_SIZE (drop (SALT_SIZE + IV_SIZE) data);
          original_size = le_value (take 8 (drop (SALT_SIZE + IV_SIZE + TAG_SIZE) data))
      in if \<not> is_ready master_key then Rejected
         else if length data < header_size then Rejected
         else case decrypt_dek kdf unseal master_key ek of
                Rejected \<Rightarrow> Rejected
              | Overrun \<Rightarrow> Overrun
              | Opened dek \<Rightarrow>
                  (case kdf dek salt of
                     None \<Rightarrow> Rejected
                   | Some file_key \<Rightarrow>
                       open_into unseal file_key (nonce_of_iv iv) (tag @ drop header_size data)
                         original_size))"

section \<open>The stored form of a data key\<close>

definition serialize_encrypted_key :: "encrypted_key \<Rightarrow> bytes" where
  "serialize_encrypted_key k =
     ek_iv k @ ek_tag k @ le_bytes 4 (length (ek_ciphertext k)) @ ek_ciphertext k"

definition deserialize_encrypted_key :: "bytes \<Rightarrow> encrypted_key option" where
  "deserialize_encrypted_key data =
     (let pos = IV_SIZE + TAG_SIZE + 4;
          len = le_value (take 4 (drop (IV_SIZE + TAG_SIZE) data))
      in if length data < pos then None
         else if length data < pos + len then None
         else Some \<lparr>ek_ciphertext = take len (drop pos data), ek_iv = take IV_SIZE data,
                    ek_tag = take TAG_SIZE (drop IV_SIZE data)\<rparr>)"

section \<open>Correctness\<close>

lemma lt_16_cases:
  "d < 16 \<Longrightarrow> d \<in> {0, 1, 2, 3, 4, 5, 6, 7, 8, 9, 10, 11, 12, 13, 14, 15 :: nat}"
  by (simp only: insert_iff empty_iff) presburger

lemma hex_digit_reads:
  assumes "d < 16"
  shows "hex_val (hex_digit d) = Some d" "\<not> is_space (hex_digit d)"
    "hex_digit d \<noteq> CHR ''-''" "hex_digit d \<noteq> CHR ''+''"
  using lt_16_cases [OF assms]
  by (elim insertE emptyE; simp add: hex_digit_def hex_val_def is_space_def char_le_iff of_char_of char_of_def bit_iff_odd)+

lemma stoi16_digits:
  "i < 16 \<Longrightarrow> j < 16 \<Longrightarrow> stoi16 [hex_digit i, hex_digit j] = Some (16 * int i + int j)"
  by (simp add: stoi16_def skip_sign_def skip_0x_def is_hex_def hex_digit_reads)

lemma hex_pairs_bytes_to_hex: "hex_pairs (bytes_to_hex bs) = Some bs"
proof (induction bs)
  case (Cons b bs)
  have b: "unat b < 256" using unsigned_less [where ?w = b and ?'a = nat] by simp
  have "16 * (unat b div 16) + unat b mod 16 = unat b" by simp
  then have "16 * int (unat b div 16) + int (unat b mod 16) = int (unat b)"
    by (metis of_nat_add of_nat_mult of_nat_numeral)
  moreover have "word_of_int (int (unat b)) = b" by simp
  ultimately show ?case
    using Cons b by (simp add: bytes_to_hex_def stoi16_digits)
qed (simp add: bytes_to_hex_def)

lemma length_bytes_to_hex: "length (bytes_to_hex bs) = 2 * length bs"
  by (induction bs) (simp_all add: bytes_to_hex_def)

text \<open>
  The hexadecimal printer and reader of the master key are inverse: what \<open>bytes_to_hex\<close> prints,
  \<open>hex_to_bytes\<close> reads back, and a printed key is accepted by the constructor exactly when it has
  32 bytes.
\<close>

theorem hex_roundtrip:
  "hex_to_bytes (bytes_to_hex bs) = Some bs \<and>
   new_file_encryptor (bytes_to_hex bs) = (if length bs = 32 then bs else [])"
  by (simp add: new_file_encryptor_def hex_to_bytes_def hex_pairs_bytes_to_hex length_bytes_to_hex sizes)

text \<open>The reader is laxer than the printer: signs, spaces and trailing junk pass.\<close>

lemma hex_reader_is_lax:
  "hex_to_bytes ''-1'' = Some [255]" "hex_to_bytes '' f'' = Some [15]" "hex_to_bytes ''1g'' = Some [1]"
  by (simp_all add: hex_to_bytes_def stoi16_def skip_sign_def skip_0x_def is_hex_def hex_val_def
      is_space_def)

text \<open>
  The blob a data key is stored as reads back as the same key, whatever follows it, for a key
  with the fixed IV and tag sizes and a ciphertext that fits its 32-bit length.
\<close>

theorem key_blob_roundtrip:
  assumes "length (ek_iv k) = 12" "length (ek_tag k) = 16" "length (ek_ciphertext k) < 2 ^ 32"
  shows "deserialize_encrypted_key (serialize_encrypted_key k @ rest) = Some k"
  using assms
  by (simp add: deserialize_encrypted_key_def serialize_encrypted_key_def sizes Let_def)

theorem key_blob_roundtrip_witness:
  "let k = \<lparr>ek_ciphertext = [7, 8, 9], ek_iv = replicate 12 1, ek_tag = replicate 16 2\<rparr>
   in deserialize_encrypted_key (serialize_encrypted_key k @ [3]) = Some k"
  unfolding Let_def by (rule key_blob_roundtrip) simp_all

text \<open>
  What the code relies on of the secret box: a box is 16 bytes longer than its message and opens to
  that message under its own nonce.  \<open>nonce_bound\<close>: a box made with nonce \<open>n\<close> does not open under
  another nonce \<open>n'\<close> (authentication).
\<close>

definition box_laws ::
  "(bytes \<Rightarrow> bytes \<Rightarrow> bytes \<Rightarrow> bytes) \<Rightarrow> (bytes \<Rightarrow> bytes \<Rightarrow> bytes \<Rightarrow> bytes option) \<Rightarrow> bool"
where
  "box_laws seal unseal \<longleftrightarrow>
     (\<forall>k n m. length (seal k n m) = 16 + length m \<and> unseal k n (seal k n m) = Some m)"

definition nonce_bound ::
  "(bytes \<Rightarrow> bytes \<Rightarrow> bytes \<Rightarrow> bytes) \<Rightarrow> (bytes \<Rightarrow> bytes \<Rightarrow> bytes \<Rightarrow> bytes option) \<Rightarrow> bytes \<Rightarrow>
   bytes \<Rightarrow> bool"
where
  "nonce_bound seal unseal n n' \<longleftrightarrow> n' = n \<or> (\<forall>k m. unseal k n' (seal k n m) = None)"

definition entropy_ok :: "entropy \<Rightarrow> bool" where
  "entropy_ok rnd \<longleftrightarrow> length (rnd_dek rnd) = 32 \<and> length (rnd_dek_iv rnd) = 12 \<and>
     length (rnd_dek_tag rnd) = 16 \<and> length (rnd_dek_salt rnd) = 32 \<and> length (rnd_salt rnd) = 32 \<and>
     length (rnd_nonce rnd) = 24"

lemma open_into_seal:
  assumes "box_laws seal unseal" "nonce_bound seal unseal n' n"
  shows "open_into unseal k n (seal k n' m) (length m) = (if n = n' then Opened m else Rejected)"
  using assms by (auto simp: open_into_def box_laws_def nonce_bound_def)

lemma dek_roundtrip:
  assumes "box_laws seal unseal" "entropy_ok rnd" "length dek = 32"
    and "encrypt_dek kdf seal rnd mk dek = Some ek"
  shows "decrypt_dek kdf unseal mk ek = Opened dek"
proof -
  from assms(4) obtain kek where kek: "kdf mk (rnd_dek_salt rnd) = Some kek"
    and ek: "ek_iv ek = rnd_dek_iv rnd"
      "ek_ciphertext ek = rnd_dek_salt rnd @ seal kek (nonce_of_iv (rnd_dek_iv rnd)) dek"
    by (auto simp: encrypt_dek_def split: option.splits)
  have len: "length (seal kek (nonce_of_iv (rnd_dek_iv rnd)) dek) = 48"
    using assms(1,3) by (simp add: box_laws_def)
  show ?thesis
    using assms(2,3) kek len open_into_seal [OF assms(1), of _ _ _ dek]
    by (simp add: decrypt_dek_def ek entropy_ok_def sizes nonce_bound_def)
qed

lemma nonce_of_iv_eq:
  assumes "length n = 24"
  shows "nonce_of_iv (take 12 n) = n \<longleftrightarrow> drop 12 n = replicate 12 0"
proof -
  have "nonce_of_iv (take 12 n) = take 12 n @ replicate 12 0"
    using assms by (simp add: nonce_of_iv_def sizes)
  then show ?thesis by (metis append_eq_conv_conj append_take_drop_id)
qed

text \<open>
  C34: Decrypting what \<open>encrypt\<close> produced, with the data key it wrapped, gives back the file exactly
  when the last 12 bytes of the random 24-byte nonce happen to be zero, and an authentication error
  otherwise: the header keeps only the first 12 bytes of the nonce, and \<open>decrypt\<close> fills the rest
  with zeros.  (So a file encrypted at rest is lost, but never comes back wrong.)
\<close>

theorem file_decrypts_iff:
  assumes laws: "box_laws seal unseal" and rnd: "entropy_ok rnd"
    and bound: "nonce_bound seal unseal (rnd_nonce rnd) (nonce_of_iv (take 12 (rnd_nonce rnd)))"
    and small: "length plaintext < 2 ^ 64"
    and sealed: "encrypt kdf seal rnd mk plaintext ek0 = (Some data, ek)"
  shows "decrypt kdf unseal mk data ek =
    (if drop 12 (rnd_nonce rnd) = replicate 12 0 then Opened plaintext else Rejected)"
proof -
  from sealed obtain file_key where ready: "is_ready mk"
    and wrapped: "encrypt_dek kdf seal rnd mk (rnd_dek rnd) = Some ek"
    and key: "kdf (rnd_dek rnd) (rnd_salt rnd) = Some file_key"
    and data: "data = rnd_salt rnd @ take IV_SIZE (rnd_nonce rnd)
      @ take TAG_SIZE (seal file_key (rnd_nonce rnd) plaintext)
      @ le_bytes 8 (length plaintext)
      @ le_bytes 8 (length (seal file_key (rnd_nonce rnd) plaintext) - MACBYTES)
      @ drop MACBYTES (seal file_key (rnd_nonce rnd) plaintext)"
    by (auto simp: encrypt_def Let_def split: if_splits option.splits)
  have dek: "decrypt_dek kdf unseal mk ek = Opened (rnd_dek rnd)"
    using dek_roundtrip [OF laws rnd _ wrapped] rnd by (simp add: entropy_ok_def)
  have len: "length (seal file_key (rnd_nonce rnd) plaintext) = 16 + length plaintext"
    using laws by (simp add: box_laws_def)
  have "decrypt kdf unseal mk data ek = open_into unseal file_key
      (nonce_of_iv (take 12 (rnd_nonce rnd))) (seal file_key (rnd_nonce rnd) plaintext)
      (length plaintext)"
    using rnd small ready dek key len
    by (simp add: decrypt_def data entropy_ok_def sizes Let_def)
  then show ?thesis
    using open_into_seal [OF laws bound] nonce_of_iv_eq [of "rnd_nonce rnd"] rnd
    by (simp add: entropy_ok_def)
qed

text \<open>A box whose MAC is the end of the nonce obeys the laws.\<close>

definition toy_mac :: "bytes \<Rightarrow> bytes" where
  "toy_mac n = take 16 (drop 8 n @ replicate 16 0)"

definition toy_seal :: "bytes \<Rightarrow> bytes \<Rightarrow> bytes \<Rightarrow> bytes" where
  "toy_seal k n m = toy_mac n @ m"

definition toy_unseal :: "bytes \<Rightarrow> bytes \<Rightarrow> bytes \<Rightarrow> bytes option" where
  "toy_unseal k n c = (if take 16 c = toy_mac n then Some (drop 16 c) else None)"

definition toy_entropy :: entropy where
  "toy_entropy = \<lparr>rnd_dek = replicate 32 1, rnd_dek_iv = replicate 12 2, rnd_dek_tag = replicate 16 3,
     rnd_dek_salt = replicate 32 4, rnd_salt = replicate 32 5, rnd_nonce = replicate 24 6\<rparr>"

lemma length_toy_mac [simp]: "length (toy_mac n) = 16"
  by (simp add: toy_mac_def min_def)

lemma toy_nonces_differ:
  "toy_mac (nonce_of_iv (take 12 (rnd_nonce toy_entropy))) \<noteq> toy_mac (rnd_nonce toy_entropy)"
  by code_simp

theorem file_decrypts_iff_witness:
  "let out = encrypt (\<lambda>p s. Some p) toy_seal toy_entropy [1] [10, 11]
        \<lparr>ek_ciphertext = [], ek_iv = [], ek_tag = []\<rparr>
   in decrypt (\<lambda>p s. Some p) toy_unseal [1] (the (fst out)) (snd out) = Rejected"
proof -
  let ?out = "encrypt (\<lambda>p s. Some p) toy_seal toy_entropy [1] [10, 11]
    \<lparr>ek_ciphertext = [], ek_iv = [], ek_tag = []\<rparr>"
  have laws: "box_laws toy_seal toy_unseal"
    by (simp add: box_laws_def toy_seal_def toy_unseal_def)
  have bound: "nonce_bound toy_seal toy_unseal (rnd_nonce toy_entropy)
      (nonce_of_iv (take 12 (rnd_nonce toy_entropy)))"
    using toy_nonces_differ by (simp add: nonce_bound_def toy_seal_def toy_unseal_def)
  have rnd: "entropy_ok toy_entropy" by (simp add: entropy_ok_def toy_entropy_def)
  have "?out = (Some (the (fst ?out)), snd ?out)"
    by (simp add: encrypt_def encrypt_dek_def is_ready_def Let_def)
  from file_decrypts_iff [OF laws rnd bound _ this] show ?thesis
    by (simp add: toy_entropy_def)
qed

end
