(* ===== verification/File_Store.thy ===== *)
theory File_Store
  imports File_Encryptor "HOL-Library.Multiset"
begin

text \<open>
  The file store of \<open>src/db/file_store.cpp\<close>: the tables \<open>files\<close> (primary key \<open>file_id\<close>) and
  \<open>file_chunks\<close> (primary key \<open>file_id, chunk_index\<close>, deleted with their file).  A table is the list
  of its rows.  A NULL blob is the empty list: the code binds an empty vector as NULL and reads NULL
  as an empty vector.  An operation whose first argument is true is one whose statement throws.
  The encryptor is its master key, empty when there is none.
\<close>

section \<open>The tables\<close>

record file_metadata =
  fm_file_id :: string
  fm_filename :: string
  fm_file_size :: "64 word"
  fm_mime_type :: string
  fm_sender_id :: user_id
  fm_recipient_id :: user_id
  fm_channel_id :: string
  fm_uploaded_at :: time
  fm_expires_at :: time
  fm_checksum :: bytes
  fm_storage_path :: string
  fm_is_complete :: bool
  fm_is_encrypted :: bool
  fm_encrypted_key :: bytes

record chunk_row =
  ck_file :: string
  ck_index :: int
  ck_data :: bytes
  ck_size :: int

record file_db =
  fd_files :: "file_metadata list"
  fd_chunks :: "chunk_row list"
  fd_master_key :: bytes

definition empty_file_db :: file_db where
  "empty_file_db = \<lparr>fd_files = [], fd_chunks = [], fd_master_key = []\<rparr>"

definition kDefaultTtlSeconds :: time where
  "kDefaultTtlSeconds = 7 * 24 * 3600"

definition find_file :: "string \<Rightarrow> file_db \<Rightarrow> file_metadata option" where
  "find_file fid db = find (\<lambda>m. fm_file_id m = fid) (fd_files db)"

definition find_chunk :: "string \<Rightarrow> int \<Rightarrow> file_db \<Rightarrow> chunk_row option" where
  "find_chunk fid i db = find (\<lambda>c. ck_file c = fid \<and> ck_index c = i) (fd_chunks db)"

text \<open>\<open>DELETE FROM files WHERE p\<close>, with the chunks of every deleted file.\<close>

definition delete_files_where :: "(file_metadata \<Rightarrow> bool) \<Rightarrow> file_db \<Rightarrow> file_db" where
  "delete_files_where p db =
     (let gone = map fm_file_id (filter p (fd_files db))
      in db\<lparr>fd_files := filter (\<lambda>m. \<not> p m) (fd_files db),
            fd_chunks := filter (\<lambda>c. ck_file c \<notin> set gone) (fd_chunks db)\<rparr>)"

definition update_file :: "string \<Rightarrow> (file_metadata \<Rightarrow> file_metadata) \<Rightarrow> file_db \<Rightarrow> file_db" where
  "update_file fid f db =
     db\<lparr>fd_files := map (\<lambda>m. if fm_file_id m = fid then f m else m) (fd_files db)\<rparr>"

section \<open>File metadata\<close>

definition create_file :: "bool \<Rightarrow> time \<Rightarrow> file_metadata \<Rightarrow> file_db \<Rightarrow> bool \<times> file_db" where
  "create_file fails now m db =
     (if fails \<or> find_file (fm_file_id m) db \<noteq> None then (False, db)
      else (True, db\<lparr>fd_files := fd_files db @
              [m\<lparr>fm_uploaded_at := if fm_uploaded_at m > 0 then fm_uploaded_at m else now,
                 fm_expires_at := if fm_expires_at m > 0 then fm_expires_at m
                                  else now + kDefaultTtlSeconds,
                 fm_checksum := [], fm_is_encrypted := False, fm_encrypted_key := []\<rparr>]\<rparr>))"

definition get_file :: "bool \<Rightarrow> string \<Rightarrow> file_db \<Rightarrow> file_metadata option" where
  "get_file fails fid db =
     (if fails then None
      else map_option (\<lambda>m. m\<lparr>fm_is_encrypted := False, fm_encrypted_key := []\<rparr>) (find_file fid db))"

definition mark_complete :: "bool \<Rightarrow> string \<Rightarrow> bytes \<Rightarrow> file_db \<Rightarrow> bool \<times> file_db" where
  "mark_complete fails fid checksum db =
     (if fails then (False, db)
      else (True, update_file fid (\<lambda>m. m\<lparr>fm_is_complete := True, fm_checksum := checksum\<rparr>) db))"

definition delete_file :: "bool \<Rightarrow> string \<Rightarrow> file_db \<Rightarrow> bool \<times> file_db" where
  "delete_file fails fid db =
     (if fails then (False, db) else (True, delete_files_where (\<lambda>m. fm_file_id m = fid) db))"

text \<open>
  \<open>scan\<close> is the order in which SQLite finds the rows: ties of \<open>ORDER BY\<close> keep it.  A negative
  limit is no limit.  The listing leaves the checksum, the path and the encryption fields out.
\<close>

definition list_files ::
  "bool \<Rightarrow> time \<Rightarrow> (file_metadata list \<Rightarrow> file_metadata list) \<Rightarrow> user_id \<Rightarrow> string \<Rightarrow> int \<Rightarrow>
   file_db \<Rightarrow> file_metadata list"
where
  "list_files fails now scan recipient channel limit db =
     (if fails then []
      else
        let hits = filter (\<lambda>m. (recipient = [] \<or> fm_recipient_id m = recipient) \<and>
                               (channel = [] \<or> fm_channel_id m = channel) \<and> fm_expires_at m > now)
                     (scan (fd_files db));
            ordered = sort_key (\<lambda>m. - fm_uploaded_at m) hits
        in map (\<lambda>m. m\<lparr>fm_checksum := [], fm_storage_path := [], fm_is_encrypted := False,
                       fm_encrypted_key := []\<rparr>)
             (if limit < 0 then ordered else take (nat limit) ordered))"

section \<open>Chunks\<close>

text \<open>A 32-bit index is stored as the \<open>int\<close> with the same bits.  A NULL blob is not allowed.\<close>

definition store_chunk :: "bool \<Rightarrow> string \<Rightarrow> 32 word \<Rightarrow> bytes \<Rightarrow> file_db \<Rightarrow> bool \<times> file_db" where
  "store_chunk fails fid i data db =
     (if fails \<or> data = [] \<or> find_file fid db = None then (False, db)
      else (True, db\<lparr>fd_chunks :=
              filter (\<lambda>c. \<not> (ck_file c = fid \<and> ck_index c = sint i)) (fd_chunks db) @
              [\<lparr>ck_file = fid, ck_index = sint i, ck_data = data,
                ck_size = sint (of_nat (length data) :: 32 word)\<rparr>]\<rparr>))"

definition get_chunk :: "bool \<Rightarrow> string \<Rightarrow> 32 word \<Rightarrow> file_db \<Rightarrow> bytes option" where
  "get_chunk fails fid i db =
     (if fails then None else map_option ck_data (find_chunk fid (sint i) db))"

definition has_chunk :: "bool \<Rightarrow> string \<Rightarrow> 32 word \<Rightarrow> file_db \<Rightarrow> bool" where
  "has_chunk fails fid i db = (\<not> fails \<and> find_chunk fid (sint i) db \<noteq> None)"

text \<open>The loop over the rows sets bits, the loop over the indices collects the unset ones.\<close>

definition mark_present :: "32 word \<Rightarrow> bool list \<Rightarrow> chunk_row \<Rightarrow> bool list" where
  "mark_present total_chunks has c =
     (let idx = word_of_int (ck_index c) :: 32 word
      in if idx < total_chunks then has[unat idx := True] else has)"

definition get_missing_chunks :: "bool \<Rightarrow> string \<Rightarrow> 32 word \<Rightarrow> file_db \<Rightarrow> 32 word list" where
  "get_missing_chunks fails fid total_chunks db =
     (if fails then []
      else
        let has = foldl (mark_present total_chunks) (replicate (unat total_chunks) False)
                    (filter (\<lambda>c. ck_file c = fid) (fd_chunks db))
        in map of_nat (filter (\<lambda>i. \<not> has ! i) [0..<unat total_chunks]))"

definition get_received_bytes :: "bool \<Rightarrow> string \<Rightarrow> file_db \<Rightarrow> 64 word" where
  "get_received_bytes fails fid db =
     (if fails then 0
      else word_of_int (sum_list (map ck_size (filter (\<lambda>c. ck_file c = fid) (fd_chunks db)))))"

section \<open>Cleanup and statistics\<close>

definition cleanup_expired_files :: "bool \<Rightarrow> time \<Rightarrow> file_db \<Rightarrow> int \<times> file_db" where
  "cleanup_expired_files fails now db =
     (if fails then (0, db)
      else (int (length (filter (\<lambda>m. fm_expires_at m \<le> now) (fd_files db))),
            delete_files_where (\<lambda>m. fm_expires_at m \<le> now) db))"

record file_stats =
  st_total_files :: int
  st_total_bytes :: "64 word"
  st_expired_files :: int
  st_incomplete_files :: int

text \<open>
  \<open>failing\<close> is the number of the query that throws (0 for none): what the earlier ones read
  stays.
\<close>

definition get_file_stats :: "nat \<Rightarrow> time \<Rightarrow> file_db \<Rightarrow> file_stats" where
  "get_file_stats failing now db =
     (let s0 = \<lparr>st_total_files = 0, st_total_bytes = 0, st_expired_files = 0, st_incomplete_files = 0\<rparr>;
          s1 = s0\<lparr>st_total_files := int (length (fd_files db)),
                  st_total_bytes := sum_list (map fm_file_size (fd_files db))\<rparr>;
          s2 = s1\<lparr>st_expired_files := int (length (filter (\<lambda>m. fm_expires_at m \<le> now) (fd_files db)))\<rparr>;
          s3 = s2\<lparr>st_incomplete_files := int (length (filter (\<lambda>m. \<not> fm_is_complete m) (fd_files db)))\<rparr>
      in if failing = 1 then s0 else if failing = 2 then s1 else if failing = 3 then s2 else s3)"

section \<open>Encryption at rest\<close>

definition init_encryption :: "string \<Rightarrow> file_db \<Rightarrow> file_db" where
  "init_encryption master_key_hex db = db\<lparr>fd_master_key := new_file_encryptor master_key_hex\<rparr>"

definition encryption_enabled :: "file_db \<Rightarrow> bool" where
  "encryption_enabled db = is_ready (fd_master_key db)"

definition maybe_encrypt ::
  "(bytes \<Rightarrow> bytes \<Rightarrow> bytes option) \<Rightarrow> (bytes \<Rightarrow> bytes \<Rightarrow> bytes \<Rightarrow> bytes) \<Rightarrow> entropy \<Rightarrow> bytes \<Rightarrow>
   bytes \<Rightarrow> file_db \<Rightarrow> bytes option \<times> bytes"
where
  "maybe_encrypt kdf seal rnd data out_key db =
     (if \<not> encryption_enabled db then (Some data, out_key)
      else case encrypt kdf seal rnd (fd_master_key db) data
                  \<lparr>ek_ciphertext = [], ek_iv = [], ek_tag = []\<rparr> of
             (None, _) \<Rightarrow> (None, out_key)
           | (Some c, ek) \<Rightarrow> (Some c, serialize_encrypted_key ek))"

definition maybe_decrypt ::
  "(bytes \<Rightarrow> bytes \<Rightarrow> bytes option) \<Rightarrow> (bytes \<Rightarrow> bytes \<Rightarrow> bytes \<Rightarrow> bytes option) \<Rightarrow> bytes \<Rightarrow>
   bytes \<Rightarrow> file_db \<Rightarrow> bytes opened"
where
  "maybe_decrypt kdf unseal data key_blob db =
     (if \<not> encryption_enabled db \<or> key_blob = [] then Opened data
      else case deserialize_encrypted_key key_blob of
             None \<Rightarrow> Rejected
           | Some ek \<Rightarrow> decrypt kdf unseal (fd_master_key db) data ek)"

definition encrypt_and_store_chunk ::
  "(bytes \<Rightarrow> bytes \<Rightarrow> bytes option) \<Rightarrow> (bytes \<Rightarrow> bytes \<Rightarrow> bytes \<Rightarrow> bytes) \<Rightarrow> entropy \<Rightarrow> bool \<Rightarrow>
   bool \<Rightarrow> string \<Rightarrow> bytes \<Rightarrow> file_db \<Rightarrow> bool \<times> file_db"
where
  "encrypt_and_store_chunk kdf seal rnd store_fails update_fails fid plaintext db =
     (if \<not> encryption_enabled db then store_chunk store_fails fid 0 plaintext db
      else case maybe_encrypt kdf seal rnd plaintext [] db of
             (None, _) \<Rightarrow> (False, db)
           | (Some c, key_blob) \<Rightarrow>
               (case store_chunk store_fails fid 0 c db of
                  (False, db) \<Rightarrow> (False, db)
                | (True, db) \<Rightarrow>
                    if update_fails then (False, db)
                    else (True, update_file fid
                            (\<lambda>m. m\<lparr>fm_is_encrypted := True, fm_encrypted_key := key_blob\<rparr>) db)))"

definition decrypt_and_get_chunk ::
  "(bytes \<Rightarrow> bytes \<Rightarrow> bytes option) \<Rightarrow> (bytes \<Rightarrow> bytes \<Rightarrow> bytes \<Rightarrow> bytes option) \<Rightarrow> bool \<Rightarrow> bool \<Rightarrow>
   string \<Rightarrow> file_db \<Rightarrow> bytes opened"
where
  "decrypt_and_get_chunk kdf unseal get_fails key_fails fid db =
     (case get_chunk get_fails fid 0 db of
        None \<Rightarrow> Rejected
      | Some data \<Rightarrow>
          if key_fails then Rejected
          else case find_file fid db of
                 None \<Rightarrow> Rejected
               | Some m \<Rightarrow>
                   if \<not> fm_is_encrypted m then Opened data
                   else if fm_encrypted_key m = [] then Rejected
                   else maybe_decrypt kdf unseal data (fm_encrypted_key m) db)"

section \<open>The invariant\<close>

text \<open>
  Primary keys are unique, every chunk has its file, and the columns hold what \<open>store_chunk\<close> writes.
\<close>

definition chunk_ok :: "chunk_row \<Rightarrow> bool" where
  "chunk_ok c \<longleftrightarrow> ck_data c \<noteq> [] \<and> ck_index c = sint (word_of_int (ck_index c) :: 32 word) \<and>
     ck_size c = sint (of_nat (length (ck_data c)) :: 32 word)"

definition files_ok :: "file_db \<Rightarrow> bool" where
  "files_ok db \<longleftrightarrow>
     distinct (map fm_file_id (fd_files db)) \<and>
     distinct (map (\<lambda>c. (ck_file c, ck_index c)) (fd_chunks db)) \<and>
     ck_file ` set (fd_chunks db) \<subseteq> fm_file_id ` set (fd_files db) \<and>
     (\<forall>c \<in> set (fd_chunks db). chunk_ok c)"

lemma find_None_image: "find (\<lambda>x. f x = k) xs = None \<longleftrightarrow> k \<notin> f ` set xs"
  by (induction xs) auto

lemma find_file_None: "find_file fid db = None \<longleftrightarrow> fid \<notin> fm_file_id ` set (fd_files db)"
  by (simp add: find_file_def find_None_image)

lemma create_file_ok [inv_intros]: "files_ok db \<Longrightarrow> files_ok (snd (create_file f now m db))"
  by (auto simp: create_file_def files_ok_def find_file_None)

lemma map_keeps_ids: "(\<And>m. fm_file_id (f m) = fm_file_id m) \<Longrightarrow>
    map fm_file_id (fd_files (update_file fid f db)) = map fm_file_id (fd_files db)"
  by (simp add: update_file_def)

lemma update_file_ok [inv_intros]:
  assumes "\<And>m. fm_file_id (f m) = fm_file_id m" "files_ok db"
  shows "files_ok (update_file fid f db)"
proof -
  have "map fm_file_id (fd_files (update_file fid f db)) = map fm_file_id (fd_files db)"
    by (rule map_keeps_ids) (rule assms(1))
  moreover from this have "fm_file_id ` set (fd_files (update_file fid f db)) = fm_file_id ` set (fd_files db)"
    by (metis list.set_map)
  moreover have "fd_chunks (update_file fid f db) = fd_chunks db" by (simp add: update_file_def)
  ultimately show ?thesis using assms(2) by (simp add: files_ok_def)
qed

lemma mark_complete_ok [inv_intros]: "files_ok db \<Longrightarrow> files_ok (snd (mark_complete f fid cs db))"
  by (auto simp: mark_complete_def intro!: update_file_ok)

lemma delete_files_ok [inv_intros]: "files_ok db \<Longrightarrow> files_ok (delete_files_where p db)"
  by (auto simp: files_ok_def delete_files_where_def distinct_map inj_on_def) blast

lemma store_chunk_ok [inv_intros]: "files_ok db \<Longrightarrow> files_ok (snd (store_chunk f fid i d db))"
  by (auto simp: store_chunk_def files_ok_def chunk_ok_def find_file_None distinct_map inj_on_def)

lemma encrypt_and_store_ok [inv_intros]:
  "files_ok db \<Longrightarrow> files_ok (snd (encrypt_and_store_chunk kdf seal rnd f g fid p db))"
  using store_chunk_ok [of db f fid 0]
  by (auto simp: encrypt_and_store_chunk_def intro!: update_file_ok split: prod.splits option.splits bool.splits)
     (metis snd_conv)+

lemma init_encryption_ok [inv_intros]: "files_ok db \<Longrightarrow> files_ok (init_encryption h db)"
  by (simp add: files_ok_def init_encryption_def)

lemma empty_file_db_ok [inv_intros]: "files_ok empty_file_db"
  by (simp add: files_ok_def empty_file_db_def)

text \<open>The operations that write, as the steps of a machine.\<close>

datatype file_op =
    Create_File bool time file_metadata
  | Mark_Complete bool string bytes
  | Delete_File bool string
  | Store_Chunk bool string "32 word" bytes
  | Cleanup_Files bool time
  | Init_Encryption string

fun file_step :: "file_db \<Rightarrow> file_op \<Rightarrow> file_db" where
  "file_step db (Create_File f now m) = snd (create_file f now m db)"
| "file_step db (Mark_Complete f fid cs) = snd (mark_complete f fid cs db)"
| "file_step db (Delete_File f fid) = snd (delete_file f fid db)"
| "file_step db (Store_Chunk f fid i d) = snd (store_chunk f fid i d db)"
| "file_step db (Cleanup_Files f now) = snd (cleanup_expired_files f now db)"
| "file_step db (Init_Encryption h) = init_encryption h db"

lemma file_step_ok: "files_ok db \<Longrightarrow> files_ok (file_step db e)"
  by (cases e) (auto simp: delete_file_def cleanup_expired_files_def intro: inv_intros)

interpretation files: invariant_machine file_step files_ok
  by unfold_locales (rule file_step_ok)

section \<open>The chunk table as the transfer handlers see it\<close>

text \<open>
  The contract between the store and the handlers that move files: pieces are put under an index and
  read back by index.  \<open>accepts\<close> says when a piece can be put.
\<close>

locale piece_table =
  fixes put :: "'i \<Rightarrow> bytes \<Rightarrow> 'db \<Rightarrow> 'db"
    and get :: "'i \<Rightarrow> 'db \<Rightarrow> bytes option"
    and accepts :: "bytes \<Rightarrow> 'db \<Rightarrow> bool"
  assumes accepts_put: "accepts d db \<Longrightarrow> accepts d (put i e db)"
    and get_put: "accepts d db \<Longrightarrow> get j (put i d db) = (if i = j then Some d else get j db)"
begin

lemma get_after_puts:
  assumes "\<forall>(i, d) \<in> set ps. accepts d db" "distinct (map fst ps)"
  shows "get j (foldl (\<lambda>db (i, d). put i d db) db ps) =
    (case map_of ps j of Some d \<Rightarrow> Some d | None \<Rightarrow> get j db)"
  using assms
proof (induction ps arbitrary: db)
  case (Cons p ps)
  obtain i d where p: "p = (i, d)" by fastforce
  have "\<forall>(k, e) \<in> set ps. accepts e (put i d db)"
    using Cons.prems(1) by (auto simp: p intro: accepts_put)
  with Cons have rest: "get j (foldl (\<lambda>db (i, d). put i d db) (put i d db) ps) =
      (case map_of ps j of Some e \<Rightarrow> Some e | None \<Rightarrow> get j (put i d db))"
    by (simp add: p)
  have "map_of ps i = None" using Cons.prems(2) by (simp add: p map_of_eq_None_iff)
  with rest Cons.prems(1) show ?case
    by (cases "i = j") (auto simp: p get_put split: option.split)
qed simp

text \<open>Pieces put in any order are all there.\<close>

lemma get_any_order:
  assumes "mset ps = mset (zip idxs parts)" "distinct idxs" "length idxs = length parts"
    and "\<forall>d \<in> set parts. accepts d db"
  shows "map (\<lambda>i. get i (foldl (\<lambda>db (i, d). put i d db) db ps)) idxs = map Some parts"
proof -
  have "mset (map fst ps) = mset (map fst (zip idxs parts))" using assms(1) by (metis mset_map)
  then have dist: "distinct (map fst ps)" using assms(2,3) by (metis map_fst_zip mset_eq_imp_distinct_iff)
  have same: "set ps = set (zip idxs parts)" using assms(1) by (metis set_mset_mset)
  then have acc: "\<forall>(i, d) \<in> set ps. accepts d db" using assms(4) by (auto dest: set_zip_rightD)
  show ?thesis
  proof (rule nth_equalityI)
    fix n assume n: "n < length (map (\<lambda>i. get i (foldl (\<lambda>db (i, d). put i d db) db ps)) idxs)"
    then have "(idxs ! n, parts ! n) \<in> set ps" using assms(3) same by (auto simp: set_zip)
    then have "map_of ps (idxs ! n) = Some (parts ! n)" using dist by (simp add: map_of_is_SomeI)
    then show "map (\<lambda>i. get i (foldl (\<lambda>db (i, d). put i d db) db ps)) idxs ! n = map Some parts ! n"
      using n assms(3) get_after_puts [OF acc dist] by simp
  qed (use assms(3) in simp)
qed

end

lemma find_filter_imp: "(\<And>x. P x \<Longrightarrow> Q x) \<Longrightarrow> find P (filter Q xs) = find P xs"
  by (induction xs) auto

lemma find_append: "find P (xs @ ys) = (case find P xs of None \<Rightarrow> find P ys | Some x \<Rightarrow> Some x)"
  by (induction xs) auto

lemma find_filter_not: "find P (filter (\<lambda>x. \<not> P x) xs) = None"
  by (induction xs) auto

lemma find_file_frames [frame_simps]:
  "find_file f (snd (store_chunk b fid i d db)) = find_file f db"
  by (simp add: store_chunk_def find_file_def)

definition put_chunk :: "string \<Rightarrow> 32 word \<Rightarrow> bytes \<Rightarrow> file_db \<Rightarrow> file_db" where
  "put_chunk fid i d db = snd (store_chunk False fid i d db)"

definition takes_chunk :: "string \<Rightarrow> bytes \<Rightarrow> file_db \<Rightarrow> bool" where
  "takes_chunk fid d db \<longleftrightarrow> d \<noteq> [] \<and> find_file fid db \<noteq> None"

lemma find_chunk_store:
  assumes "d \<noteq> []" "find_file fid db \<noteq> None"
  shows "find_chunk f j (snd (store_chunk False fid i d db)) =
    (if f = fid \<and> j = sint i
     then Some \<lparr>ck_file = fid, ck_index = sint i, ck_data = d,
            ck_size = sint (of_nat (length d) :: 32 word)\<rparr>
     else find_chunk f j db)"
proof (cases "f = fid \<and> j = sint i")
  case True
  have "find (\<lambda>c. ck_file c = fid \<and> ck_index c = sint i)
      (filter (\<lambda>c. ck_file c = fid \<longrightarrow> ck_index c \<noteq> sint i) (fd_chunks db)) = None"
    using find_filter_not [of "\<lambda>c. ck_file c = fid \<and> ck_index c = sint i"] by simp
  with True assms show ?thesis
    by (auto simp: store_chunk_def find_chunk_def find_append)
next
  case False
  have "find (\<lambda>c. ck_file c = f \<and> ck_index c = j)
      (filter (\<lambda>c. ck_file c = fid \<longrightarrow> ck_index c \<noteq> sint i) (fd_chunks db)) =
    find (\<lambda>c. ck_file c = f \<and> ck_index c = j) (fd_chunks db)"
    by (rule find_filter_imp) (use False in auto)
  with False assms show ?thesis
    by (auto simp: store_chunk_def find_chunk_def find_append split: option.splits)
qed

interpretation chunks: piece_table "put_chunk fid" "get_chunk False fid" "takes_chunk fid" for fid
proof
  fix d e :: bytes and i j :: "32 word" and db :: file_db
  show "takes_chunk fid d db \<Longrightarrow> takes_chunk fid d (put_chunk fid i e db)"
    by (simp add: takes_chunk_def put_chunk_def frame_simps)
  show "takes_chunk fid d db \<Longrightarrow>
      get_chunk False fid j (put_chunk fid i d db) = (if i = j then Some d else get_chunk False fid j db)"
    by (simp add: takes_chunk_def put_chunk_def get_chunk_def find_chunk_store)
      (metis signed_word_eqI)
qed

section \<open>Correctness\<close>

definition demo_file :: file_metadata where
  "demo_file = \<lparr>fm_file_id = ''f'', fm_filename = ''x.bin'', fm_file_size = 5, fm_mime_type = [],
     fm_sender_id = ''al'', fm_recipient_id = [], fm_channel_id = ''#c'', fm_uploaded_at = 1,
     fm_expires_at = 9, fm_checksum = [], fm_storage_path = [], fm_is_complete = False,
     fm_is_encrypted = False, fm_encrypted_key = []\<rparr>"



lemma length_mark_present [simp]: "length (mark_present t has c) = length has"
  by (simp add: mark_present_def Let_def)

lemma marks:
  assumes "i < length has" "length has = unat t"
  shows "foldl (mark_present t) has cs ! i \<longleftrightarrow>
    has ! i \<or> (\<exists>c \<in> set cs. unat (word_of_int (ck_index c) :: 32 word) = i)"
  using assms
proof (induction cs arbitrary: has)
  case (Cons c cs)
  have "mark_present t has c ! i \<longleftrightarrow> has ! i \<or> unat (word_of_int (ck_index c) :: 32 word) = i"
    using Cons.prems by (auto simp: mark_present_def Let_def nth_list_update word_less_nat_alt)
  with Cons show ?case by auto
qed simp

lemma has_chunk_index:
  assumes "files_ok db"
  shows "has_chunk False fid w db \<longleftrightarrow>
    (\<exists>c \<in> set (fd_chunks db). ck_file c = fid \<and> (word_of_int (ck_index c) :: 32 word) = w)"
proof -
  have "\<forall>c \<in> set (fd_chunks db). ck_index c = sint w \<longleftrightarrow> (word_of_int (ck_index c) :: 32 word) = w"
    using assms by (auto simp: files_ok_def chunk_ok_def)
  then show ?thesis by (auto simp: has_chunk_def find_chunk_def find_None_iff)
qed

lemma missing_chunks:
  assumes "files_ok db"
  shows "get_missing_chunks False fid t db =
    map of_nat (filter (\<lambda>i. \<not> has_chunk False fid (of_nat i) db) [0..<unat t])"
proof -
  have lim: "unat t < 2 ^ 32" using unsigned_less [where ?w = t and ?'a = nat] by simp
  have "foldl (mark_present t) (replicate (unat t) False)
      (filter (\<lambda>c. ck_file c = fid) (fd_chunks db)) ! i \<longleftrightarrow> has_chunk False fid (of_nat i) db"
    if i: "i < unat t" for i
  proof -
    have "unat w = i \<longleftrightarrow> w = of_nat i" for w :: "32 word"
      using i lim by (auto simp: unat_of_nat)
    with i show ?thesis by (auto simp: marks has_chunk_index [OF assms])
  qed
  then have "filter (\<lambda>i. \<not> foldl (mark_present t) (replicate (unat t) False)
      (filter (\<lambda>c. ck_file c = fid) (fd_chunks db)) ! i) [0..<unat t] =
    filter (\<lambda>i. \<not> has_chunk False fid (of_nat i) db) [0..<unat t]"
    by (auto intro: filter_cong)
  then show ?thesis by (simp add: get_missing_chunks_def Let_def)
qed

text \<open>
  \<open>getMissingChunks\<close> returns, in ascending order, exactly the indices below the total for which
  \<open>hasChunk\<close> says no.
\<close>

theorem missing_chunks_exact:
  assumes "files_ok db"
  shows "get_missing_chunks False fid t db =
    map of_nat (filter (\<lambda>i. \<not> has_chunk False fid (of_nat i) db) [0..<unat t])"
  using assms by (rule missing_chunks)

theorem missing_chunks_exact_witness:
  "get_missing_chunks False ''f'' 2
     (snd (store_chunk False ''f'' 1 [8] (snd (create_file False 0 demo_file empty_file_db)))) = [0]"
proof -
  let ?db = "snd (store_chunk False ''f'' 1 [8] (snd (create_file False 0 demo_file empty_file_db)))"
  have "files_ok ?db" by (intro inv_intros)
  from missing_chunks_exact [OF this, of "''f''" 2] show ?thesis
    by (simp add: has_chunk_def find_chunk_def store_chunk_def create_file_def find_file_def
        empty_file_db_def demo_file_def upt_rec)
qed

lemma distinct_indices: "n < 2 ^ 32 \<Longrightarrow> distinct (map of_nat [0..<n] :: 32 word list)"
  by (auto simp: distinct_map inj_on_def unat_of_nat_32 dest!: arg_cong [where f = unat])

text \<open>
  A file's chunks, stored in any order, read back as the file: reading the indices 0 to n-1 and
  concatenating gives the concatenation of the pieces, and no index is reported missing.
\<close>

theorem file_reassembled:
  assumes ok: "files_ok db" and there: "find_file fid db \<noteq> None" and full: "[] \<notin> set parts"
    and short: "length parts < 2 ^ 32"
    and sent: "mset ps = mset (zip (map of_nat [0..<length parts]) parts)"
  shows "let db' = foldl (\<lambda>db (i, d). snd (store_chunk False fid i d db)) db ps
    in concat (map (\<lambda>i. the (get_chunk False fid (of_nat i) db')) [0..<length parts]) = concat parts
       \<and> get_missing_chunks False fid (of_nat (length parts)) db' = []"
proof -
  define db' where "db' = foldl (\<lambda>db (i, d). put_chunk fid i d db) db ps"
  have "map (\<lambda>i. get_chunk False fid i db') (map of_nat [0..<length parts]) = map Some parts"
    unfolding db'_def
    by (rule chunks.get_any_order [OF sent distinct_indices [OF short]]) (use there full in \<open>auto simp: takes_chunk_def\<close>)
  then have all: "map (\<lambda>i. get_chunk False fid (of_nat i) db') [0..<length parts] = map Some parts"
    by (simp add: comp_def)
  then have "map (\<lambda>i. the (get_chunk False fid (of_nat i) db')) [0..<length parts] = parts"
    by (metis (no_types, lifting) map_map comp_apply list.map_cong0 list.map_id option.sel)
  moreover have "get_missing_chunks False fid (of_nat (length parts)) db' = []"
  proof -
    have ok': "files_ok db'" unfolding db'_def
      by (induction ps rule: rev_induct) (auto simp: ok put_chunk_def intro: inv_intros)
    have "has_chunk False fid (of_nat i) db'" if "i < length parts" for i
    proof -
      have "get_chunk False fid (of_nat i) db' = Some (parts ! i)"
        using arg_cong [OF all, of "\<lambda>xs. xs ! i"] that by simp
      then show ?thesis by (auto simp: get_chunk_def has_chunk_def)
    qed
    moreover have "unat (of_nat (length parts) :: 32 word) = length parts"
      using short by (simp add: unat_of_nat_32)
    ultimately show ?thesis by (simp add: missing_chunks [OF ok'])
  qed
  ultimately show ?thesis by (simp add: db'_def put_chunk_def Let_def)
qed

theorem file_reassembled_witness:
  "let db = snd (create_file False 0 demo_file empty_file_db);
       db' = foldl (\<lambda>db (i, d). snd (store_chunk False ''f'' i d db)) db [(1, [3]), (0, [1, 2])]
   in get_missing_chunks False ''f'' 2 db' = []"
proof -
  let ?db = "snd (create_file False 0 demo_file empty_file_db)"
  have ok: "files_ok ?db" by (intro inv_intros)
  have there: "find_file ''f'' ?db \<noteq> None"
    by (simp add: create_file_def find_file_def empty_file_db_def demo_file_def)
  have "mset [(1 :: 32 word, [3 :: byte]), (0, [1, 2])]
      = mset (zip (map of_nat [0..<length [[1 :: byte, 2], [3]]]) [[1, 2], [3]])"
    by (simp add: upt_rec)
  from file_reassembled [OF ok there _ _ this] show ?thesis by (simp add: Let_def)
qed

text \<open>
  Deleting by a condition on the metadata: the files that satisfy it are gone with their chunks, the
  others and their chunks are as before.
\<close>

lemma find_filter_other: "(\<And>x. P x \<Longrightarrow> x \<in> set xs \<Longrightarrow> Q x) \<Longrightarrow> find P (filter Q xs) = find P xs"
  by (induction xs) auto

lemma find_file_in: "find_file fid db = Some m \<Longrightarrow> m \<in> set (fd_files db) \<and> fm_file_id m = fid"
  by (auto simp: find_file_def find_Some_iff)

lemma find_file_deleted:
  assumes "files_ok db"
  shows "find_file fid (delete_files_where p db) =
    (case find_file fid db of None \<Rightarrow> None | Some m \<Rightarrow> if p m then None else Some m)"
proof (cases "find_file fid db")
  case None
  then have "find_file fid (delete_files_where p db) = None"
    by (auto simp: find_file_None delete_files_where_def)
  with None show ?thesis by simp
next
  case (Some m)
  then have m: "m \<in> set (fd_files db)" "fm_file_id m = fid" by (auto dest: find_file_in)
  have uniq: "\<And>x. x \<in> set (fd_files db) \<Longrightarrow> fm_file_id x = fid \<Longrightarrow> x = m"
    using assms m by (auto simp: files_ok_def distinct_map dest: inj_onD)
  show ?thesis
  proof (cases "p m")
    case True
    with uniq have "find_file fid (delete_files_where p db) = None"
      by (auto simp: find_file_None delete_files_where_def)
    with True Some show ?thesis by simp
  next
    case False
    have "find (\<lambda>x. fm_file_id x = fid) (filter (\<lambda>x. \<not> p x) (fd_files db)) =
        find (\<lambda>x. fm_file_id x = fid) (fd_files db)"
      by (rule find_filter_other) (use uniq False in blast)
    with False Some show ?thesis by (simp add: find_file_def delete_files_where_def)
  qed
qed

lemma find_chunk_deleted:
  assumes "files_ok db"
  shows "find_chunk fid i (delete_files_where p db) =
    (case find_file fid db of None \<Rightarrow> None | Some m \<Rightarrow> if p m then None else find_chunk fid i db)"
proof (cases "find_file fid db")
  case None
  then have "fid \<notin> ck_file ` set (fd_chunks db)"
    using assms by (auto simp: find_file_None files_ok_def)
  then have "find_chunk fid i (delete_files_where p db) = None"
    by (auto simp: find_chunk_def delete_files_where_def find_None_iff)
  with None show ?thesis by simp
next
  case (Some m)
  then have m: "m \<in> set (fd_files db)" "fm_file_id m = fid" by (auto dest: find_file_in)
  have uniq: "\<And>x. x \<in> set (fd_files db) \<Longrightarrow> fm_file_id x = fid \<Longrightarrow> x = m"
    using assms m by (auto simp: files_ok_def distinct_map dest: inj_onD)
  define gone where "gone = set (map fm_file_id (filter p (fd_files db)))"
  have chunks: "fd_chunks (delete_files_where p db) = filter (\<lambda>c. ck_file c \<notin> gone) (fd_chunks db)"
    by (simp add: delete_files_where_def gone_def)
  have "(\<exists>x \<in> set (fd_files db). p x \<and> fm_file_id x = fid) \<longleftrightarrow> p m" using m uniq by metis
  then have fid: "fid \<in> gone \<longleftrightarrow> p m" by (auto simp: gone_def)
  show ?thesis
  proof (cases "p m")
    case True
    with fid have "find_chunk fid i (delete_files_where p db) = None"
      by (auto simp: find_chunk_def chunks find_None_iff)
    with True Some show ?thesis by simp
  next
    case False
    have "find (\<lambda>c. ck_file c = fid \<and> ck_index c = i) (filter (\<lambda>c. ck_file c \<notin> gone) (fd_chunks db)) =
        find (\<lambda>c. ck_file c = fid \<and> ck_index c = i) (fd_chunks db)"
      by (rule find_filter_imp) (use fid False in blast)
    with False Some show ?thesis by (simp add: find_chunk_def chunks)
  qed
qed

text \<open>
  The expiry sweep removes exactly the files whose time has come, with all their chunks, and
  leaves every other file and chunk readable as before.
\<close>

theorem sweep_exact:
  assumes "files_ok db"
  shows "let db' = snd (cleanup_expired_files False now db);
      gone = (case find_file fid db of None \<Rightarrow> True | Some m \<Rightarrow> fm_expires_at m \<le> now)
    in get_file False fid db' = (if gone then None else get_file False fid db) \<and>
       get_chunk False fid i db' = (if gone then None else get_chunk False fid i db)"
  by (simp add: cleanup_expired_files_def get_file_def get_chunk_def find_file_deleted [OF assms]
      find_chunk_deleted [OF assms] split: option.split)

theorem sweep_exact_witness:
  "let db = snd (store_chunk False ''f'' 0 [7] (snd (create_file False 0 demo_file empty_file_db)))
   in get_chunk False ''f'' 0 (snd (cleanup_expired_files False 9 db)) = None \<and>
      get_chunk False ''f'' 0 (snd (cleanup_expired_files False 8 db)) = Some [7]"
proof -
  let ?db = "snd (store_chunk False ''f'' 0 [7] (snd (create_file False 0 demo_file empty_file_db)))"
  have "files_ok ?db" by (intro inv_intros)
  note sweep = sweep_exact [OF this, of _ "''f''" 0, unfolded Let_def]
  have "find_file ''f'' ?db = Some (the (find_file ''f'' ?db))"
    "fm_expires_at (the (find_file ''f'' ?db)) = 9" "get_chunk False ''f'' 0 ?db = Some [7]"
    by (simp_all add: find_file_def store_chunk_def create_file_def empty_file_db_def demo_file_def
        get_chunk_def find_chunk_def)
  then show ?thesis using sweep [of 9] sweep [of 8] by (auto simp: Let_def split: option.splits)
qed

lemma word_of_int_sum_list: "word_of_int (sum_list (map (\<lambda>x. int (f x)) xs)) = of_nat (sum_list (map f xs))"
  by (induction xs) simp_all

text \<open>
  \<open>getReceivedBytes\<close> counts every stored byte of the file once: it is the sum of the lengths of
  its chunks modulo 2 to the 64 (chunks below 2 gigabytes), so storing a chunk again under its index
  does not count it twice.
\<close>

theorem received_bytes_counts:
  assumes "files_ok db" and "\<forall>c \<in> set (fd_chunks db). length (ck_data c) < 2 ^ 31"
  shows "get_received_bytes False fid db =
    of_nat (sum_list (map (length \<circ> ck_data) (filter (\<lambda>c. ck_file c = fid) (fd_chunks db)))) \<and>
    distinct (map ck_index (filter (\<lambda>c. ck_file c = fid) (fd_chunks db)))"
proof -
  have "distinct (map ck_index (filter (\<lambda>c. ck_file c = fid) (fd_chunks db)))"
    using assms(1) by (auto simp: files_ok_def distinct_map inj_on_def)
  moreover
  have "ck_size c = int (length (ck_data c))" if "c \<in> set (fd_chunks db)" for c
  proof -
    have "ck_size c = sint (of_nat (length (ck_data c)) :: 32 word)"
      using assms(1) that by (auto simp: files_ok_def chunk_ok_def)
    also have "\<dots> = int (length (ck_data c))"
      using assms(2) that by (simp add: signed_of_nat signed_take_bit_int_eq_self)
    finally show ?thesis .
  qed
  then have "map ck_size (filter (\<lambda>c. ck_file c = fid) (fd_chunks db)) =
      map (\<lambda>c. int (length (ck_data c))) (filter (\<lambda>c. ck_file c = fid) (fd_chunks db))"
    by simp
  then have "get_received_bytes False fid db =
      of_nat (sum_list (map (length \<circ> ck_data) (filter (\<lambda>c. ck_file c = fid) (fd_chunks db))))"
    by (simp only: get_received_bytes_def comp_def word_of_int_sum_list if_False)
  ultimately show ?thesis by simp
qed

theorem received_bytes_counts_witness:
  "let db = snd (create_file False 0 demo_file empty_file_db);
       db' = snd (store_chunk False ''f'' 0 [9] (snd (store_chunk False ''f'' 0 [7, 8] db)))
   in get_received_bytes False ''f'' db' = 1"
proof -
  let ?db = "snd (store_chunk False ''f'' 0 [9] (snd (store_chunk False ''f'' 0 [7, 8]
    (snd (create_file False 0 demo_file empty_file_db)))))"
  have ok: "files_ok ?db" by (intro inv_intros)
  have rows: "fd_chunks ?db = [\<lparr>ck_file = ''f'', ck_index = 0, ck_data = [9], ck_size = 1\<rparr>]"
    by (simp add: store_chunk_def find_file_def create_file_def empty_file_db_def demo_file_def)
  then have "\<forall>c \<in> set (fd_chunks ?db). length (ck_data c) < 2 ^ 31" by simp
  from received_bytes_counts [OF ok this, of "''f''"] show ?thesis
    unfolding Let_def rows by simp
qed

end
