(* ===== verification/Reserved_Identity.thy ===== *)
theory Reserved_Identity
  imports Prelude "HOL-Library.Sublist"
begin

text \<open>
  The reserved nicknames of \<open>src/admin/reserved_identity.cpp\<close>.  The code's fixed regular
  expressions are literals and \<open>.*\<close>; they are lists of items here, matched against the whole
  string as \<open>std::regex_match\<close> does.  The patterns of the configuration file are arbitrary
  expressions: compiling one is the parameter \<open>re\<close> (\<open>None\<close> is \<open>std::regex_error\<close>).
\<close>

section \<open>Patterns\<close>

datatype re_item = Lit char | AnyStar

text \<open>A dot matches any character but a line terminator; letters match in either case.\<close>

fun regex_match :: "re_item list \<Rightarrow> string \<Rightarrow> bool" where
  "regex_match [] s \<longleftrightarrow> s = []"
| "regex_match (Lit c # p) [] \<longleftrightarrow> False"
| "regex_match (Lit c # p) (x # xs) \<longleftrightarrow> to_lower c = to_lower x \<and> regex_match p xs"
| "regex_match (AnyStar # p) [] \<longleftrightarrow> regex_match p []"
| "regex_match (AnyStar # p) (x # xs) \<longleftrightarrow>
     regex_match p (x # xs) \<or> (x \<noteq> CHR 0x0A \<and> x \<noteq> CHR 0x0D \<and> regex_match (AnyStar # p) xs)"

definition lits :: "string \<Rightarrow> re_item list" where
  "lits w = map Lit w"

section \<open>The tables\<close>

definition exact_reserved :: "string set" where
  "exact_reserved =
     {''admin'', ''administrator'', ''root'', ''sysop'', ''operator'', ''ircord'', ''server'',
      ''system'', ''owner'', ''founder'', ''boss'', ''god'', ''master'', ''sysadmin'',
      ''webmaster'', ''postmaster'', ''hostmaster'', ''abuse'', ''security'', ''support'',
      ''help'', ''info'', ''service'', ''bot'', '' IRCord'', ''mod'', ''moderator'',
      ''superuser'', ''su''}"

definition pattern_reserved :: "re_item list list" where
  "pattern_reserved =
     [lits ''adm'' @ [AnyStar],
      AnyStar # lits ''admin'' @ [AnyStar],
      AnyStar # lits ''adm1n'' @ [AnyStar],
      AnyStar # lits ''4dmin'' @ [AnyStar],
      lits ''root'' @ [AnyStar],
      lits ''sys'' @ [AnyStar],
      lits ''oper'' @ [AnyStar],
      lits ''ircord'' @ [AnyStar],
      lits ''server'' @ [AnyStar],
      lits ''sys'' @ AnyStar # lits ''admin'' @ [AnyStar],
      lits ''web'' @ AnyStar # lits ''master'' @ [AnyStar],
      lits ''host'' @ AnyStar # lits ''master'' @ [AnyStar]]"

definition OWNER_ID :: user_id where
  "OWNER_ID = ''admin''"

section \<open>Normalisation and the check\<close>

fun normalize :: "string \<Rightarrow> string" where
  "normalize [] = []"
| "normalize (c # cs) =
     (if is_upper c then char_of (of_char c + 32 :: nat) # normalize cs
      else if is_lower c then c # normalize cs
      else if is_digit c then c # normalize cs
      else normalize cs)"

text \<open>
  The switch of \<open>normalize_leet\<close>.  Its label \<open>'\<euro>'\<close> is a multi-character literal whose value no
  \<open>char\<close> takes, so it has no case here.
\<close>

definition leet_char :: "char \<Rightarrow> char" where
  "leet_char c =
     (if c = CHR ''4'' \<or> c = CHR ''@'' then CHR ''a''
      else if c = CHR ''1'' \<or> c = CHR ''!'' \<or> c = CHR ''|'' then CHR ''i''
      else if c = CHR ''3'' then CHR ''e''
      else if c = CHR ''0'' then CHR ''o''
      else if c = CHR ''5'' \<or> c = CHR ''$'' then CHR ''s''
      else if c = CHR ''7'' then CHR ''t''
      else if c = CHR ''8'' then CHR ''b''
      else if c = CHR ''9'' \<or> c = CHR ''g'' then CHR ''g''
      else if c = CHR ''2'' then CHR ''z''
      else if c = CHR ''+'' then CHR ''t''
      else if c = CHR ''('' then CHR ''c''
      else if c = CHR '')'' then CHR ''d''
      else c)"

definition normalize_leet :: "string \<Rightarrow> string" where
  "normalize_leet input = map leet_char input"

definition matches_pattern :: "string \<Rightarrow> bool" where
  "matches_pattern s \<longleftrightarrow> list_ex (\<lambda>p. regex_match p s) pattern_reserved"

definition is_reserved :: "(string \<Rightarrow> (string \<Rightarrow> bool) option) \<Rightarrow> string \<Rightarrow> string list \<Rightarrow> bool" where
  "is_reserved re nickname additional_patterns =
     (if nickname = [] then False
      else
        let normalized = normalize nickname;
            leet_normalized = normalize_leet normalized;
            without_prefix = tl normalized
        in if normalized \<in> exact_reserved then True
           else if matches_pattern normalized then True
           else if list_ex (\<lambda>p. case re p of None \<Rightarrow> False | Some m \<Rightarrow> m normalized)
                     additional_patterns then True
           else if leet_normalized \<noteq> normalized \<and>
                   (leet_normalized \<in> exact_reserved \<or> matches_pattern leet_normalized) then True
           else if length normalized > 1 \<and> is_digit (hd normalized) \<and>
                   (without_prefix \<in> exact_reserved \<or>
                    regex_match (hd pattern_reserved) without_prefix) then True
           else False)"

definition is_owner :: "string \<Rightarrow> bool" where
  "is_owner user_id \<longleftrightarrow> user_id = OWNER_ID"

definition homoglyph_byte :: "byte \<Rightarrow> bool" where
  "homoglyph_byte uc \<longleftrightarrow>
     (if uc > 127 then True
      else and uc 0xE0 = 0xC0 \<or> and uc 0xF0 = 0xE0 \<or> and uc 0xF8 = 0xF0)"

definition contains_unicode_homoglyphs :: "string \<Rightarrow> bool" where
  "contains_unicode_homoglyphs nickname \<longleftrightarrow> list_ex (\<lambda>c. homoglyph_byte (of_char c)) nickname"

section \<open>What the patterns say\<close>

text \<open>Normalised names hold lower-case letters and digits only, where the matcher is plain equality.\<close>

definition plain :: "string \<Rightarrow> bool" where
  "plain s \<longleftrightarrow> (\<forall>c \<in> set s. is_lower c \<or> is_digit c)"

lemma plain_simps [simp]:
  "plain []" "plain (c # s) \<longleftrightarrow> (is_lower c \<or> is_digit c) \<and> plain s"
  "plain (s @ t) \<longleftrightarrow> plain s \<and> plain t"
  by (auto simp: plain_def)

lemma lower_digit_to_lower [simp]:
  "is_lower c \<Longrightarrow> to_lower c = c" "is_digit c \<Longrightarrow> to_lower c = c"
  by (auto simp: to_lower_id is_upper_code is_lower_code is_digit_code)

lemma newline_not_plain [simp]:
  "\<not> is_lower (CHR 0x0A)" "\<not> is_lower (CHR 0x0D)" "\<not> is_digit (CHR 0x0A)" "\<not> is_digit (CHR 0x0D)"
  by (simp_all add: is_lower_def is_digit_def)

lemma plain_normalize [simp]: "plain (normalize s)"
proof (induction s)
  case Nil
  show ?case by simp
next
  case (Cons c s)
  have "is_upper c \<Longrightarrow> is_lower (char_of (of_char c + 32 :: nat))"
    by (simp add: is_upper_code is_lower_code take_bit_eq_mod of_char_of)
  with Cons show ?case by simp
qed

declare normalize.simps [simp del]

lemma regex_any_plain: "plain s \<Longrightarrow> regex_match [AnyStar] s"
  by (induction s) auto

lemma regex_lits:
  "plain w \<Longrightarrow> plain s \<Longrightarrow>
   regex_match (lits w @ p) s \<longleftrightarrow> (\<exists>t. s = w @ t \<and> regex_match p t)"
proof (induction w arbitrary: s)
  case Nil
  then show ?case by (simp add: lits_def)
next
  case (Cons c w)
  then show ?case by (cases s) (auto simp: lits_def)
qed

lemma regex_any:
  "plain s \<Longrightarrow> regex_match (AnyStar # p) s \<longleftrightarrow> (\<exists>u t. s = u @ t \<and> regex_match p t)"
proof (induction s)
  case Nil
  then show ?case by simp
next
  case (Cons c s)
  then have "c \<noteq> CHR 0x0A \<and> c \<noteq> CHR 0x0D" by auto
  with Cons have "regex_match (AnyStar # p) (c # s) \<longleftrightarrow>
      regex_match p (c # s) \<or> (\<exists>u t. s = u @ t \<and> regex_match p t)" by simp
  also have "\<dots> \<longleftrightarrow> (\<exists>u t. c # s = u @ t \<and> regex_match p t)"
    by (metis append_Cons append_Nil list.sel(3) neq_Nil_conv)
  finally show ?case .
qed

lemma leet_char_cases: "leet_char c = c \<or> leet_char c \<in> set ''aieostbgzcd''"
  by (simp add: leet_char_def)

lemma leet_lower: "\<forall>c \<in> set ''aieostbgzcd''. is_lower c"
  by (simp add: is_lower_def)

lemma leet_char_plain:
  assumes "is_lower c \<or> is_digit c"
  shows "is_lower (leet_char c) \<or> is_digit (leet_char c)"
proof (cases "leet_char c = c")
  case True
  with assms show ?thesis by simp
next
  case False
  with leet_char_cases have "leet_char c \<in> set ''aieostbgzcd''" by blast
  then show ?thesis by (rule disjI1 [OF bspec [OF leet_lower]])
qed

lemma plain_leet [simp]: "plain s \<Longrightarrow> plain (normalize_leet s)"
  by (simp add: plain_def normalize_leet_def leet_char_plain)

text \<open>The words and shapes that are reserved once a name is normalised.\<close>

definition reserved_word :: "string \<Rightarrow> bool" where
  "reserved_word s \<longleftrightarrow>
     s \<in> exact_reserved \<or>
     (\<exists>w \<in> {''adm'', ''root'', ''sys'', ''oper'', ''ircord'', ''server''}. prefix w s) \<or>
     (\<exists>w \<in> {''admin'', ''adm1n'', ''4dmin''}. sublist w s) \<or>
     (\<exists>t. (s = ''web'' @ t \<or> s = ''host'' @ t) \<and> sublist ''master'' t)"

lemma regex_starts:
  assumes "plain w" "plain s"
  shows "regex_match (lits w @ [AnyStar]) s \<longleftrightarrow> prefix w s"
  using assms by (auto simp: regex_lits prefix_def regex_any_plain)

lemma regex_contains:
  assumes "plain w" "plain s"
  shows "regex_match (AnyStar # lits w @ [AnyStar]) s \<longleftrightarrow> sublist w s"
proof -
  have "regex_match (AnyStar # lits w @ [AnyStar]) s \<longleftrightarrow> (\<exists>u t. s = u @ t \<and> prefix w t)"
    using assms by (fastforce simp: regex_any regex_starts)
  also have "\<dots> \<longleftrightarrow> sublist w s"
    by (auto simp: sublist_def prefix_def)
  finally show ?thesis .
qed

lemma regex_starts_contains:
  assumes "plain v" "plain w" "plain s"
  shows "regex_match (lits v @ AnyStar # lits w @ [AnyStar]) s \<longleftrightarrow> (\<exists>t. s = v @ t \<and> sublist w t)"
  using assms by (auto simp: regex_lits regex_contains)

lemma matches_pattern_iff:
  assumes s: "plain s"
  shows "s \<in> exact_reserved \<or> matches_pattern s \<longleftrightarrow> reserved_word s"
proof -
  have w [simp]: "\<And>w. w \<in> {''adm'', ''admin'', ''adm1n'', ''4dmin'', ''root'', ''sys'', ''oper'', ''ircord'',
    ''server'', ''web'', ''host'', ''master''} \<Longrightarrow> plain w"
    by (auto simp: is_lower_def is_digit_def)
  note starts = regex_starts [OF w s] and contains = regex_contains [OF w s]
    and both = regex_starts_contains [OF w w s]
  have pats: "matches_pattern s \<longleftrightarrow>
      prefix ''adm'' s \<or> sublist ''admin'' s \<or> sublist ''adm1n'' s \<or> sublist ''4dmin'' s \<or>
      prefix ''root'' s \<or> prefix ''sys'' s \<or> prefix ''oper'' s \<or> prefix ''ircord'' s \<or>
      prefix ''server'' s \<or> (\<exists>t. s = ''sys'' @ t \<and> sublist ''admin'' t) \<or>
      (\<exists>t. s = ''web'' @ t \<and> sublist ''master'' t) \<or> (\<exists>t. s = ''host'' @ t \<and> sublist ''master'' t)"
    unfolding matches_pattern_def pattern_reserved_def
    by (simp only: list_ex_Nil_iff list_ex_Cons_iff starts [of "''adm''"] starts [of "''root''"] starts [of "''sys''"]
        starts [of "''oper''"] starts [of "''ircord''"] starts [of "''server''"]
        contains [of "''admin''"] contains [of "''adm1n''"] contains [of "''4dmin''"]
        both [of "''sys''" "''admin''"] both [of "''web''" "''master''"]
        both [of "''host''" "''master''"] insert_iff simp_thms)
  have sys: "(\<exists>t. s = ''sys'' @ t \<and> sublist ''admin'' t) \<Longrightarrow> prefix ''sys'' s"
    by (auto simp: prefix_def)
  show ?thesis
    using sys unfolding pats reserved_word_def bex_simps conj_disj_distribR ex_disj_distrib
    by argo
qed



text \<open>
  The homoglyph check comes down to one comparison: the byte patterns of UTF-8 lead bytes that
  it tests after the range test only occur above 127, so the check holds exactly for the names with
  a byte outside ASCII.
\<close>

theorem homoglyphs_iff_non_ascii:
  "contains_unicode_homoglyphs n = (\<exists>c \<in> set n. (of_char c :: nat) > 127)"
proof -
  have lead: "and uc 0xC0 = 0xC0 \<Longrightarrow> 127 < uc" for uc :: byte
  proof -
    assume "and uc 0xC0 = 0xC0"
    then have "0xC0 \<le> uc" by (metis word_and_le2)
    then show "127 < uc" by (rule order.strict_trans2 [rotated]) simp
  qed
  have c0: "and uc m = v \<Longrightarrow> and v 0xC0 = 0xC0 \<Longrightarrow> and m 0xC0 = 0xC0 \<Longrightarrow> and uc 0xC0 = 0xC0"
    for uc m v :: byte
    by (metis and.assoc)
  have iff: "homoglyph_byte uc \<longleftrightarrow> uc > 127" for uc
    using lead [of uc] c0 [of uc "0xE0" "0xC0"] c0 [of uc "0xF0" "0xE0"] c0 [of uc "0xF8" "0xF0"]
    by (auto simp: homoglyph_byte_def)
  have "(of_char c :: byte) > 127 \<longleftrightarrow> (of_char c :: nat) > 127" for c
  proof -
    have "unat (of_char c :: byte) = of_char c"
      by (rule unat_of_char)
    then show ?thesis by (simp add: word_less_nat_alt)
  qed
  then show ?thesis by (auto simp: contains_unicode_homoglyphs_def list_ex_iff iff)
qed

end
