(* ===== verification/User_Store.thy ===== *)
theory User_Store
  imports Reserved_Identity
begin

text \<open>
  Accounts and keys: \<open>src/db/user_store.cpp\<close> over the tables \<open>users\<close>, \<open>signed_prekeys\<close> and
  \<open>one_time_prekeys\<close> of \<open>src/db/database.cpp\<close>, opened with \<open>foreign_keys=ON\<close>.  A table with a
  primary key is a map, \<open>one_time_prekeys\<close> is the list of its rows with the AUTOINCREMENT counter.
  Every statement has a flag that says whether it throws; an operation that lets the exception
  through returns \<open>Threw\<close> with the tables as they are then.  libsodium's password hashing is a
  parameter.  The row that a \<open>LIMIT 1\<close> without an order returns is unspecified: the number
  \<open>choice\<close> selects it, and every row is the answer for some choice.
\<close>

section \<open>Tables\<close>

datatype 's outcome = Returned 's | Threw 's

fun state_of :: "'s outcome \<Rightarrow> 's" where
  "state_of (Returned s) = s"
| "state_of (Threw s) = s"

fun threw :: "'s outcome \<Rightarrow> bool" where
  "threw (Returned s) \<longleftrightarrow> False"
| "threw (Threw s) \<longleftrightarrow> True"

record user =
  identity_pub :: bytes
  password_hash :: "bytes option"
  created_at :: time

record signed_prekey =
  spk_pub :: bytes
  spk_sig :: bytes
  uploaded_at :: time

record opk_row =
  opk_id :: nat
  opk_user :: user_id
  opk_pub :: bytes
  opk_used :: bool

record user_db =
  users :: "user_id \<rightharpoonup> user"
  signed_prekeys :: "user_id \<rightharpoonup> signed_prekey"
  one_time_prekeys :: "opk_row list"
  opk_next :: nat

definition empty_user_db :: user_db where
  "empty_user_db = \<lparr>users = Map.empty, signed_prekeys = Map.empty, one_time_prekeys = [], opk_next = 1\<rparr>"

section \<open>Accounts\<close>

text \<open>\<open>validate_user_id\<close>: the empty string is acceptance, anything else the error message.\<close>

definition validate_user_id :: "(string \<Rightarrow> (string \<Rightarrow> bool) option) \<Rightarrow> user_id \<Rightarrow> string list \<Rightarrow> string"
where
  "validate_user_id re user_id additional_reserved =
     (if length user_id < 2 then ''User ID must be at least 2 characters''
      else if length user_id > 32 then ''User ID must be at most 32 characters''
      else if list_ex (\<lambda>c. \<not> is_alnum c \<and> c \<noteq> CHR ''_'' \<and> c \<noteq> CHR ''-'') user_id
        then ''User ID can only contain letters, numbers, underscores, and hyphens''
      else if is_reserved re user_id additional_reserved
        then ''This user ID is reserved and cannot be used''
      else if contains_unicode_homoglyphs user_id
        then ''User ID contains unsupported characters''
      else [])"

definition find_by_id :: "bool \<Rightarrow> user_id \<Rightarrow> user_db \<Rightarrow> user option" where
  "find_by_id fails u db = (if fails then None else users db u)"

text \<open>INSERT: a second row with the same primary key is refused by throwing.\<close>

definition insert_user :: "bool \<Rightarrow> user_id \<Rightarrow> bytes \<Rightarrow> time \<Rightarrow> user_db \<Rightarrow> user_db outcome" where
  "insert_user fails u key now db =
     (if fails \<or> users db u \<noteq> None then Threw db
      else Returned (db\<lparr>users := (users db)(u \<mapsto>
             \<lparr>identity_pub = key, password_hash = None, created_at = now\<rparr>)\<rparr>))"

definition update_identity_key :: "bool \<Rightarrow> user_id \<Rightarrow> bytes \<Rightarrow> user_db \<Rightarrow> user_db outcome" where
  "update_identity_key fails u key db =
     (if fails then Threw db
      else case users db u of
             None \<Rightarrow> Returned db
           | Some r \<Rightarrow> Returned (db\<lparr>users := (users db)(u \<mapsto> r\<lparr>identity_pub := key\<rparr>)\<rparr>))"

section \<open>Key material\<close>

definition clear_key_material :: "bool \<Rightarrow> bool \<Rightarrow> user_id \<Rightarrow> user_db \<Rightarrow> user_db outcome" where
  "clear_key_material spk_fails opk_fails u db =
     (if spk_fails then Threw db
      else
        let db = db\<lparr>signed_prekeys := (signed_prekeys db)(u := None)\<rparr>
        in if opk_fails then Threw db
           else Returned (db\<lparr>one_time_prekeys :=
                  filter (\<lambda>r. opk_user r \<noteq> u) (one_time_prekeys db)\<rparr>))"

text \<open>The two INSERTs throw when the user has no row: a foreign key refers to it.\<close>

definition upsert_signed_prekey ::
  "bool \<Rightarrow> time \<Rightarrow> user_id \<Rightarrow> bytes \<Rightarrow> bytes \<Rightarrow> user_db \<Rightarrow> user_db outcome"
where
  "upsert_signed_prekey fails now u pub sig db =
     (if fails \<or> users db u = None then Threw db
      else Returned (db\<lparr>signed_prekeys := (signed_prekeys db)(u \<mapsto>
             \<lparr>spk_pub = pub, spk_sig = sig, uploaded_at = now\<rparr>)\<rparr>))"

definition get_signed_prekey :: "bool \<Rightarrow> user_id \<Rightarrow> user_db \<Rightarrow> signed_prekey option" where
  "get_signed_prekey fails u db = (if fails then None else signed_prekeys db u)"

definition store_opk :: "bool \<Rightarrow> user_id \<Rightarrow> bytes \<Rightarrow> user_db \<Rightarrow> user_db outcome" where
  "store_opk fails u pub db =
     (if fails \<or> users db u = None then Threw db
      else Returned (db\<lparr>one_time_prekeys := one_time_prekeys db @
               [\<lparr>opk_id = opk_next db, opk_user = u, opk_pub = pub, opk_used = False\<rparr>],
             opk_next := Suc (opk_next db)\<rparr>))"

definition unused_opks :: "user_id \<Rightarrow> user_db \<Rightarrow> opk_row list" where
  "unused_opks u db = filter (\<lambda>r. opk_user r = u \<and> \<not> opk_used r) (one_time_prekeys db)"

definition mark_row :: "nat \<Rightarrow> opk_row \<Rightarrow> opk_row" where
  "mark_row i r = (if opk_id r = i then r\<lparr>opk_used := True\<rparr> else r)"

definition mark_used :: "nat \<Rightarrow> user_db \<Rightarrow> user_db" where
  "mark_used i db = db\<lparr>one_time_prekeys := map (mark_row i) (one_time_prekeys db)\<rparr>"

text \<open>The row \<open>consume_opk\<close> hands out, \<open>None\<close> where the code returns an empty key.\<close>

definition consume_row ::
  "nat \<Rightarrow> bool \<Rightarrow> bool \<Rightarrow> user_id \<Rightarrow> user_db \<Rightarrow> opk_row option \<times> user_db"
where
  "consume_row choice select_fails update_fails u db =
     (if select_fails \<or> unused_opks u db = [] then (None, db)
      else
        let row = unused_opks u db ! (choice mod length (unused_opks u db))
        in if update_fails then (None, db) else (Some row, mark_used (opk_id row) db))"

definition consume_opk ::
  "nat \<Rightarrow> bool \<Rightarrow> bool \<Rightarrow> user_id \<Rightarrow> user_db \<Rightarrow> bytes \<times> user_db"
where
  "consume_opk choice select_fails update_fails u db =
     (case consume_row choice select_fails update_fails u db of
        (None, db) \<Rightarrow> ([], db)
      | (Some row, db) \<Rightarrow> (opk_pub row, db))"

section \<open>Passwords\<close>

text \<open>
  \<open>hash\<close> is \<open>crypto_pwhash_str\<close> with the salt it draws (\<open>None\<close> when it runs out of memory),
  \<open>check\<close> is \<open>crypto_pwhash_str_verify\<close>.
\<close>

definition set_password :: "(string \<Rightarrow> bytes option) \<Rightarrow> bool \<Rightarrow> user_id \<Rightarrow> string \<Rightarrow> user_db \<Rightarrow> bool \<times> user_db"
where
  "set_password hash fails u password db =
     (case hash password of
        None \<Rightarrow> (False, db)
      | Some h \<Rightarrow>
          if fails then (False, db)
          else (True, case users db u of
                  None \<Rightarrow> db
                | Some r \<Rightarrow> db\<lparr>users := (users db)(u \<mapsto> r\<lparr>password_hash := Some h\<rparr>)\<rparr>))"

definition verify_password :: "(bytes \<Rightarrow> string \<Rightarrow> bool) \<Rightarrow> bool \<Rightarrow> user_id \<Rightarrow> string \<Rightarrow> user_db \<Rightarrow> bool" where
  "verify_password check fails u password db =
     (if fails then False
      else case users db u of
             None \<Rightarrow> False
           | Some r \<Rightarrow>
               (case password_hash r of
                  None \<Rightarrow> False
                | Some h \<Rightarrow> if h = [] then False else check h password))"

definition update_password ::
  "(string \<Rightarrow> bytes option) \<Rightarrow> (bytes \<Rightarrow> string \<Rightarrow> bool) \<Rightarrow> bool \<Rightarrow> bool \<Rightarrow> user_id \<Rightarrow> string \<Rightarrow> string \<Rightarrow>
   user_db \<Rightarrow> bool \<times> user_db"
where
  "update_password hash check verify_fails set_fails u old_password new_password db =
     (if \<not> verify_password check verify_fails u old_password db then (False, db)
      else set_password hash set_fails u new_password db)"

definition has_password :: "bool \<Rightarrow> user_id \<Rightarrow> user_db \<Rightarrow> bool" where
  "has_password fails u db =
     (if fails then False
      else case users db u of
             None \<Rightarrow> False
           | Some r \<Rightarrow> (case password_hash r of None \<Rightarrow> False | Some h \<Rightarrow> h \<noteq> []))"

text \<open>
  The statements \<open>DELETE FROM users\<close>, \<open>signed_prekeys\<close> and \<open>one_time_prekeys\<close> that \<open>/resetdb\<close>
  issues.  Deleting a user that a key row still refers to violates the foreign key.
\<close>

definition delete_all_users :: "bool \<Rightarrow> user_db \<Rightarrow> user_db outcome" where
  "delete_all_users fails db =
     (if fails \<or> (\<exists>u \<in> dom (users db). signed_prekeys db u \<noteq> None \<or>
                     u \<in> opk_user ` set (one_time_prekeys db))
      then Threw db else Returned (db\<lparr>users := Map.empty\<rparr>))"

definition delete_all_spks :: "bool \<Rightarrow> user_db \<Rightarrow> user_db outcome" where
  "delete_all_spks fails db = (if fails then Threw db else Returned (db\<lparr>signed_prekeys := Map.empty\<rparr>))"

definition delete_all_opks :: "bool \<Rightarrow> user_db \<Rightarrow> user_db outcome" where
  "delete_all_opks fails db = (if fails then Threw db else Returned (db\<lparr>one_time_prekeys := []\<rparr>))"

section \<open>The invariant\<close>

text \<open>Keys belong to registered users, and one-time keys have ids of their own below the counter.\<close>

definition keys_ok :: "user_db \<Rightarrow> bool" where
  "keys_ok db \<longleftrightarrow>
     dom (signed_prekeys db) \<subseteq> dom (users db) \<and>
     opk_user ` set (one_time_prekeys db) \<subseteq> dom (users db) \<and>
     distinct (map opk_id (one_time_prekeys db)) \<and>
     (\<forall>r \<in> set (one_time_prekeys db). opk_id r < opk_next db)"

lemma keys_ok_empty [inv_intros]: "keys_ok empty_user_db"
  by (simp add: keys_ok_def empty_user_db_def)

lemma keys_ok_insert [inv_intros]: "keys_ok db \<Longrightarrow> keys_ok (state_of (insert_user f u k now db))"
  by (auto simp: keys_ok_def insert_user_def)

lemma keys_ok_update [inv_intros]: "keys_ok db \<Longrightarrow> keys_ok (state_of (update_identity_key f u k db))"
  by (auto simp: keys_ok_def update_identity_key_def split: option.splits)

lemma keys_ok_clear [inv_intros]: "keys_ok db \<Longrightarrow> keys_ok (state_of (clear_key_material f g u db))"
  by (auto simp: keys_ok_def clear_key_material_def Let_def distinct_map_filter)

lemma keys_ok_upsert [inv_intros]:
  "keys_ok db \<Longrightarrow> keys_ok (state_of (upsert_signed_prekey f now u k s db))"
  by (auto simp: keys_ok_def upsert_signed_prekey_def)

lemma keys_ok_store [inv_intros]: "keys_ok db \<Longrightarrow> keys_ok (state_of (store_opk f u k db))"
  by (auto simp: keys_ok_def store_opk_def less_Suc_eq)

lemma mark_row_simps [simp]:
  "opk_id (mark_row i r) = opk_id r" "opk_user (mark_row i r) = opk_user r"
  "opk_pub (mark_row i r) = opk_pub r"
  "opk_used (mark_row i r) \<longleftrightarrow> opk_id r = i \<or> opk_used r"
  by (simp_all add: mark_row_def)

lemma map_mark [simp]:
  "map opk_id (one_time_prekeys (mark_used i db)) = map opk_id (one_time_prekeys db)"
  "opk_user ` set (one_time_prekeys (mark_used i db)) = opk_user ` set (one_time_prekeys db)"
  by (simp_all add: mark_used_def image_image)

lemma mark_frame [frame_simps]:
  "users (mark_used i db) = users db" "signed_prekeys (mark_used i db) = signed_prekeys db"
  "opk_next (mark_used i db) = opk_next db"
  by (simp_all add: mark_used_def)

lemma keys_ok_mark [inv_intros]: "keys_ok db \<Longrightarrow> keys_ok (mark_used i db)"
  unfolding keys_ok_def by (auto simp: frame_simps) (auto simp: mark_used_def)

lemma keys_ok_consume [inv_intros]: "keys_ok db \<Longrightarrow> keys_ok (snd (consume_row c f g u db))"
  by (auto simp: consume_row_def Let_def inv_intros)

lemma snd_consume_opk: "snd (consume_opk c f g u db) = snd (consume_row c f g u db)"
  by (auto simp: consume_opk_def split: prod.splits option.splits)

lemma keys_ok_set_password [inv_intros]: "keys_ok db \<Longrightarrow> keys_ok (snd (set_password h f u p db))"
  by (auto simp: keys_ok_def set_password_def split: option.splits)

lemma keys_ok_update_password [inv_intros]:
  "keys_ok db \<Longrightarrow> keys_ok (snd (update_password h c f g u p q db))"
  by (auto simp: update_password_def inv_intros)

datatype user_op =
    Register bool user_id bytes time
  | Rekey bool user_id bytes
  | Clear_Keys bool bool user_id
  | Upsert_Spk bool time user_id bytes bytes
  | Store_Opk bool user_id bytes
  | Consume_Opk nat bool bool user_id

fun user_step :: "user_db \<Rightarrow> user_op \<Rightarrow> user_db" where
  "user_step db (Register f u k now) = state_of (insert_user f u k now db)"
| "user_step db (Rekey f u k) = state_of (update_identity_key f u k db)"
| "user_step db (Clear_Keys f g u) = state_of (clear_key_material f g u db)"
| "user_step db (Upsert_Spk f now u k s) = state_of (upsert_signed_prekey f now u k s db)"
| "user_step db (Store_Opk f u k) = state_of (store_opk f u k db)"
| "user_step db (Consume_Opk c f g u) = snd (consume_opk c f g u db)"

text \<open>The id of the one-time key an operation hands out.\<close>

fun opk_issued :: "user_db \<Rightarrow> user_op \<Rightarrow> nat option" where
  "opk_issued db (Consume_Opk c f g u) = map_option opk_id (fst (consume_row c f g u db))"
| "opk_issued db _ = None"

text \<open>The ids that can still be handed out: unused rows and rows yet to be inserted.\<close>

definition opk_available :: "user_db \<Rightarrow> nat set" where
  "opk_available db = opk_id ` {r \<in> set (one_time_prekeys db). \<not> opk_used r} \<union> {opk_next db ..}"

lemma consume_row_Some:
  assumes "consume_row c f g u db = (Some row, db')"
  shows "row \<in> set (one_time_prekeys db) \<and> opk_user row = u \<and> \<not> opk_used row \<and>
    db' = mark_used (opk_id row) db"
proof -
  have ne: "unused_opks u db \<noteq> []"
    and row: "row = unused_opks u db ! (c mod length (unused_opks u db))"
    and db': "db' = mark_used (opk_id row) db"
    using assms by (auto simp: consume_row_def Let_def split: if_splits)
  from ne have "row \<in> set (unused_opks u db)" by (simp add: row)
  with db' show ?thesis by (simp add: unused_opks_def)
qed

lemma available_mark: "opk_available (mark_used i db) \<subseteq> opk_available db"
  by (auto simp: opk_available_def mark_used_def)

lemma not_available_marked: "i < opk_next db \<Longrightarrow> i \<notin> opk_available (mark_used i db)"
  by (auto simp: opk_available_def mark_used_def) (metis mark_row_simps(1,4))

lemma consume_row_cases:
  "snd (consume_row c f g u db) = db \<or> (\<exists>i. snd (consume_row c f g u db) = mark_used i db)"
  by (auto simp: consume_row_def Let_def)

lemma available_step: "keys_ok db \<Longrightarrow> opk_available (user_step db e) \<subseteq> opk_available db"
proof (cases e)
  case (Consume_Opk c f g u)
  then show ?thesis
    using consume_row_cases [of c f g u db]
    by (auto simp: snd_consume_opk dest: subsetD [OF available_mark])
qed (auto simp: opk_available_def insert_user_def update_identity_key_def clear_key_material_def
    Let_def upsert_signed_prekey_def store_opk_def split: option.splits)

interpretation opks: issuer user_step keys_ok opk_issued opk_available
proof
  fix db :: user_db and e i assume ok: "keys_ok db"
  show "keys_ok (user_step db e)"
    using ok by (cases e) (simp_all add: inv_intros snd_consume_opk)
  show "opk_available (user_step db e) \<subseteq> opk_available db" using ok by (rule available_step)
  show "i \<in> opk_available db \<and> i \<notin> opk_available (user_step db e)" if out: "opk_issued db e = Some i"
  proof (cases e)
    case (Consume_Opk c f g u)
    then obtain row db' where "consume_row c f g u db = (Some row, db')" "opk_id row = i"
      using out by (cases "consume_row c f g u db") auto
    then show ?thesis
      using ok consume_row_Some [of c f g u db row db'] Consume_Opk
        not_available_marked [of i db]
      by (auto simp: snd_consume_opk keys_ok_def) (auto simp: opk_available_def)
  qed (use out in auto)
qed

text \<open>
  One-time prekeys are one-time: whatever sequence of registrations, key uploads, key resets
  and key requests the store goes through, and whichever rows the database picks, no one-time
  prekey row is handed out twice.
\<close>

theorem opk_handed_out_once:
  assumes "keys_ok db"
  shows "distinct (issue_list user_step opk_issued db es)"
  using opks.issued_distinct [OF assms] by simp

theorem opk_handed_out_once_witness:
  "issue_list user_step opk_issued empty_user_db
     [Register False ''al'' [1] 0, Store_Opk False ''al'' [7], Store_Opk False ''al'' [8],
      Consume_Opk 1 False False ''al'', Consume_Opk 0 False False ''al'',
      Consume_Opk 0 False False ''al''] = [2, 1] \<and> distinct [2, 1 :: nat]"
proof -
  have "keys_ok empty_user_db" by (rule keys_ok_empty)
  from opk_handed_out_once [OF this, of "[Register False ''al'' [1] 0, Store_Opk False ''al'' [7],
      Store_Opk False ''al'' [8], Consume_Opk 1 False False ''al'', Consume_Opk 0 False False ''al'',
      Consume_Opk 0 False False ''al'']"]
  show ?thesis
    by (simp add: empty_user_db_def insert_user_def store_opk_def consume_opk_def consume_row_def
        unused_opks_def mark_used_def mark_row_def Let_def)
qed

section \<open>Accounts and passwords\<close>

lemma ascii_name_chars:
  "is_alnum c \<or> c = CHR ''_'' \<or> c = CHR ''-'' \<Longrightarrow> \<not> (of_char c :: nat) > 127"
  by (auto simp: is_alnum_def is_upper_code is_lower_code is_digit_code)

text \<open>
  What \<open>validate_user_id\<close> accepts: 2 to 32 letters, digits, underscores and hyphens that do not
  form a reserved name.  Its last check, for homoglyphs, never rejects anything the earlier ones let
  through.
\<close>

theorem validate_user_id_iff:
  "(validate_user_id re u extra = []) =
     (2 \<le> length u \<and> length u \<le> 32 \<and>
      (\<forall>c \<in> set u. is_alnum c \<or> c = CHR ''_'' \<or> c = CHR ''-'') \<and> \<not> is_reserved re u extra)"
proof -
  have "\<forall>c \<in> set u. is_alnum c \<or> c = CHR ''_'' \<or> c = CHR ''-'' \<Longrightarrow>
      \<not> contains_unicode_homoglyphs u"
    using ascii_name_chars by (auto simp: homoglyphs_iff_non_ascii)
  then show ?thesis by (auto simp: validate_user_id_def list_ex_iff)
qed

theorem validate_user_id_iff_witness:
  "validate_user_id (\<lambda>_. None) ''a b'' [] \<noteq> [] \<and> validate_user_id (\<lambda>_. None) ''x'' [] \<noteq> []"
proof -
  have "\<not> is_alnum (CHR '' '')" by (simp add: is_alnum_def ctype_simps)
  then show ?thesis
    using validate_user_id_iff [of "\<lambda>_. None" "''a b''" "[]"]
      validate_user_id_iff [of "\<lambda>_. None" "''x''" "[]"] by auto
qed

text \<open>
  Changing a password takes the old one and installs the new one: when \<open>update_password\<close>
  succeeds the old password verified before, the new one verifies afterwards (for a hash function
  whose hashes are not empty and verify, as libsodium's do), and nobody else's password changed.
\<close>

theorem password_change:
  assumes law: "\<forall>p h. hash p = Some h \<longrightarrow> h \<noteq> [] \<and> check h p"
    and changed: "update_password hash check vf sf u old_pw new_pw db = (True, db')"
  shows "verify_password check False u old_pw db \<and> verify_password check False u new_pw db' \<and>
    (v \<noteq> u \<longrightarrow> verify_password check False v p db' = verify_password check False v p db)"
proof -
  have ver: "verify_password check vf u old_pw db" and set: "set_password hash sf u new_pw db = (True, db')"
    using changed by (auto simp: update_password_def split: if_splits)
  from ver have old: "verify_password check False u old_pw db"
    by (cases vf) (simp_all add: verify_password_def)
  then obtain r where "users db u = Some r"
    by (auto simp: verify_password_def split: option.splits)
  with set law show ?thesis
    using old by (auto simp: set_password_def verify_password_def split: option.splits if_splits)
qed

theorem password_change_witness:
  "let hash = (\<lambda>p. Some (0 # map of_char p)); check = (\<lambda>h p. h = 0 # map of_char p);
       db = snd (set_password hash False ''al'' ''old''
              (state_of (insert_user False ''al'' [1] 0 empty_user_db)));
       db' = snd (update_password hash check False False ''al'' ''old'' ''new'' db)
   in verify_password check False ''al'' ''new'' db'"
proof -
  define hash :: "string \<Rightarrow> bytes option" where "hash = (\<lambda>p. Some (0 # map of_char p))"
  define check :: "bytes \<Rightarrow> string \<Rightarrow> bool" where "check = (\<lambda>h p. h = 0 # map of_char p)"
  define db where "db = snd (set_password hash False ''al'' ''old''
    (state_of (insert_user False ''al'' [1] 0 empty_user_db)))"
  have law: "\<forall>p h. hash p = Some h \<longrightarrow> h \<noteq> [] \<and> check h p" by (simp add: hash_def check_def)
  have "update_password hash check False False ''al'' ''old'' ''new'' db =
      (True, snd (update_password hash check False False ''al'' ''old'' ''new'' db))"
    by (simp add: db_def hash_def check_def update_password_def verify_password_def set_password_def
        insert_user_def empty_user_db_def)
  from password_change [OF law this, of "''bo''" "''x''"] show ?thesis
    by (simp add: Let_def db_def hash_def check_def)
qed

text \<open>
  The statement order of \<open>/resetdb\<close> cannot work on a database in use: \<open>DELETE FROM users\<close> comes
  first, and it violates the foreign key as soon as one user has a key.
\<close>

lemma reset_blocked_by_keys:
  "users db u \<noteq> None \<Longrightarrow> signed_prekeys db u \<noteq> None \<Longrightarrow> delete_all_users f db = Threw db"
  by (auto simp: delete_all_users_def)

end
