(* ===== verification/Mailbox.thy ===== *)
theory Mailbox
  imports Prelude "HOL-Library.Sublist"
begin

text \<open>
  The interface between the code that routes messages and the store that keeps them for users who
  are away: \<open>deposit\<close> takes a message for a user (or refuses it), \<open>collect\<close> hands over what is
  there.  \<open>contents now u db\<close> is what user \<open>u\<close> would get at time \<open>now\<close>; \<open>live e now\<close> says that a
  message deposited in the circumstances \<open>e\<close> has not expired at \<open>now\<close>.
\<close>

text \<open>A run of deposits and the ones that were accepted, in order.\<close>

fun post_all ::
  "('e \<Rightarrow> user_id \<Rightarrow> bytes \<Rightarrow> 'db \<Rightarrow> bool \<times> 'db) \<Rightarrow> ('e \<times> user_id \<times> bytes) list \<Rightarrow> 'db \<Rightarrow>
   ('e \<times> user_id \<times> bytes) list \<times> 'db"
where
  "post_all deposit [] db = ([], db)"
| "post_all deposit ((e, u, p) # ps) db =
     (case deposit e u p db of
        (ok, db1) \<Rightarrow>
          (case post_all deposit ps db1 of
             (acc, db2) \<Rightarrow> ((if ok then (e, u, p) # acc else acc), db2)))"

text \<open>What the accepted deposits put into the box of \<open>u\<close>.\<close>

definition posted_for ::
  "('e \<Rightarrow> time \<Rightarrow> bool) \<Rightarrow> time \<Rightarrow> user_id \<Rightarrow> ('e \<times> user_id \<times> bytes) list \<Rightarrow> bytes list"
where
  "posted_for live now u acc = map (\<lambda>(e, v, p). p) (filter (\<lambda>(e, v, p). v = u \<and> live e now) acc)"

lemma posted_for_simps [simp]:
  "posted_for live now u [] = []"
  "posted_for live now u ((e, v, p) # acc) =
     (if v = u \<and> live e now then [p] else []) @ posted_for live now u acc"
  by (simp_all add: posted_for_def)

lemma suffix_append_same: "suffix xs ys \<Longrightarrow> suffix (xs @ zs) (ys @ zs)"
  by (auto simp: suffix_def)

text \<open>
  What every store promises: the box is a queue in which only old messages can go missing, from
  the front, and a collection empties it and leaves the others alone.
\<close>

locale mailbox =
  fixes deposit :: "'e \<Rightarrow> user_id \<Rightarrow> bytes \<Rightarrow> 'db \<Rightarrow> bool \<times> 'db"
    and collect :: "time \<Rightarrow> user_id \<Rightarrow> 'db \<Rightarrow> bytes list \<times> 'db"
    and contents :: "time \<Rightarrow> user_id \<Rightarrow> 'db \<Rightarrow> bytes list"
    and live :: "'e \<Rightarrow> time \<Rightarrow> bool"
    and box_inv :: "'db \<Rightarrow> bool"
  assumes deposit_inv: "box_inv db \<Longrightarrow> box_inv (snd (deposit e u p db))"
    and deposit_contents: "box_inv db \<Longrightarrow>
      suffix (contents now v (snd (deposit e u p db)))
        (contents now v db @ (if fst (deposit e u p db) \<and> u = v \<and> live e now then [p] else []))"
    and deposit_accepted: "box_inv db \<Longrightarrow> fst (deposit e u p db) \<Longrightarrow> live e now \<Longrightarrow>
      suffix [p] (contents now u (snd (deposit e u p db)))"
    and collect_all: "box_inv db \<Longrightarrow> fst (collect now u db) = contents now u db"
    and collect_empties: "box_inv db \<Longrightarrow> contents now' u (snd (collect now u db)) = []"
    and collect_others: "box_inv db \<Longrightarrow> u \<noteq> v \<Longrightarrow>
      contents now' v (snd (collect now u db)) = contents now' v db"
begin

lemma post_all_inv: "box_inv db \<Longrightarrow> box_inv (snd (post_all deposit ps db))"
proof (induction ps arbitrary: db)
  case (Cons x ps)
  obtain e u p where x: "x = (e, u, p)" using prod_cases3 by blast
  show ?case
    using Cons.IH [OF deposit_inv [OF Cons.prems, of e u p]]
    by (auto simp: x split: prod.splits)
qed simp

lemma post_all_contents:
  "box_inv db \<Longrightarrow>
   suffix (contents now u (snd (post_all deposit ps db)))
     (contents now u db @ posted_for live now u (fst (post_all deposit ps db)))"
proof (induction ps arbitrary: db)
  case (Cons x ps)
  obtain e v p where x: "x = (e, v, p)" using prod_cases3 by blast
  obtain ok db1 where d: "deposit e v p db = (ok, db1)" by fastforce
  obtain acc db2 where r: "post_all deposit ps db1 = (acc, db2)" by fastforce
  have "box_inv db1" using deposit_inv [OF Cons.prems, of e v p] by (simp add: d)
  from Cons.IH [OF this]
  have "suffix (contents now u db2) (contents now u db1 @ posted_for live now u acc)"
    by (simp add: r)
  also have "suffix \<dots> ((contents now u db @ (if ok \<and> v = u \<and> live e now then [p] else []))
      @ posted_for live now u acc)"
    by (rule suffix_append_same)
      (use deposit_contents [OF Cons.prems, of now u e v p] in \<open>simp add: d\<close>)
  finally show ?case by (auto simp: x d r)
qed simp

text \<open>Collecting after a run of deposits hands over messages in the order they were accepted.\<close>

lemma collect_after_posts:
  assumes "box_inv db"
  shows "suffix (fst (collect now u (snd (post_all deposit ps db))))
     (contents now u db @ posted_for live now u (fst (post_all deposit ps db)))"
  using post_all_contents [OF assms] collect_all [OF post_all_inv [OF assms]] by simp

lemma collect_twice:
  "box_inv db \<Longrightarrow> box_inv (snd (collect now u db)) \<Longrightarrow>
   fst (collect now' u (snd (collect now u db))) = []"
  by (simp add: collect_all collect_empties)

end

text \<open>A store with room to spare loses nothing.\<close>

locale roomy_mailbox = mailbox deposit collect contents live box_inv
  for deposit :: "'e \<Rightarrow> user_id \<Rightarrow> bytes \<Rightarrow> 'db \<Rightarrow> bool \<times> 'db"
    and collect :: "time \<Rightarrow> user_id \<Rightarrow> 'db \<Rightarrow> bytes list \<times> 'db"
    and contents :: "time \<Rightarrow> user_id \<Rightarrow> 'db \<Rightarrow> bytes list"
    and live :: "'e \<Rightarrow> time \<Rightarrow> bool"
    and box_inv :: "'db \<Rightarrow> bool" +
  fixes room :: "'db \<Rightarrow> nat"
  assumes room_deposit: "box_inv db \<Longrightarrow> room db \<le> Suc (room (snd (deposit e u p db)))"
    and room_kept: "box_inv db \<Longrightarrow> 0 < room db \<Longrightarrow>
      contents now v (snd (deposit e u p db)) =
        contents now v db @ (if fst (deposit e u p db) \<and> u = v \<and> live e now then [p] else [])"
begin

lemma post_all_lossless:
  "box_inv db \<Longrightarrow> length ps \<le> room db \<Longrightarrow>
   contents now u (snd (post_all deposit ps db)) =
     contents now u db @ posted_for live now u (fst (post_all deposit ps db))"
proof (induction ps arbitrary: db)
  case (Cons x ps)
  obtain e v p where x: "x = (e, v, p)" using prod_cases3 by blast
  obtain ok db1 where d: "deposit e v p db = (ok, db1)" by fastforce
  obtain acc db2 where r: "post_all deposit ps db1 = (acc, db2)" by fastforce
  have inv: "box_inv db1" using deposit_inv [OF Cons.prems(1), of e v p] by (simp add: d)
  have "room db \<le> Suc (room db1)" using room_deposit [OF Cons.prems(1), of e v p] by (simp add: d)
  with Cons.prems(2) have "length ps \<le> room db1" by simp
  from Cons.IH [OF inv this]
  have "contents now u db2 = contents now u db1 @ posted_for live now u acc" by (simp add: r)
  moreover have "contents now u db1 =
      contents now u db @ (if ok \<and> v = u \<and> live e now then [p] else [])"
    using room_kept [OF Cons.prems(1), of now u e v p] Cons.prems(2) by (simp add: d)
  ultimately show ?case by (auto simp: x d r)
qed simp

lemma collect_lossless:
  assumes "box_inv db" and "length ps \<le> room db"
  shows "fst (collect now u (snd (post_all deposit ps db))) =
     contents now u db @ posted_for live now u (fst (post_all deposit ps db))"
  using post_all_lossless [OF assms] collect_all [OF post_all_inv [OF assms(1)]] by simp

end

end
