(* ===== verification/Offline_Store.thy ===== *)
theory Offline_Store
  imports Mailbox
begin

text \<open>
  The offline message queue of \<open>src/db/offline_store.cpp\<close> over the table \<open>offline_messages\<close> of
  \<open>src/db/database.cpp\<close>.  The table is the list of its rows in insertion order with its
  AUTOINCREMENT counter; each SQL statement is the list operation it stands for.  A statement that
  throws \<open>SQLite::Exception\<close> is a fault argument of the operation, so that every \<open>catch\<close> of the
  source is a branch of the model.  Times are Unix seconds.
\<close>

record offline_row =
  om_id :: nat
  om_recipient :: user_id
  om_payload :: bytes
  om_stored_at :: time
  om_expires_at :: time

record offline_db =
  om_rows :: "offline_row list"
  om_next :: nat

definition empty_offline :: offline_db where
  "empty_offline = \<lparr>om_rows = [], om_next = 1\<rparr>"

definition kTtlSeconds :: time where
  "kTtlSeconds = 7 * 24 * 3600"

definition kMaxMessagesPerUser :: nat where
  "kMaxMessagesPerUser = 100"

definition kMaxTotalMessages :: nat where
  "kMaxTotalMessages = 100000"

text \<open>Which of the statements of \<open>save\<close> throw: the per-user count, the global count and its
  eviction, the insertion.\<close>

record save_faults =
  user_count_fails :: bool
  evict_fails :: bool
  insert_fails :: bool

definition no_save_faults :: save_faults where
  "no_save_faults = \<lparr>user_count_fails = False, evict_fails = False, insert_fails = False\<rparr>"

section \<open>The operations\<close>

definition drop_oldest :: "offline_row list \<Rightarrow> offline_row list" where
  "drop_oldest rows = filter (\<lambda>r. om_id r \<noteq> Min (om_id ` set rows)) rows"

text \<open>The second \<open>try\<close> block of \<open>save\<close>: at the global limit the oldest message goes.\<close>

definition make_room :: "bool \<Rightarrow> offline_db \<Rightarrow> offline_db" where
  "make_room fails db =
     (if \<not> fails \<and> length (om_rows db) \<ge> kMaxTotalMessages
      then db\<lparr>om_rows := drop_oldest (om_rows db)\<rparr> else db)"

text \<open>The INSERT statement.\<close>

definition insert_row :: "time \<Rightarrow> user_id \<Rightarrow> bytes \<Rightarrow> offline_db \<Rightarrow> offline_db" where
  "insert_row now recipient payload db =
     db\<lparr>om_rows := om_rows db @
          [\<lparr>om_id = om_next db, om_recipient = recipient, om_payload = payload,
            om_stored_at = now, om_expires_at = now + kTtlSeconds\<rparr>],
        om_next := Suc (om_next db)\<rparr>"

definition save :: "save_faults \<Rightarrow> time \<Rightarrow> user_id \<Rightarrow> bytes \<Rightarrow> offline_db \<Rightarrow> bool \<times> offline_db" where
  "save f now recipient payload db =
     (let user_count = length (filter (\<lambda>r. om_recipient r = recipient) (om_rows db))
      in if \<not> user_count_fails f \<and> user_count \<ge> kMaxMessagesPerUser then (False, db)
         else
           let db = make_room (evict_fails f) db
           in if insert_fails f then (False, db) else (True, insert_row now recipient payload db))"

text \<open>The selection of \<open>fetch_and_delete\<close> may throw after \<open>n\<close> rows; the deletion may throw.\<close>

datatype fetch_fault = No_Fault | Select_Fails nat | Delete_Fails

definition fetch_and_delete :: "fetch_fault \<Rightarrow> time \<Rightarrow> user_id \<Rightarrow> offline_db \<Rightarrow> bytes list \<times> offline_db"
where
  "fetch_and_delete f now recipient db =
     (let messages = map om_payload
            (sort_key om_id
              (filter (\<lambda>r. om_recipient r = recipient \<and> om_expires_at r > now) (om_rows db)))
      in case f of
           Select_Fails n \<Rightarrow> (take n messages, db)
         | Delete_Fails \<Rightarrow> (messages, db)
         | No_Fault \<Rightarrow>
             (messages, db\<lparr>om_rows := filter (\<lambda>r. om_recipient r \<noteq> recipient) (om_rows db)\<rparr>))"

definition cleanup_expired :: "bool \<Rightarrow> time \<Rightarrow> offline_db \<Rightarrow> int \<times> offline_db" where
  "cleanup_expired fails now db =
     (if fails then (0, db)
      else (int (length (filter (\<lambda>r. om_expires_at r \<le> now) (om_rows db))),
            db\<lparr>om_rows := filter (\<lambda>r. \<not> om_expires_at r \<le> now) (om_rows db)\<rparr>))"

definition get_pending_count :: "bool \<Rightarrow> time \<Rightarrow> user_id \<Rightarrow> offline_db \<Rightarrow> int" where
  "get_pending_count fails now recipient db =
     (if fails then 0
      else int (length (filter (\<lambda>r. om_recipient r = recipient \<and> om_expires_at r > now) (om_rows db))))"

definition get_total_count :: "bool \<Rightarrow> offline_db \<Rightarrow> int" where
  "get_total_count fails db = (if fails then 0 else int (length (om_rows db)))"

record offline_stats =
  total_messages :: int
  total_recipients :: int
  oldest_message_age_sec :: time

definition get_offline_stats :: "time \<Rightarrow> offline_db \<Rightarrow> offline_stats" where
  "get_offline_stats now db =
     \<lparr>total_messages = int (length (om_rows db)),
      total_recipients = int (card (om_recipient ` set (om_rows db))),
      oldest_message_age_sec =
        (if om_rows db = [] then 0 else now - Min (om_stored_at ` set (om_rows db)))\<rparr>"

section \<open>The invariant\<close>

text \<open>Ids grow with the insertion order and the counter is ahead of them all.\<close>

definition ids_ok :: "offline_db \<Rightarrow> bool" where
  "ids_ok db \<longleftrightarrow> sorted_wrt (<) (map om_id (om_rows db)) \<and> (\<forall>r \<in> set (om_rows db). om_id r < om_next db)"

definition user_rows :: "user_id \<Rightarrow> offline_db \<Rightarrow> offline_row list" where
  "user_rows u db = filter (\<lambda>r. om_recipient r = u) (om_rows db)"

definition within_limits :: "offline_db \<Rightarrow> bool" where
  "within_limits db \<longleftrightarrow>
     length (om_rows db) \<le> kMaxTotalMessages \<and> (\<forall>u. length (user_rows u db) \<le> kMaxMessagesPerUser)"

lemma sorted_wrt_map_filter: "sorted_wrt R (map f xs) \<Longrightarrow> sorted_wrt R (map f (filter P xs))"
  by (induction xs) auto

lemma ids_ok_filter [inv_intros]: "ids_ok db \<Longrightarrow> ids_ok (db\<lparr>om_rows := filter P (om_rows db)\<rparr>)"
  by (auto simp: ids_ok_def sorted_wrt_map_filter)

lemma ids_ok_empty [inv_intros]: "ids_ok empty_offline"
  by (simp add: ids_ok_def empty_offline_def)

lemma ids_ok_insert [inv_intros]: "ids_ok db \<Longrightarrow> ids_ok (insert_row now u p db)"
  by (auto simp: ids_ok_def insert_row_def sorted_wrt_append less_Suc_eq)

lemma ids_ok_make_room [inv_intros]: "ids_ok db \<Longrightarrow> ids_ok (make_room b db)"
  by (simp add: make_room_def drop_oldest_def ids_ok_filter)

lemma ids_ok_save [inv_intros]: "ids_ok db \<Longrightarrow> ids_ok (snd (save f now u p db))"
  by (simp add: save_def Let_def inv_intros)

lemma ids_ok_fetch [inv_intros]: "ids_ok db \<Longrightarrow> ids_ok (snd (fetch_and_delete f now u db))"
  by (cases f) (simp_all add: fetch_and_delete_def ids_ok_filter)

lemma ids_ok_cleanup [inv_intros]: "ids_ok db \<Longrightarrow> ids_ok (snd (cleanup_expired b now db))"
  by (simp add: cleanup_expired_def ids_ok_filter)

lemma user_rows_filter:
  "user_rows u (db\<lparr>om_rows := filter P (om_rows db)\<rparr>) = filter P (user_rows u db)"
  by (simp add: user_rows_def conj_commute)

lemma user_rows_insert:
  "user_rows u (insert_row now v p db) = user_rows u db @
     (if u = v then [\<lparr>om_id = om_next db, om_recipient = v, om_payload = p, om_stored_at = now,
                      om_expires_at = now + kTtlSeconds\<rparr>] else [])"
  by (auto simp: user_rows_def insert_row_def)

lemma within_limits_filter [inv_intros]:
  "within_limits db \<Longrightarrow> within_limits (db\<lparr>om_rows := filter P (om_rows db)\<rparr>)"
  by (auto simp: within_limits_def user_rows_filter intro: order_trans [OF length_filter_le])

lemma drop_oldest_less: "rows \<noteq> [] \<Longrightarrow> length (drop_oldest rows) < length rows"
proof -
  assume ne: "rows \<noteq> []"
  then have "Min (om_id ` set rows) \<in> om_id ` set rows" by (intro Min_in) auto
  then obtain r where "r \<in> set rows" "om_id r = Min (om_id ` set rows)" by auto
  then show ?thesis unfolding drop_oldest_def by (intro length_filter_less) auto
qed

lemma make_room_limits:
  assumes "within_limits db"
  shows "within_limits (make_room b db)"
    "length (user_rows u (make_room b db)) \<le> length (user_rows u db)"
    "\<not> b \<Longrightarrow> length (om_rows (make_room b db)) < kMaxTotalMessages"
proof -
  show "within_limits (make_room b db)"
    using assms by (simp add: make_room_def drop_oldest_def within_limits_filter)
  show "length (user_rows u (make_room b db)) \<le> length (user_rows u db)"
    by (simp add: make_room_def drop_oldest_def user_rows_filter)
  show "\<not> b \<Longrightarrow> length (om_rows (make_room b db)) < kMaxTotalMessages"
    using assms drop_oldest_less [of "om_rows db"]
    by (cases "om_rows db = []")
      (auto simp: make_room_def within_limits_def kMaxTotalMessages_def)
qed

lemma within_limits_insert:
  assumes "within_limits db" and "length (om_rows db) < kMaxTotalMessages"
    and "length (user_rows u db) < kMaxMessagesPerUser"
  shows "within_limits (insert_row now u p db)"
  using assms by (auto simp: within_limits_def user_rows_insert) (simp add: insert_row_def)

lemma within_limits_save [inv_intros]:
  assumes "within_limits db" and "\<not> user_count_fails f" and "\<not> evict_fails f"
  shows "within_limits (snd (save f now u p db))"
proof (cases "length (user_rows u db) \<ge> kMaxMessagesPerUser")
  case True
  with assms show ?thesis by (simp add: save_def user_rows_def)
next
  case False
  have "within_limits (insert_row now u p (make_room (evict_fails f) db))"
    using False assms make_room_limits(2) [of db u "evict_fails f"]
    by (intro within_limits_insert make_room_limits) auto
  then show ?thesis
    using False assms by (simp add: save_def Let_def make_room_limits)
qed

lemma within_limits_fetch [inv_intros]:
  "within_limits db \<Longrightarrow> within_limits (snd (fetch_and_delete f now u db))"
  by (cases f) (simp_all add: fetch_and_delete_def within_limits_filter)

lemma within_limits_cleanup [inv_intros]:
  "within_limits db \<Longrightarrow> within_limits (snd (cleanup_expired b now db))"
  by (simp add: cleanup_expired_def within_limits_filter)

datatype offline_op =
    Save save_faults time user_id bytes
  | Fetch fetch_fault time user_id
  | Cleanup bool time

fun offline_step :: "offline_db \<Rightarrow> offline_op \<Rightarrow> offline_db" where
  "offline_step db (Save f now u p) = snd (save f now u p db)"
| "offline_step db (Fetch f now u) = snd (fetch_and_delete f now u db)"
| "offline_step db (Cleanup b now) = snd (cleanup_expired b now db)"

text \<open>The table's counter never runs backwards, so no id is handed out twice.\<close>

interpretation offline: ranked_machine offline_step ids_ok om_next
proof
  fix s :: offline_db and e assume ok: "ids_ok s"
  then show "ids_ok (offline_step s e)" by (cases e) (simp_all add: inv_intros)
  show "om_next s \<le> om_next (offline_step s e)"
    by (cases e) (auto simp: save_def make_room_def insert_row_def Let_def fetch_and_delete_def
        cleanup_expired_def split: fetch_fault.splits)
qed

text \<open>Operations whose counting statements do not throw.\<close>

fun counts_work :: "offline_op \<Rightarrow> bool" where
  "counts_work (Save f now u p) \<longleftrightarrow> \<not> user_count_fails f \<and> \<not> evict_fails f"
| "counts_work _ \<longleftrightarrow> True"

text \<open>
  The queue never outgrows its limits: whatever operations are performed on it, as long as the
  counting queries work, there are at most 100 messages for a user and 100000 in all.
\<close>

theorem offline_limits_kept:
  assumes "within_limits db" and "\<forall>e \<in> set es. counts_work e"
  shows "within_limits (foldl offline_step db es)"
  using assms
proof (induction es arbitrary: db)
  case (Cons e es)
  then have "within_limits (offline_step db e)" by (cases e) (simp_all add: inv_intros)
  with Cons show ?case by simp
qed simp

theorem offline_limits_kept_witness:
  "within_limits (foldl offline_step empty_offline
     [Save no_save_faults 0 ''bob'' [1], Fetch Delete_Fails 5 ''bob'', Cleanup False 700000])"
  by (rule offline_limits_kept)
    (simp_all add: within_limits_def empty_offline_def user_rows_def no_save_faults_def)

section \<open>The queue as a mailbox\<close>

text \<open>What user \<open>u\<close> would be handed at time \<open>now\<close>.\<close>

definition pending :: "time \<Rightarrow> user_id \<Rightarrow> offline_db \<Rightarrow> bytes list" where
  "pending now u db = map om_payload (filter (\<lambda>r. om_expires_at r > now) (user_rows u db))"

definition save_at :: "save_faults \<times> time \<Rightarrow> user_id \<Rightarrow> bytes \<Rightarrow> offline_db \<Rightarrow> bool \<times> offline_db" where
  "save_at e u p db = save (fst e) (snd e) u p db"

definition save_live :: "save_faults \<times> time \<Rightarrow> time \<Rightarrow> bool" where
  "save_live e now \<longleftrightarrow> now < snd e + kTtlSeconds"

definition free_rows :: "offline_db \<Rightarrow> nat" where
  "free_rows db = kMaxTotalMessages - length (om_rows db)"

lemma pending_insert:
  "pending now v (insert_row t u p db) =
     pending now v db @ (if u = v \<and> now < t + kTtlSeconds then [p] else [])"
  by (auto simp: pending_def user_rows_insert)

text \<open>Evicting the oldest row takes at most the front of somebody's box.\<close>

lemma drop_min_front:
  "sorted_wrt (<) (map om_id rows) \<Longrightarrow> drop_oldest rows = tl rows"
proof (cases rows)
  case (Cons r rs)
  assume sorted: "sorted_wrt (<) (map om_id rows)"
  have "Min (om_id ` set rows) = om_id r"
    by (rule Min_eqI) (use sorted Cons in \<open>auto simp: less_imp_le\<close>)
  moreover have "filter (\<lambda>x. om_id x \<noteq> om_id r) rs = rs"
    using sorted Cons by (auto simp: filter_id_conv)
  ultimately show ?thesis by (simp add: drop_oldest_def Cons)
qed (simp add: drop_oldest_def)

lemma suffix_filter_tl: "suffix (filter P (tl xs)) (filter P xs)"
  by (cases xs) (auto simp: suffix_def)

lemma pending_make_room:
  assumes "ids_ok db"
  shows "suffix (pending now u (make_room b db)) (pending now u db)"
proof -
  have "suffix (filter Q (filter P (tl rows))) (filter Q (filter P rows))" for P Q and rows :: "offline_row list"
    using suffix_filter_tl [of "\<lambda>r. P r \<and> Q r" rows] by simp
  then show ?thesis
    using assms by (auto simp: pending_def make_room_def user_rows_def drop_min_front ids_ok_def
        intro!: map_mono_suffix)
qed

lemma make_room_idle: "0 < free_rows db \<Longrightarrow> make_room b db = db"
  by (simp add: make_room_def free_rows_def)

lemma free_rows_save: "free_rows db \<le> Suc (free_rows (snd (save f now u p db)))"
  using length_filter_le [of "\<lambda>r. om_id r \<noteq> Min (om_id ` set (om_rows db))" "om_rows db"]
  by (auto simp: free_rows_def save_def Let_def make_room_def insert_row_def drop_oldest_def)

lemma ids_sorted: "ids_ok db \<Longrightarrow> sort_key om_id (filter P (om_rows db)) = filter P (om_rows db)"
  by (rule sort_key_id_if_sorted)
    (auto simp: ids_ok_def intro!: sorted_wrt_map_filter elim!: sorted_wrt_mono_rel [rotated])

lemma fetch_all:
  "ids_ok db \<Longrightarrow> fst (fetch_and_delete No_Fault now u db) = pending now u db"
  by (simp add: fetch_and_delete_def ids_sorted pending_def user_rows_def conj_commute)

lemma fetch_pending:
  "pending now' v (snd (fetch_and_delete No_Fault now u db)) =
     (if u = v then [] else pending now' v db)"
  by (auto simp: fetch_and_delete_def pending_def user_rows_def filter_empty_conv
      intro!: arg_cong [where f = "map om_payload"] filter_cong)

interpretation offline: roomy_mailbox save_at "fetch_and_delete No_Fault" pending save_live ids_ok
  free_rows
proof
  fix db :: offline_db and e :: "save_faults \<times> time" and u v :: user_id and p now now'
  assume ok: "ids_ok db"
  show "ids_ok (snd (save_at e u p db))" using ok by (simp add: save_at_def ids_ok_save)
  show "suffix (pending now v (snd (save_at e u p db)))
      (pending now v db @ (if fst (save_at e u p db) \<and> u = v \<and> save_live e now then [p] else []))"
    using pending_make_room [OF ok, of now v "evict_fails (fst e)"]
    by (auto simp: save_at_def save_def save_live_def Let_def pending_insert suffix_append_same)
  show "fst (save_at e u p db) \<Longrightarrow> save_live e now \<Longrightarrow>
      suffix [p] (pending now u (snd (save_at e u p db)))"
    by (auto simp: save_at_def save_def save_live_def Let_def pending_insert suffix_def split: if_splits)
  show "fst (fetch_and_delete No_Fault now u db) = pending now u db"
    using ok by (rule fetch_all)
  show "pending now' u (snd (fetch_and_delete No_Fault now u db)) = []"
    by (simp add: fetch_pending)
  show "u \<noteq> v \<Longrightarrow> pending now' v (snd (fetch_and_delete No_Fault now u db)) = pending now' v db"
    by (simp add: fetch_pending)
  show "free_rows db \<le> Suc (free_rows (snd (save_at e u p db)))"
    by (simp add: save_at_def free_rows_save)
  show "0 < free_rows db \<Longrightarrow> pending now v (snd (save_at e u p db)) =
      pending now v db @ (if fst (save_at e u p db) \<and> u = v \<and> save_live e now then [p] else [])"
    by (auto simp: save_at_def save_def save_live_def Let_def pending_insert make_room_idle)
qed

text \<open>
  C21: Offline delivery is first in, first out: after any sequence of saves for any users, what
  \<open>fetch_and_delete\<close> hands to a user is, in the order of saving, a suffix of what was pending
  followed by the accepted messages that have not expired; as long as the table has room for the
  saves it is all of them.
\<close>

theorem offline_delivery_fifo:
  assumes "ids_ok db"
  shows "suffix (fst (fetch_and_delete No_Fault now u (snd (post_all save_at ps db))))
           (pending now u db @ posted_for save_live now u (fst (post_all save_at ps db))) \<and>
         (length ps \<le> free_rows db \<longrightarrow>
           fst (fetch_and_delete No_Fault now u (snd (post_all save_at ps db))) =
             pending now u db @ posted_for save_live now u (fst (post_all save_at ps db)))"
  using offline.collect_after_posts [OF assms] offline.collect_lossless [OF assms] by blast

theorem offline_delivery_fifo_witness:
  "fst (fetch_and_delete No_Fault 10 ''bob'' (snd (post_all save_at
     [((no_save_faults, 1), ''bob'', [7]), ((no_save_faults, 2), ''eve'', [8]),
      ((no_save_faults, 3), ''bob'', [9])] empty_offline))) = [[7], [9]]"
proof -
  have "ids_ok empty_offline" by (rule ids_ok_empty)
  from offline_delivery_fifo [OF this, of 10 "''bob''"
      "[((no_save_faults, 1), ''bob'', [7]), ((no_save_faults, 2), ''eve'', [8]),
        ((no_save_faults, 3), ''bob'', [9])]"]
  show ?thesis
    by (simp add: free_rows_def empty_offline_def kMaxTotalMessages_def save_at_def save_def
        no_save_faults_def kMaxMessagesPerUser_def make_room_def insert_row_def save_live_def
        kTtlSeconds_def pending_def user_rows_def)
qed

text \<open>
  C22: Delivery survives a database error: whichever statement of \<open>fetch_and_delete\<close> throws, every
  message that was due is handed over now or still in the table, and the other users' boxes are
  untouched.  When the deletion throws a message can be delivered twice, never lost.
\<close>

theorem fetch_loses_nothing:
  assumes "ids_ok db"
  shows "set (pending now u db) \<subseteq>
           set (fst (fetch_and_delete f now u db)) \<union>
           set (pending now u (snd (fetch_and_delete f now u db))) \<and>
         (u \<noteq> v \<longrightarrow> pending now v (snd (fetch_and_delete f now u db)) = pending now v db)"
  using fetch_all [OF assms, of now u] fetch_pending [of now u now u db]
    fetch_pending [of now v now u db]
  by (cases f) (auto simp: fetch_and_delete_def)

theorem fetch_loses_nothing_witness:
  "set (pending 2 ''bob'' (insert_row 1 ''bob'' [7] empty_offline)) \<subseteq>
     set (fst (fetch_and_delete (Select_Fails 0) 2 ''bob'' (insert_row 1 ''bob'' [7] empty_offline))) \<union>
     set (pending 2 ''bob''
       (snd (fetch_and_delete (Select_Fails 0) 2 ''bob'' (insert_row 1 ''bob'' [7] empty_offline)))) \<and>
   pending 2 ''bob'' (insert_row 1 ''bob'' [7] empty_offline) = [[7]]"
proof -
  have "ids_ok (insert_row 1 ''bob'' [7] empty_offline)" by (simp add: inv_intros)
  from fetch_loses_nothing [OF this, of 2 "''bob''" "Select_Fails 0"]
  show ?thesis
    by (simp add: pending_insert) (simp add: pending_def user_rows_def empty_offline_def kTtlSeconds_def)
qed

end
