(* ===== verification/Rate_Limiter.thy ===== *)
theory Rate_Limiter
  imports Prelude
begin

text \<open>
  The fixed-window rate limiter of \<open>src/net/rate_limiter.hpp\<close>.  The clock reading that the code
  takes from \<open>steady_clock::now()\<close> is the argument \<open>now\<close>, in nanoseconds.  The main result bounds
  what a caller can get through in any interval of one window's length, wherever it lies.
\<close>

record rate_limiter =
  max_tokens :: int
  window :: time
  window_start :: time
  count :: int

definition seconds :: "int \<Rightarrow> time" where
  "seconds n = n * 1000000000"

definition minutes :: "int \<Rightarrow> time" where
  "minutes n = 60 * seconds n"

definition new_rate_limiter :: "int \<Rightarrow> time \<Rightarrow> time \<Rightarrow> rate_limiter" where
  "new_rate_limiter tokens w now =
     \<lparr>max_tokens = tokens, window = w, window_start = now, count = 0\<rparr>"

definition allow :: "time \<Rightarrow> rate_limiter \<Rightarrow> bool \<times> rate_limiter" where
  "allow now rl =
     (let rl = (if now - window_start rl \<ge> window rl
                then rl\<lparr>window_start := now, count := 0\<rparr> else rl)
      in if count rl \<ge> max_tokens rl then (False, rl)
         else (True, rl\<lparr>count := count rl + 1\<rparr>))"

definition reset :: "time \<Rightarrow> rate_limiter \<Rightarrow> rate_limiter" where
  "reset now rl = rl\<lparr>count := 0, window_start := now\<rparr>"

section \<open>The invariant\<close>

text \<open>A limiter with a sensible configuration has used between none and all of its tokens.\<close>

definition limiter_ok :: "rate_limiter \<Rightarrow> bool" where
  "limiter_ok rl \<longleftrightarrow> 0 < window rl \<and> 0 \<le> max_tokens rl \<and> 0 \<le> count rl \<and> count rl \<le> max_tokens rl"

lemma allow_frame [frame_simps]:
  "max_tokens (snd (allow now rl)) = max_tokens rl" "window (snd (allow now rl)) = window rl"
  by (simp_all add: allow_def Let_def)

lemma limiter_ok_allow [inv_intros]: "limiter_ok rl \<Longrightarrow> limiter_ok (snd (allow now rl))"
  by (auto simp: limiter_ok_def allow_def Let_def)

lemma limiter_ok_new [inv_intros]:
  "0 < w \<Longrightarrow> 0 \<le> m \<Longrightarrow> limiter_ok (new_rate_limiter m w now)"
  by (simp add: limiter_ok_def new_rate_limiter_def)

lemma limiter_ok_reset [inv_intros]: "limiter_ok rl \<Longrightarrow> limiter_ok (reset now rl)"
  by (simp add: limiter_ok_def reset_def)

datatype limiter_op = Allow time | Reset time

fun limiter_step :: "rate_limiter \<Rightarrow> limiter_op \<Rightarrow> rate_limiter" where
  "limiter_step rl (Allow now) = snd (allow now rl)"
| "limiter_step rl (Reset now) = reset now rl"

interpretation limiter: invariant_machine limiter_step limiter_ok
proof
  fix s e assume "limiter_ok s"
  then show "limiter_ok (limiter_step s e)"
    by (cases e) (simp_all add: inv_intros)
qed

section \<open>Bursts\<close>

text \<open>
  The contract a caller relies on: \<open>attempt\<close> grants or refuses a request at a time, and of the
  requests made in time order, the grants that fall into one interval of length \<open>span\<close> are bounded.
  \<open>grants\<close> lists the times at which a sequence of attempts was granted.
\<close>

fun grants :: "(time \<Rightarrow> 'l \<Rightarrow> bool \<times> 'l) \<Rightarrow> 'l \<Rightarrow> time list \<Rightarrow> time list" where
  "grants attempt l [] = []"
| "grants attempt l (t # ts) =
     (case attempt t l of (ok, l') \<Rightarrow> (if ok then [t] else []) @ grants attempt l' ts)"

definition in_span :: "time \<Rightarrow> time \<Rightarrow> time list \<Rightarrow> nat" where
  "in_span t w ts = length (filter (\<lambda>u. t \<le> u \<and> u < t + w) ts)"

lemma in_span_simps [simp]:
  "in_span t w [] = 0"
  "in_span t w (u # us) = (if t \<le> u \<and> u < t + w then 1 else 0) + in_span t w us"
  by (simp_all add: in_span_def)

lemma in_span_append [simp]: "in_span t w (us @ vs) = in_span t w us + in_span t w vs"
  by (simp add: in_span_def)

lemma in_span_zero: "\<forall>u \<in> set us. t + w \<le> u \<Longrightarrow> in_span t w us = 0"
  by (induction us) auto

lemma grants_subset: "set (grants attempt l ts) \<subseteq> set ts"
proof (induction ts arbitrary: l)
  case (Cons t ts)
  then show ?case by (cases "attempt t l") fastforce
qed simp

locale throttle =
  fixes attempt :: "time \<Rightarrow> 'l \<Rightarrow> bool \<times> 'l"
    and limit :: "'l \<Rightarrow> nat"
    and span :: "'l \<Rightarrow> time"
    and ready :: "time \<Rightarrow> 'l \<Rightarrow> bool"
  assumes burst: "ready now l \<Longrightarrow> sorted (now # ts) \<Longrightarrow>
      in_span t (span l) (grants attempt l ts) \<le> 2 * limit l"
    and span_pos: "ready now l \<Longrightarrow> 0 < span l"
begin

text \<open>Over a longer stretch of \<open>k\<close> spans the grants add up linearly.\<close>

lemma in_span_split:
  "0 \<le> w \<Longrightarrow> 0 \<le> v \<Longrightarrow> in_span t (w + v) us = in_span t w us + in_span (t + w) v us"
  by (induction us) auto

lemma burst_linear:
  assumes "ready now l" and "sorted (now # ts)"
  shows "in_span t (of_nat k * span l) (grants attempt l ts) \<le> 2 * k * limit l"
proof (induction k arbitrary: t)
  case 0
  show ?case by (simp add: in_span_def)
next
  case (Suc k)
  have "of_nat (Suc k) * span l = span l + of_nat k * span l" by (simp add: algebra_simps)
  then have "in_span t (of_nat (Suc k) * span l) (grants attempt l ts) =
      in_span t (span l) (grants attempt l ts) +
      in_span (t + span l) (of_nat k * span l) (grants attempt l ts)"
    using span_pos [OF assms(1)] by (simp add: in_span_split)
  also have "\<dots> \<le> 2 * limit l + 2 * k * limit l"
    using burst [OF assms] Suc.IH by (rule add_mono)
  finally show ?case by simp
qed

end

text \<open>
  The bounds for a run that starts with \<open>count\<close> tokens used in the current window: before the
  window's start only the tokens left count, inside it those and one more window's worth.
\<close>

lemma burst_bounds:
  assumes "limiter_ok rl" and "sorted (window_start rl # ts)"
  shows "(t \<le> window_start rl \<longrightarrow>
           int (in_span t (window rl) (grants allow rl ts)) \<le> max_tokens rl - count rl) \<and>
         (t < window_start rl + window rl \<longrightarrow>
           int (in_span t (window rl) (grants allow rl ts)) \<le> 2 * max_tokens rl - count rl) \<and>
         int (in_span t (window rl) (grants allow rl ts)) \<le> 2 * max_tokens rl"
  using assms
proof (induction ts arbitrary: rl)
  case Nil
  then show ?case by (auto simp: limiter_ok_def)
next
  case (Cons now ts)
  obtain ok rl' where a: "allow now rl = (ok, rl')" by fastforce
  have frame: "max_tokens rl' = max_tokens rl" "window rl' = window rl"
    using allow_frame [of now rl] by (simp_all add: a)
  have ok': "limiter_ok rl'" using limiter_ok_allow [OF Cons.prems(1), of now] by (simp add: a)
  have later: "sorted (now # ts)" "window_start rl \<le> now" using Cons.prems(2) by auto
  have start': "window_start rl' = (if now - window_start rl \<ge> window rl then now else window_start rl)"
    using a by (auto simp: allow_def Let_def split: if_splits)
  then have sorted': "sorted (window_start rl' # ts)" using Cons.prems(2) by auto
  have count': "count rl' =
      (if now - window_start rl \<ge> window rl then 0 else count rl) + (if ok then 1 else 0)"
    using a by (auto simp: allow_def Let_def split: if_splits)
  have none: "in_span t (window rl) (grants allow rl' ts) = 0" if "t + window rl \<le> now"
  proof (rule in_span_zero)
    show "\<forall>u \<in> set (grants allow rl' ts). t + window rl \<le> u"
      using that later(1) grants_subset [of allow rl' ts] by fastforce
  qed
  note IH = Cons.IH [OF ok' sorted', unfolded frame]
  note inv = Cons.prems(1) [unfolded limiter_ok_def] ok' [unfolded limiter_ok_def frame]
  show ?case
    using IH inv none later(2) start' count' by (auto simp: a split: if_splits)
qed

lemma allow_ready_mono:
  "limiter_ok rl \<Longrightarrow> sorted (now # ts) \<Longrightarrow> window_start rl \<le> now \<Longrightarrow> sorted (window_start rl # ts)"
  by auto

interpretation limiter: throttle allow "\<lambda>rl. nat (max_tokens rl)" window
  "\<lambda>now rl. limiter_ok rl \<and> window_start rl \<le> now"
proof
  fix now l ts t
  assume ready: "limiter_ok l \<and> window_start l \<le> now" and sorted: "sorted (now # ts)"
  then have "int (in_span t (window l) (grants allow l ts)) \<le> 2 * max_tokens l"
    using burst_bounds [of l ts t] allow_ready_mono [of l now ts] by blast
  then show "in_span t (window l) (grants allow l ts) \<le> 2 * nat (max_tokens l)"
    using ready by (simp add: limiter_ok_def)
qed (simp add: limiter_ok_def)

text \<open>
  C23: No burst gets past the limiter: of requests made in time order, at most twice the configured
  number is granted in any interval of one window's length, wherever the interval starts, and the
  grants over \<open>k\<close> such lengths are at most \<open>2 * k\<close> times that number.
\<close>

theorem limiter_burst_bound:
  assumes "limiter_ok rl" and "window_start rl \<le> now" and "sorted (now # ts)"
  shows "in_span t (of_nat k * window rl) (grants allow rl ts) \<le> 2 * k * nat (max_tokens rl)"
  by (rule limiter.burst_linear [of rl now]) (use assms in auto)

theorem limiter_burst_bound_witness:
  "in_span 5 (of_nat 1 * 10) (grants allow (new_rate_limiter 2 10 0) [0, 8, 9, 9, 10, 11, 12]) \<le> 2 * 1 * nat 2 \<and>
   in_span 5 (of_nat 1 * 10) (grants allow (new_rate_limiter 2 10 0) [0, 8, 9, 9, 10, 11, 12]) = 3"
proof
  show "in_span 5 (of_nat 1 * 10) (grants allow (new_rate_limiter 2 10 0) [0, 8, 9, 9, 10, 11, 12]) \<le> 2 * 1 * nat 2"
    using limiter_burst_bound [of "new_rate_limiter 2 10 0" 0 "[0, 8, 9, 9, 10, 11, 12]" 5 1]
    by (simp add: limiter_ok_def new_rate_limiter_def)
  show "in_span 5 (of_nat 1 * 10) (grants allow (new_rate_limiter 2 10 0) [0, 8, 9, 9, 10, 11, 12]) = 3"
    by (simp add: allow_def new_rate_limiter_def Let_def)
qed

text \<open>
  A limiter whose configured number is negative refuses everything for good, whatever the clock.
\<close>

lemma negative_limiter_refuses:
  "max_tokens rl < 0 \<Longrightarrow> 0 \<le> count rl \<Longrightarrow> \<not> fst (allow now rl) \<and> 0 \<le> count (snd (allow now rl))"
  by (auto simp: allow_def Let_def)

end
