(* ===== verification/Virus_Scanner.thy ===== *)
theory Virus_Scanner
  imports Prelude
begin

text \<open>
  The virus scanner of \<open>src/security/virus_scanner.cpp\<close>: the client of the ClamAV daemon, which is a
  stub on every platform, and the manager the server asks, with its statistics.
\<close>

record scan_result =
  sr_clean :: bool
  sr_error :: bool
  sr_virus_name :: string
  sr_error_message :: string
  sr_scan_time :: time

definition default_scan_result :: scan_result where
  "default_scan_result = \<lparr>sr_clean = False, sr_error = False, sr_virus_name = [],
     sr_error_message = [], sr_scan_time = 0\<rparr>"

datatype virus_scanner = Unix_Scanner string | Tcp_Scanner string "16 word"

definition scanner_is_available :: "virus_scanner \<Rightarrow> bool" where
  "scanner_is_available vs = False"

definition scanner_scan :: "virus_scanner \<Rightarrow> bytes \<Rightarrow> scan_result" where
  "scanner_scan vs data = default_scan_result\<lparr>sr_error := True,
     sr_error_message := ''Virus scanner not implemented on this platform''\<rparr>"

text \<open>The rest of the client, which talks to no daemon either: -1 is the socket that could not be opened.\<close>

definition scanner_ping :: "virus_scanner \<Rightarrow> bool" where
  "scanner_ping vs = False"

definition get_version :: "virus_scanner \<Rightarrow> string option" where
  "get_version vs = None"

definition parse_scan_result :: "string \<Rightarrow> scan_result" where
  "parse_scan_result response = default_scan_result\<lparr>sr_error := True, sr_error_message := ''Not implemented''\<rparr>"

definition connect_to_daemon :: "virus_scanner \<Rightarrow> int" where
  "connect_to_daemon vs = -1"

definition set_socket_timeout :: "int \<Rightarrow> time \<Rightarrow> bool" where
  "set_socket_timeout sock timeout = False"

definition send_clamd_command :: "virus_scanner \<Rightarrow> string \<Rightarrow> string option" where
  "send_clamd_command vs cmd = None"

definition send_instream :: "virus_scanner \<Rightarrow> bytes \<Rightarrow> string option" where
  "send_instream vs data = None"

record scan_stats =
  files_scanned :: "64 word"
  threats_found :: "64 word"
  scan_errors :: "64 word"
  total_scan_time :: time

definition no_stats :: scan_stats where
  "no_stats = \<lparr>files_scanned = 0, threats_found = 0, scan_errors = 0, total_scan_time = 0\<rparr>"

record scanner_manager =
  vm_scanner :: "virus_scanner option"
  vm_enabled :: bool
  vm_available :: bool
  vm_stats :: scan_stats

definition new_scanner_manager :: scanner_manager where
  "new_scanner_manager =
     \<lparr>vm_scanner = None, vm_enabled = True, vm_available = False, vm_stats = no_stats\<rparr>"

definition initialize_scanner :: "virus_scanner \<Rightarrow> scanner_manager \<Rightarrow> bool \<times> scanner_manager" where
  "initialize_scanner vs m =
     (let av = scanner_is_available vs in (av, m\<lparr>vm_scanner := Some vs, vm_available := av\<rparr>))"

definition set_scanner_enabled :: "bool \<Rightarrow> scanner_manager \<Rightarrow> scanner_manager" where
  "set_scanner_enabled b m = m\<lparr>vm_enabled := b\<rparr>"

definition reset_scan_stats :: "scanner_manager \<Rightarrow> scanner_manager" where
  "reset_scan_stats m = m\<lparr>vm_stats := no_stats\<rparr>"

definition manager_is_available :: "scanner_manager \<Rightarrow> bool" where
  "manager_is_available m \<longleftrightarrow> vm_enabled m \<and> vm_available m"

text \<open>A null scanner that is available would be dereferenced; \<open>initialize\<close> is the only writer of both.\<close>

definition manager_scan :: "bytes \<Rightarrow> scanner_manager \<Rightarrow> scan_result \<times> scanner_manager" where
  "manager_scan data m =
     (if \<not> manager_is_available m then (default_scan_result\<lparr>sr_clean := True\<rparr>, m)
      else
        let r = scanner_scan (the (vm_scanner m)) data; s = vm_stats m
        in (r, m\<lparr>vm_stats := s\<lparr>files_scanned := files_scanned s + 1,
                  total_scan_time := total_scan_time s + sr_scan_time r,
                  threats_found := (if \<not> sr_clean r \<and> \<not> sr_error r then threats_found s + 1
                                    else threats_found s),
                  scan_errors := (if sr_error r then scan_errors s + 1 else scan_errors s)\<rparr>\<rparr>))"

datatype scanner_op = Init_Scanner virus_scanner | Enable_Scanner bool | Reset_Stats | Scan bytes

fun scanner_step :: "scanner_manager \<Rightarrow> scanner_op \<Rightarrow> scanner_manager" where
  "scanner_step m (Init_Scanner vs) = snd (initialize_scanner vs m)"
| "scanner_step m (Enable_Scanner b) = set_scanner_enabled b m"
| "scanner_step m Reset_Stats = reset_scan_stats m"
| "scanner_step m (Scan d) = snd (manager_scan d m)"

definition scanner_off :: "scanner_manager \<Rightarrow> bool" where
  "scanner_off m \<longleftrightarrow> \<not> vm_available m \<and> vm_stats m = no_stats"

lemma scan_when_off: "scanner_off m \<Longrightarrow> manager_scan d m = (default_scan_result\<lparr>sr_clean := True\<rparr>, m)"
  by (simp add: scanner_off_def manager_scan_def manager_is_available_def)

interpretation scanner: invariant_machine scanner_step scanner_off
proof
  fix m e assume "scanner_off m"
  then show "scanner_off (scanner_step m e)"
    by (cases e) (auto simp: scan_when_off initialize_scanner_def scanner_is_available_def
        set_scanner_enabled_def reset_scan_stats_def scanner_off_def)
qed

lemma new_manager_off [inv_intros]: "scanner_off new_scanner_manager"
  by (simp add: scanner_off_def new_scanner_manager_def)

text \<open>
  However the scanner is configured, enabled and used, every file is reported clean, without an
  error, and no file is ever counted as scanned: the daemon is never contacted.
\<close>

theorem nothing_is_scanned:
  "let m = foldl scanner_step new_scanner_manager ops
   in fst (manager_scan d m) = default_scan_result\<lparr>sr_clean := True\<rparr> \<and> files_scanned (vm_stats m) = 0"
proof -
  have "scanner_off (foldl scanner_step new_scanner_manager ops)"
    by (rule scanner.inv_run) (rule new_manager_off)
  then show ?thesis by (simp add: scan_when_off scanner_off_def no_stats_def Let_def)
qed

end
