(* ===== verification/Names.thy ===== *)
theory Names
  imports Prelude
begin

text \<open>
  The naming rules shared by the handlers: channel names (\<open>src/utils/channel_utils.hpp\<close>) and
  nicknames (\<open>src/utils/nickname_utils.hpp\<close>).  The scan of \<open>sanitize_channel_name\<close> keeps its
  two flags and its result buffer as arguments; \<open>sanitize_spec\<close> is what it computes.
\<close>

section \<open>Channel names\<close>

definition is_channel_prefix :: "char \<Rightarrow> bool" where
  "is_channel_prefix c \<longleftrightarrow> c = CHR ''#'' \<or> c = CHR ''&'' \<or> c = CHR ''!'' \<or> c = CHR ''+''"

definition is_valid_channel_char :: "char \<Rightarrow> bool" where
  "is_valid_channel_char c \<longleftrightarrow>
     (if is_alnum c then True
      else c \<in> {CHR ''-'', CHR ''_'', CHR ''['', CHR '']'', CHR ''{'', CHR ''}'',
                CHR ''^'', CHR 0x60, CHR ''|'', CHR ''~''})"

text \<open>The loop over the input: \<open>has_prefix\<close>, \<open>prefix_added\<close> and the buffer \<open>result\<close>.\<close>

fun sanitize_loop :: "bool \<Rightarrow> bool \<Rightarrow> string \<Rightarrow> string \<Rightarrow> bool \<times> string" where
  "sanitize_loop has_prefix prefix_added result [] = (has_prefix, result)"
| "sanitize_loop has_prefix prefix_added result (c # cs) =
     (if \<not> prefix_added \<and> is_space c then sanitize_loop has_prefix prefix_added result cs
      else if is_channel_prefix c then
        (if \<not> has_prefix then sanitize_loop True True (result @ ''#'') cs
         else sanitize_loop has_prefix prefix_added result cs)
      else if \<not> is_valid_channel_char c then sanitize_loop has_prefix True result cs
      else sanitize_loop has_prefix True (result @ [c]) cs)"

definition sanitize_channel_name :: "string \<Rightarrow> string" where
  "sanitize_channel_name input =
     (if input = [] then ''#''
      else
        let (has_prefix, result) = sanitize_loop False False [] input;
            result = (if \<not> has_prefix then CHR ''#'' # result else result)
        in if result = ''#'' then ''#'' else result)"

definition is_valid_channel_name :: "string \<Rightarrow> bool" where
  "is_valid_channel_name channel \<longleftrightarrow>
     (case channel of [] \<Rightarrow> False
      | c # cs \<Rightarrow> if \<not> is_channel_prefix c then False else length channel > 1)"

text \<open>
  What the scan computes.  The canonical \<open>#\<close> stands where the first prefix character stood, or in
  front when there was none: everything before the first prefix character is kept in front of it.
\<close>

definition sanitize_spec :: "string \<Rightarrow> string" where
  "sanitize_spec s =
     (let before = takeWhile (\<lambda>c. \<not> is_channel_prefix c) s;
          after = dropWhile (\<lambda>c. \<not> is_channel_prefix c) s
      in if after = [] then CHR ''#'' # filter is_valid_channel_char s
         else filter is_valid_channel_char before @ ''#'' @ filter is_valid_channel_char after)"

lemma prefix_not_valid: "is_channel_prefix c \<Longrightarrow> \<not> is_valid_channel_char c"
  by (auto simp: is_channel_prefix_def is_valid_channel_char_def ctype_simps)

lemma space_not_valid: "is_space c \<Longrightarrow> \<not> is_valid_channel_char c \<and> \<not> is_channel_prefix c"
  by (auto simp: is_space_def is_channel_prefix_def is_valid_channel_char_def is_alnum_def
      is_upper_code is_lower_code is_digit_code char_le_iff)

lemma hash_simps [simp]: "is_channel_prefix (CHR ''#'')" "\<not> is_valid_channel_char (CHR ''#'')"
  by (simp_all add: is_channel_prefix_def prefix_not_valid)

lemma sanitize_loop_prefixed:
  "sanitize_loop True added result cs = (True, result @ filter is_valid_channel_char cs)"
  by (induction cs arbitrary: added result) (auto simp: prefix_not_valid space_not_valid)

lemma sanitize_loop_unprefixed:
  "sanitize_loop False added result cs =
     (if \<exists>c \<in> set cs. is_channel_prefix c
      then (True, result @ filter is_valid_channel_char (takeWhile (\<lambda>c. \<not> is_channel_prefix c) cs)
                  @ ''#'' @ filter is_valid_channel_char (dropWhile (\<lambda>c. \<not> is_channel_prefix c) cs))
      else (False, result @ filter is_valid_channel_char cs))"
proof (induction cs arbitrary: added result)
  case Nil
  show ?case by simp
next
  case (Cons c cs)
  show ?case
  proof (cases "is_channel_prefix c")
    case True
    then have "\<not> is_space c" using space_not_valid by blast
    with True show ?thesis by (simp add: sanitize_loop_prefixed prefix_not_valid)
  next
    case False
    then show ?thesis using space_not_valid [of c] by (simp add: Cons.IH)
  qed
qed

lemma sanitize_eq_spec: "sanitize_channel_name s = sanitize_spec s"
  by (auto simp: sanitize_channel_name_def sanitize_spec_def sanitize_loop_unprefixed Let_def
      dropWhile_eq_Nil_conv)

lemma valid_not_prefix: "is_valid_channel_char c \<Longrightarrow> \<not> is_channel_prefix c"
  using prefix_not_valid by blast

lemma sanitize_spec_canonical:
  assumes "\<forall>c \<in> set u. is_valid_channel_char c" and "\<forall>c \<in> set v. is_valid_channel_char c"
  shows "sanitize_spec (u @ CHR ''#'' # v) = u @ CHR ''#'' # v"
proof -
  have "takeWhile (\<lambda>c. \<not> is_channel_prefix c) (u @ CHR ''#'' # v) = u"
    "dropWhile (\<lambda>c. \<not> is_channel_prefix c) (u @ CHR ''#'' # v) = CHR ''#'' # v"
    using assms by (simp_all add: valid_not_prefix takeWhile_append dropWhile_append)
  then show ?thesis
    using assms by (simp add: sanitize_spec_def filter_id_conv)
qed

lemma sanitize_shape:
  obtains u v where "sanitize_channel_name s = u @ CHR ''#'' # v"
    "\<forall>c \<in> set u. is_valid_channel_char c" "\<forall>c \<in> set v. is_valid_channel_char c"
proof (cases "dropWhile (\<lambda>c. \<not> is_channel_prefix c) s = []")
  case True
  show thesis
    by (rule that [of "[]" "filter is_valid_channel_char s"])
      (use True in \<open>auto simp: sanitize_eq_spec sanitize_spec_def\<close>)
next
  case False
  show thesis
    by (rule that [of "filter is_valid_channel_char (takeWhile (\<lambda>c. \<not> is_channel_prefix c) s)"
          "filter is_valid_channel_char (dropWhile (\<lambda>c. \<not> is_channel_prefix c) s)"])
      (use False in \<open>auto simp: sanitize_eq_spec sanitize_spec_def\<close>)
qed

text \<open>
  Sanitising a channel name is idempotent, whatever the input: the name a client gets back
  is a name it can send again.
\<close>

theorem sanitize_idempotent:
  "sanitize_channel_name (sanitize_channel_name s) = sanitize_channel_name s"
proof -
  obtain u v where "sanitize_channel_name s = u @ CHR ''#'' # v"
    "\<forall>c \<in> set u. is_valid_channel_char c" "\<forall>c \<in> set v. is_valid_channel_char c"
    by (rule sanitize_shape)
  then show ?thesis by (simp add: sanitize_eq_spec sanitize_spec_canonical)
qed

text \<open>
  Which raw names \<open>/join\<close> accepts: the sanitised name passes \<open>is_valid_channel_name\<close> exactly
  when the input has a valid character and either no prefix character at all or none of its valid
  characters in front of the first prefix character.
\<close>

theorem sanitized_name_accepted:
  "is_valid_channel_name (sanitize_channel_name s) =
     ((\<exists>c \<in> set s. is_valid_channel_char c) \<and>
      (filter is_channel_prefix s = [] \<or>
       filter is_valid_channel_char (takeWhile (\<lambda>c. \<not> is_channel_prefix c) s) = []))"
proof (cases "\<exists>c \<in> set s. is_channel_prefix c")
  case False
  then have no: "filter is_channel_prefix s = []" "dropWhile (\<lambda>c. \<not> is_channel_prefix c) s = []"
    by (auto simp: filter_empty_conv)
  then show ?thesis
    by (auto simp: is_valid_channel_name_def sanitize_eq_spec sanitize_spec_def filter_empty_conv)
next
  case True
  define u where "u = takeWhile (\<lambda>c. \<not> is_channel_prefix c) s"
  define v where "v = dropWhile (\<lambda>c. \<not> is_channel_prefix c) s"
  have s: "set s = set u \<union> set v" and v: "v \<noteq> []" and pre: "filter is_channel_prefix s \<noteq> []"
    using True set_append [of u v] by (auto simp: u_def v_def filter_empty_conv)
  have san: "sanitize_channel_name s =
      filter is_valid_channel_char u @ CHR ''#'' # filter is_valid_channel_char v"
    using True by (auto simp: sanitize_eq_spec sanitize_spec_def u_def v_def)
  show ?thesis
  proof (cases "filter is_valid_channel_char u")
    case Nil
    then show ?thesis
      using pre by (auto simp: is_valid_channel_name_def san s filter_empty_conv u_def [symmetric])
  next
    case (Cons c cs)
    then have "c \<in> set (filter is_valid_channel_char u)" by simp
    then have "\<not> is_channel_prefix c" by (simp add: valid_not_prefix)
    with Cons show ?thesis
      using pre by (simp add: is_valid_channel_name_def san u_def [symmetric])
  qed
qed

text \<open>
  A name whose only prefix character stands at its end is rejected: \<open>general!\<close> becomes
  \<open>general#\<close>, which does not start with a prefix.
\<close>

lemma sanitize_trailing_prefix:
  "sanitize_channel_name ''general!'' = ''general#'' \<and>
   \<not> is_valid_channel_name (sanitize_channel_name ''general!'')"
  by (simp add: sanitize_channel_name_def is_valid_channel_name_def is_channel_prefix_def
      is_valid_channel_char_def is_alnum_def is_upper_def is_lower_def is_digit_def is_space_def)

section \<open>Nicknames\<close>

definition normalize_nickname :: "string \<Rightarrow> string" where
  "normalize_nickname nick = map to_lower nick"

text \<open>The loop of \<open>nicknames_equal\<close> over two strings of the same length.\<close>

fun nicknames_equal_loop :: "string \<Rightarrow> string \<Rightarrow> bool" where
  "nicknames_equal_loop (x # a) (y # b) =
     (if to_lower x \<noteq> to_lower y then False else nicknames_equal_loop a b)"
| "nicknames_equal_loop _ _ = True"

definition nicknames_equal :: "string \<Rightarrow> string \<Rightarrow> bool" where
  "nicknames_equal a b = (if length a \<noteq> length b then False else nicknames_equal_loop a b)"

lemma nicknames_equal_loop_iff:
  "length a = length b \<Longrightarrow>
   nicknames_equal_loop a b = (normalize_nickname a = normalize_nickname b)"
  by (induction a b rule: list_induct2) (auto simp: normalize_nickname_def)

lemma nicknames_equal_iff:
  "nicknames_equal a b = (normalize_nickname a = normalize_nickname b)"
proof (cases "length a = length b")
  case True
  then show ?thesis by (simp add: nicknames_equal_def nicknames_equal_loop_iff)
next
  case False
  then have "normalize_nickname a \<noteq> normalize_nickname b"
    unfolding normalize_nickname_def by (metis length_map)
  with False show ?thesis by (simp add: nicknames_equal_def)
qed

text \<open>
  The two ways the code compares nicknames agree: \<open>nicknames_equal\<close> holds exactly when the
  normalised nicknames are the same string, so both define one equivalence on nicknames.
\<close>

theorem nicknames_equal_iff_normalized:
  "nicknames_equal a b = (normalize_nickname a = normalize_nickname b)"
  by (rule nicknames_equal_iff)

lemma normalize_nickname_idem [simp]:
  "normalize_nickname (normalize_nickname n) = normalize_nickname n"
  by (simp add: normalize_nickname_def comp_def)

text \<open>The loop counts \<open>i\<close> from 1 while \<open>i <= count\<close> and fewer than \<open>count\<close> are collected.\<close>

function suggestion_loop :: "string \<Rightarrow> nat \<Rightarrow> nat \<Rightarrow> string list \<Rightarrow> string list" where
  "suggestion_loop desired count i suggestions =
     (if i \<le> count \<and> length suggestions < count
      then suggestion_loop desired count (Suc i) (suggestions @ [desired @ show_nat i])
      else suggestions)"
  by pat_completeness auto
termination
  by (relation "measure (\<lambda>(desired, count, i, suggestions). Suc count - i)") auto

declare suggestion_loop.simps [simp del]

definition generate_nick_suggestions :: "string \<Rightarrow> nat \<Rightarrow> string list" where
  "generate_nick_suggestions desired count =
     (let suggestions = suggestion_loop desired count 1 []
      in if length suggestions < count then suggestions @ [desired @ ''_''] else suggestions)"

fun format_loop :: "nat \<Rightarrow> nat \<Rightarrow> string list \<Rightarrow> string \<Rightarrow> string" where
  "format_loop n i [] result = result"
| "format_loop n i (x # xs) result =
     format_loop n (Suc i) xs
       (result @ (if i > 0 then (if i = n - 1 then '', or '' else '', '') else []) @ x)"

definition format_nick_suggestions :: "string list \<Rightarrow> string" where
  "format_nick_suggestions suggestions =
     (if suggestions = [] then [] else format_loop (length suggestions) 0 suggestions '' Try: '')"

lemma suggestion_loop_eq:
  "length acc = i - 1 \<Longrightarrow> 1 \<le> i \<Longrightarrow>
   suggestion_loop d n i acc = acc @ map (\<lambda>k. d @ show_nat k) [i..<Suc n]"
proof (induction d n i acc rule: suggestion_loop.induct)
  case (1 d n i acc)
  show ?case
  proof (cases "i \<le> n")
    case True
    then have "suggestion_loop d n (Suc i) (acc @ [d @ show_nat i]) =
        (acc @ [d @ show_nat i]) @ map (\<lambda>k. d @ show_nat k) [Suc i..<Suc n]"
      using 1 by simp
    moreover have "[i..<Suc n] = i # [Suc i..<Suc n]"
      using True by (simp add: upt_rec)
    ultimately show ?thesis
      using True "1.prems" by (subst suggestion_loop.simps) simp
  next
    case False
    then show ?thesis by (subst suggestion_loop.simps) simp
  qed
qed

text \<open>
  Asked for \<open>count\<close> suggestions, the generator returns exactly \<open>desired1\<close> to \<open>desired<count>\<close>:
  that many, all different, none of them the taken nickname.
\<close>

theorem nick_suggestions_numbered:
  "generate_nick_suggestions d n = map (\<lambda>k. d @ show_nat k) [1..<Suc n] \<and>
   length (generate_nick_suggestions d n) = n \<and>
   distinct (generate_nick_suggestions d n) \<and> d \<notin> set (generate_nick_suggestions d n)"
proof -
  have "generate_nick_suggestions d n = map (\<lambda>k. d @ show_nat k) [1..<Suc n]"
    by (simp add: generate_nick_suggestions_def suggestion_loop_eq Let_def del: upt_Suc)
  then show ?thesis
    by (auto simp: distinct_map inj_on_def simp del: upt_Suc)
qed

end
