(* ===== verification/Server_State.thy ===== *)
theory Server_State
  imports Voice_Rooms File_Store User_Store Offline_Store Rate_Limiter Virus_Scanner Names
    "HOL-Library.Product_Lexorder"
begin

text \<open>
  The state of the running server: the connections of \<open>src/net/session.hpp\<close>, the registry and the
  limits of \<open>src/net/listener.hpp\<close>, the channels, nicknames and limits of
  \<open>src/commands/command_handler.hpp\<close>, the stores, and what is sent.

  A \<open>Session\<close> object is known by a number, as the code knows it by its address.  \<open>send\<close> starts an
  asynchronous write: \<open>sent\<close> is the list of the writes started, oldest first.  \<open>disconnect\<close> posts a
  closure to the session's strand: \<open>closing\<close> is the set of sessions with such a closure pending, and
  the event that runs it is a step of its own.
\<close>

section \<open>Connections\<close>

datatype session_state = Handshake | Hello | Auth_Pending | Established | Dead

text \<open>The enumeration's own numbering orders the states.\<close>

fun state_number :: "session_state \<Rightarrow> nat" where
  "state_number Handshake = 0"
| "state_number Hello = 1"
| "state_number Auth_Pending = 2"
| "state_number Established = 3"
| "state_number Dead = 4"

lemma state_number_inj [simp]: "state_number a = state_number b \<longleftrightarrow> a = b"
  by (cases a; cases b) simp_all

instantiation session_state :: linorder
begin

definition less_eq_session_state :: "session_state \<Rightarrow> session_state \<Rightarrow> bool" where
  "less_eq_session_state a b \<longleftrightarrow> state_number a \<le> state_number b"

definition less_session_state :: "session_state \<Rightarrow> session_state \<Rightarrow> bool" where
  "less_session_state a b \<longleftrightarrow> state_number a < state_number b"

instance
  by standard (auto simp: less_eq_session_state_def less_session_state_def)

end

lemma Dead_top [simp]: "s \<le> Dead" "Dead \<le> s \<longleftrightarrow> s = Dead"
  by (cases s; simp add: less_eq_session_state_def)+

lemma Handshake_bot [simp]: "Handshake \<le> s"
  by (simp add: less_eq_session_state_def)

record upload_state =
  up_file_size :: "64 word"
  up_chunk_size :: "32 word"
  up_total_chunks :: "32 word"
  up_received :: "bool list"
  up_bytes_received :: "64 word"

text \<open>
  The one timer of a session is idle, or waits for the ping interval, or for the answer to a ping.
\<close>

datatype ping_timer = No_Timer | Interval_Timer | Timeout_Timer

record session =
  s_state :: session_state
  s_user :: user_id
  s_remote :: string
  s_next_seq :: "64 word"
  s_nonce :: bytes
  s_ping_sent :: bool
  s_timer :: ping_timer
  s_limiter :: "rate_limiter option"
  s_uploads :: "string \<rightharpoonup> upload_state"
  s_reading :: bool

text \<open>
  \<open>s_reading\<close> tells that an operation on the socket is outstanding whose completion runs a handler: the
  TLS handshake, which a new session starts, or the read of a frame.
\<close>

definition new_session :: "string \<Rightarrow> session" where
  "new_session remote = \<lparr>s_state = Handshake, s_user = [], s_remote = remote, s_next_seq = 1,
     s_nonce = [], s_ping_sent = False, s_timer = No_Timer, s_limiter = None,
     s_uploads = Map.empty, s_reading = True\<rparr>"

section \<open>Channels and commands\<close>

record channel_state =
  cs_topic :: string
  cs_members :: "user_id set"
  cs_operators :: "user_id set"
  cs_voiced :: "user_id set"
  cs_banned :: "user_id set"
  cs_invite_only :: bool
  cs_moderated :: bool
  cs_topic_restricted :: bool
  cs_invites :: "user_id set"

record abuse_record =
  ab_violations :: int
  ab_first_violation :: time
  ab_last_violation :: time
  ab_banned :: bool

text \<open>A user's two limiters are made together: of commands and of joins.\<close>

record command_state =
  channels :: "string \<rightharpoonup> channel_state"
  nick_to_user :: "string \<rightharpoonup> user_id"
  user_to_nick :: "user_id \<rightharpoonup> string"
  user_rate_limits :: "user_id \<rightharpoonup> rate_limiter \<times> rate_limiter"
  abuse_records :: "user_id \<rightharpoonup> abuse_record"

definition empty_commands :: command_state where
  "empty_commands = \<lparr>channels = Map.empty, nick_to_user = Map.empty, user_to_nick = Map.empty,
     user_rate_limits = Map.empty, abuse_records = Map.empty\<rparr>"

section \<open>The server\<close>

type_synonym session_id = nat

record server =
  sessions :: "session_id \<rightharpoonup> session"
  next_session :: session_id
  by_user :: "user_id \<rightharpoonup> session_id"
  by_session :: "session_id \<rightharpoonup> user_id"
  active_connections :: int
  ip_limiters :: "string \<rightharpoonup> rate_limiter"
  ping_interval_sec :: int
  ping_timeout_sec :: int
  msg_rate_per_sec :: int
  conn_rate_per_min :: int
  max_connections :: int
  motd :: string
  shutting_down :: bool
  running_handlers :: bool
  user_store :: user_db
  offline_store :: offline_db
  file_store :: file_db
  commands :: command_state
  voice_rooms :: voice_state
  scanner :: scanner_manager
  sent :: "(session_id \<times> envelope) list"
  closing :: "session_id set"

text \<open>
  The world the code runs in: the protobuf codec, the signature check, the password functions, the
  rounding of \<open>float\<close>, and the order in which an \<open>unordered_map\<close> or \<open>unordered_set\<close> with given
  string keys is traversed.
\<close>

record world =
  codec :: codec
  verify_signature :: "bytes \<Rightarrow> bytes \<Rightarrow> bytes \<Rightarrow> bool"
  pw_hash :: "string \<Rightarrow> bytes option"
  pw_check :: "bytes \<Rightarrow> string \<Rightarrow> bool"
  round_float :: "rat \<Rightarrow> rat"
  order :: "string set \<Rightarrow> string list"

definition world_ok :: "world \<Rightarrow> bool" where
  "world_ok w \<longleftrightarrow> (\<forall>A. finite A \<longrightarrow> set (order w A) = A \<and> distinct (order w A))"

text \<open>
  What an event reads of it while it runs: the steady clock (nanoseconds), the system clock (seconds),
  random bytes, which one-time key a query finds, and which database statements throw (by their number
  in the handler; for a message put into an offline queue, by the channel it was sent to, empty for a
  direct one, and the recipient), and the text of such an exception.
\<close>

record readings =
  steady :: time
  unix_time :: time
  nonce :: bytes
  opk_choice :: nat
  db_fails :: "nat \<Rightarrow> bool"
  save_faults_at :: "string \<Rightarrow> user_id \<Rightarrow> save_faults"
  sql_error :: string
  fetch_fault_at :: fetch_fault

definition now_ms :: "readings \<Rightarrow> 64 word" where
  "now_ms r = word_of_int (steady r div 1000000)"

definition initial_server :: server where
  "initial_server = \<lparr>sessions = Map.empty, next_session = 0, by_user = Map.empty, by_session = Map.empty,
     active_connections = 0, ip_limiters = Map.empty, ping_interval_sec = 30, ping_timeout_sec = 60,
     msg_rate_per_sec = 20, conn_rate_per_min = 10, max_connections = 100, motd = [],
     shutting_down = False, running_handlers = False, user_store = empty_user_db,
     offline_store = empty_offline, file_store = empty_file_db, commands = empty_commands,
     voice_rooms = empty_voice, scanner = new_scanner_manager, sent = [], closing = {}\<rparr>"

section \<open>Primitives\<close>

definition upd_session :: "session_id \<Rightarrow> (session \<Rightarrow> session) \<Rightarrow> server \<Rightarrow> server" where
  "upd_session i f sv =
     (case sessions sv i of None \<Rightarrow> sv | Some s \<Rightarrow> sv\<lparr>sessions := (sessions sv)(i \<mapsto> f s)\<rparr>)"

text \<open>\<open>Session::send\<close> and \<open>Session::disconnect\<close>.\<close>

definition send_env :: "session_id \<Rightarrow> envelope \<Rightarrow> server \<Rightarrow> server" where
  "send_env i env sv = sv\<lparr>sent := sent sv @ [(i, env)]\<rparr>"

definition disconnect :: "session_id \<Rightarrow> server \<Rightarrow> server" where
  "disconnect i sv = sv\<lparr>closing := insert i (closing sv)\<rparr>"

definition find_session :: "user_id \<Rightarrow> server \<Rightarrow> session_id option" where
  "find_session u sv = by_user sv u"

definition session_user :: "session_id \<Rightarrow> server \<Rightarrow> user_id" where
  "session_user i sv = (case sessions sv i of None \<Rightarrow> [] | Some s \<Rightarrow> s_user s)"

text \<open>\<open>Session::send_envelope\<close> numbers the envelopes of a session.\<close>

definition send_envelope :: "world \<Rightarrow> readings \<Rightarrow> session_id \<Rightarrow> message_type \<Rightarrow> server_message \<Rightarrow> server \<Rightarrow> server"
where
  "send_envelope w r i t m sv =
     (case sessions sv i of
        None \<Rightarrow> sv
      | Some s \<Rightarrow>
          send_env i \<lparr>env_seq = s_next_seq s, env_timestamp_ms = now_ms r, env_type = t,
                      env_payload = ser (codec w) m\<rparr>
            (upd_session i (\<lambda>s. s\<lparr>s_next_seq := s_next_seq s + 1\<rparr>) sv))"

definition send_error :: "world \<Rightarrow> readings \<Rightarrow> session_id \<Rightarrow> 32 word \<Rightarrow> string \<Rightarrow> server \<Rightarrow> server" where
  "send_error w r i code msg = send_envelope w r i MT_ERROR (Error_Message code msg)"

text \<open>The notices of the voice rooms, through \<open>VoiceRoomManager::send_to\<close>.\<close>

fun send_notices :: "world \<Rightarrow> notices \<Rightarrow> server \<Rightarrow> server" where
  "send_notices w [] sv = sv"
| "send_notices w ((u, t, m) # ns) sv =
     send_notices w ns
       (case find_session u sv of
          None \<Rightarrow> sv
        | Some i \<Rightarrow> send_env i (plain_envelope t (ser (codec w) m)) sv)"

end
