(* ===== verification/Listener.thy ===== *)
theory Listener
  imports Server_State
begin

text \<open>
  \<open>src/net/listener.cpp\<close>: accepting connections under the connection cap and the per-address rate
  limit, the registry of authenticated sessions in both directions, broadcasts and presence, and the
  shutdown.
\<close>

section \<open>Configuration\<close>

definition set_ping_intervals :: "int \<Rightarrow> int \<Rightarrow> server \<Rightarrow> server" where
  "set_ping_intervals interval timeout sv =
     sv\<lparr>ping_interval_sec := interval, ping_timeout_sec := timeout\<rparr>"

definition set_rate_limits :: "int \<Rightarrow> int \<Rightarrow> server \<Rightarrow> server" where
  "set_rate_limits msg_rate conn_rate sv = sv\<lparr>msg_rate_per_sec := msg_rate, conn_rate_per_min := conn_rate\<rparr>"

definition set_max_connections :: "int \<Rightarrow> server \<Rightarrow> server" where
  "set_max_connections n sv = sv\<lparr>max_connections := n\<rparr>"

definition set_motd :: "string \<Rightarrow> server \<Rightarrow> server" where
  "set_motd m sv = sv\<lparr>motd := m\<rparr>"

text \<open>\<open>run\<close> makes the command handler and the voice rooms (the database is set).\<close>

definition run_listener :: "server \<Rightarrow> server" where
  "run_listener sv = sv\<lparr>running_handlers := True, commands := empty_commands, voice_rooms := empty_voice\<rparr>"

section \<open>Accepting\<close>

text \<open>How a session names its peer: \<open>remote_endpoint\<close> throws when the client is gone already.\<close>

definition endpoint_to_string :: "(string \<times> 16 word) option \<Rightarrow> string" where
  "endpoint_to_string ep =
     (case ep of None \<Rightarrow> ''unknown'' | Some (address, port) \<Rightarrow> address @ '':'' @ show_nat (unat port))"

text \<open>The completion of an accept, successful, from address \<open>ip\<close>: the new session, if there is one.\<close>

definition do_accept :: "readings \<Rightarrow> string \<Rightarrow> string \<Rightarrow> server \<Rightarrow> session_id option \<times> server" where
  "do_accept r ip endpoint sv =
     (if active_connections sv \<ge> max_connections sv then (None, sv)
      else
        let limiter = (case ip_limiters sv ip of
                         None \<Rightarrow> new_rate_limiter (conn_rate_per_min sv) (minutes 1) (steady r)
                       | Some rl \<Rightarrow> rl)
        in case allow (steady r) limiter of
             (False, rl) \<Rightarrow> (None, sv\<lparr>ip_limiters := (ip_limiters sv)(ip \<mapsto> rl)\<rparr>)
           | (True, rl) \<Rightarrow>
               (Some (next_session sv),
                sv\<lparr>ip_limiters := (ip_limiters sv)(ip \<mapsto> rl),
                   active_connections := active_connections sv + 1,
                   sessions := (sessions sv)(next_session sv \<mapsto> new_session endpoint),
                   next_session := Suc (next_session sv)\<rparr>))"

section \<open>Broadcasts and presence\<close>

definition broadcast_targets :: "world \<Rightarrow> session_id option \<Rightarrow> server \<Rightarrow> session_id list" where
  "broadcast_targets w exclude sv =
     filter (\<lambda>i. Some i \<noteq> exclude) (map (\<lambda>u. the (by_user sv u)) (order w (dom (by_user sv))))"

definition broadcast :: "world \<Rightarrow> envelope \<Rightarrow> session_id option \<Rightarrow> server \<Rightarrow> server" where
  "broadcast w env exclude sv = foldl (\<lambda>sv i. send_env i env sv) sv (broadcast_targets w exclude sv)"

definition presence_envelope :: "world \<Rightarrow> readings \<Rightarrow> user_id \<Rightarrow> presence_status \<Rightarrow> envelope" where
  "presence_envelope w r u st =
     \<lparr>env_seq = 0, env_timestamp_ms = now_ms r, env_type = MT_PRESENCE,
      env_payload = ser (codec w) (Presence u st)\<rparr>"

definition broadcast_presence ::
  "world \<Rightarrow> readings \<Rightarrow> user_id \<Rightarrow> presence_status \<Rightarrow> session_id option \<Rightarrow> server \<Rightarrow> server"
where
  "broadcast_presence w r u st exclude = broadcast w (presence_envelope w r u st) exclude"

definition send_presence_snapshot :: "world \<Rightarrow> readings \<Rightarrow> session_id \<Rightarrow> user_id list \<Rightarrow> server \<Rightarrow> server"
where
  "send_presence_snapshot w r i online sv =
     foldl (\<lambda>sv u. send_env i (presence_envelope w r u ONLINE) sv) sv online"

section \<open>The registry\<close>

definition is_established :: "session_id \<Rightarrow> server \<Rightarrow> bool" where
  "is_established i sv = (case sessions sv i of None \<Rightarrow> False | Some s \<Rightarrow> s_state s = Established)"

definition online_users :: "world \<Rightarrow> server \<Rightarrow> user_id list" where
  "online_users w sv =
     filter (\<lambda>u. is_established (the (by_user sv u)) sv) (order w (dom (by_user sv)))"

text \<open>The critical section of \<open>on_session_authenticated\<close>: an older session of the user is replaced.\<close>

definition register_session :: "session_id \<Rightarrow> server \<Rightarrow> server" where
  "register_session i sv =
     (let u = session_user i sv;
          sv = (case by_user sv u of
                  None \<Rightarrow> sv
                | Some j \<Rightarrow> (disconnect j sv)\<lparr>by_session := (by_session sv)(j := None),
                                               by_user := (by_user sv)(u := None)\<rparr>)
      in sv\<lparr>by_user := (by_user sv)(u \<mapsto> i), by_session := (by_session sv)(i \<mapsto> u)\<rparr>)"

definition on_session_authenticated :: "world \<Rightarrow> readings \<Rightarrow> session_id \<Rightarrow> server \<Rightarrow> server" where
  "on_session_authenticated w r i sv =
     (let sv = register_session i sv
      in send_presence_snapshot w r i (online_users w sv) sv)"

definition unregister :: "session_id \<Rightarrow> user_id \<Rightarrow> server \<Rightarrow> server" where
  "unregister i u sv = sv\<lparr>by_user := (by_user sv)(u := None), by_session := (by_session sv)(i := None)\<rparr>"

definition on_session_disconnected :: "world \<Rightarrow> readings \<Rightarrow> session_id \<Rightarrow> server \<Rightarrow> server" where
  "on_session_disconnected w r i sv =
     (let sv = sv\<lparr>active_connections := active_connections sv - 1\<rparr>
      in case by_session sv i of
           None \<Rightarrow> sv
         | Some u \<Rightarrow>
             let sv = unregister i u sv
             in if u = [] then sv
                else
                  let sv = broadcast_presence w r u OFFLINE None sv
                  in if \<not> running_handlers sv then sv
                     else case voice_disconnect u (voice_rooms sv) of
                            (ns, v) \<Rightarrow> send_notices w ns (sv\<lparr>voice_rooms := v\<rparr>))"

definition find_session_by_nickname :: "world \<Rightarrow> string \<Rightarrow> server \<Rightarrow> session_id option" where
  "find_session_by_nickname w nick sv =
     (case find (\<lambda>u. normalize_nickname u = normalize_nickname nick) (order w (dom (by_user sv))) of
        None \<Rightarrow> None
      | Some u \<Rightarrow> by_user sv u)"

text \<open>The loop of \<open>is_nickname_available\<close> over the registered users.\<close>

fun nickname_loop :: "string \<Rightarrow> user_id \<Rightarrow> user_id list \<Rightarrow> bool" where
  "nickname_loop target exclude [] = True"
| "nickname_loop target exclude (u # us) =
     (if exclude \<noteq> [] \<and> normalize_nickname u = normalize_nickname exclude
      then nickname_loop target exclude us
      else if normalize_nickname u = normalize_nickname target then False
      else nickname_loop target exclude us)"

definition is_nickname_available :: "world \<Rightarrow> string \<Rightarrow> user_id \<Rightarrow> server \<Rightarrow> bool" where
  "is_nickname_available w nick exclude sv =
     nickname_loop nick exclude (order w (dom (by_user sv)))"

definition cleanup_dead_sessions :: "server \<Rightarrow> server" where
  "cleanup_dead_sessions sv =
     (let dead = (\<lambda>i. case sessions sv i of None \<Rightarrow> False | Some s \<Rightarrow> s_state s = Dead);
          gone = (\<lambda>u. \<exists>i \<in> dom (by_session sv). dead i \<and> by_session sv i = Some u)
      in sv\<lparr>by_user := (\<lambda>u. if gone u then None else by_user sv u),
            by_session := (\<lambda>i. if dead i then None else by_session sv i)\<rparr>)"

definition get_online_users :: "world \<Rightarrow> server \<Rightarrow> (user_id \<times> string) list" where
  "get_online_users w sv =
     map (\<lambda>u. (u, case sessions sv (the (by_user sv u)) of None \<Rightarrow> [] | Some s \<Rightarrow> s_remote s))
       (online_users w sv)"

section \<open>Shutdown\<close>

definition shutdown :: "server \<Rightarrow> server" where
  "shutdown sv =
     (if shutting_down sv then sv
      else sv\<lparr>shutting_down := True, closing := closing sv \<union> dom (by_session sv),
              by_user := Map.empty, by_session := Map.empty\<rparr>)"

definition on_signal :: "bool \<Rightarrow> server \<Rightarrow> server" where
  "on_signal error sv = (if error then sv else shutdown sv)"

section \<open>What the operations leave alone\<close>

lemma foldl_send [simp]:
  "foldl (\<lambda>sv i. send_env (f i) (g i) sv) sv xs = sv\<lparr>sent := sent sv @ map (\<lambda>i. (f i, g i)) xs\<rparr>"
  by (induction xs arbitrary: sv) (simp_all add: send_env_def)

lemma broadcast_eq:
  "broadcast w env exclude sv =
    sv\<lparr>sent := sent sv @ map (\<lambda>i. (i, env)) (broadcast_targets w exclude sv)\<rparr>"
  by (simp add: broadcast_def)

lemma snapshot_eq:
  "send_presence_snapshot w r i online sv =
    sv\<lparr>sent := sent sv @ map (\<lambda>u. (i, presence_envelope w r u ONLINE)) online\<rparr>"
  by (simp add: send_presence_snapshot_def)

definition notice_sends :: "world \<Rightarrow> notices \<Rightarrow> server \<Rightarrow> (session_id \<times> envelope) list" where
  "notice_sends w ns sv = concat (map (\<lambda>(u, t, m). case by_user sv u of None \<Rightarrow> []
     | Some i \<Rightarrow> [(i, plain_envelope t (ser (codec w) m))]) ns)"

lemma notice_sends_sent [simp]: "notice_sends w ns (sv\<lparr>sent := x\<rparr>) = notice_sends w ns sv"
  by (simp add: notice_sends_def)

lemma send_notices_eq: "send_notices w ns sv = sv\<lparr>sent := sent sv @ notice_sends w ns sv\<rparr>"
proof (induction ns arbitrary: sv)
  case Nil
  then show ?case by (simp add: notice_sends_def)
next
  case (Cons n ns)
  obtain u t m where n: "n = (u, t, m)" by (metis prod_cases3)
  then have "notice_sends w (n # ns) sv = (case by_user sv u of None \<Rightarrow> []
      | Some i \<Rightarrow> [(i, plain_envelope t (ser (codec w) m))]) @ notice_sends w ns sv"
    by (simp add: notice_sends_def)
  with Cons show ?case
    by (simp add: n find_session_def send_env_def split: option.splits)
qed

section \<open>The registry's invariant\<close>

text \<open>
  The two maps are inverse to each other, a registered session exists, belongs to the user it is
  registered for and has been authenticated, and session numbers are never reused.
\<close>

definition registry_ok :: "server \<Rightarrow> bool" where
  "registry_ok sv \<longleftrightarrow>
     (\<forall>u i. by_user sv u = Some i \<longleftrightarrow> by_session sv i = Some u) \<and>
     (\<forall>i u. by_session sv i = Some u \<longrightarrow>
        (\<exists>s. sessions sv i = Some s \<and> s_user s = u \<and> Established \<le> s_state s)) \<and>
     (\<forall>i. sessions sv i \<noteq> None \<longrightarrow> i < next_session sv) \<and> finite (dom (by_user sv))"

lemma registry_ok_cong:
  assumes "registry_ok sv" "by_user sv' = by_user sv" "by_session sv' = by_session sv"
    "next_session sv' = next_session sv" "sessions sv' = sessions sv"
  shows "registry_ok sv'"
  using assms by (simp add: registry_ok_def)

lemma registry_ok_initial [inv_intros]: "registry_ok initial_server"
  by (simp add: registry_ok_def initial_server_def)

lemma registry_inverse: "registry_ok sv \<Longrightarrow> by_user sv u = Some i \<longleftrightarrow> by_session sv i = Some u"
  by (simp add: registry_ok_def)

lemma registry_unique:
  "registry_ok sv \<Longrightarrow> by_session sv i = Some u \<Longrightarrow> by_session sv j = Some u \<Longrightarrow> i = j"
  by (metis registry_inverse option.inject)

lemma registry_session:
  assumes "registry_ok sv" "by_session sv i = Some u"
  obtains s where "sessions sv i = Some s" "s_user s = u" "Established \<le> s_state s"
  using assms unfolding registry_ok_def by blast

lemma do_accept_registry [inv_intros]:
  assumes "registry_ok sv"
  shows "registry_ok (snd (do_accept r ip ep sv))"
proof (cases "fst (do_accept r ip ep sv)")
  case None
  then have "snd (do_accept r ip ep sv) = sv \<or>
      (\<exists>l. snd (do_accept r ip ep sv) = sv\<lparr>ip_limiters := l\<rparr>)"
    by (auto simp: do_accept_def Let_def split: prod.splits bool.splits if_splits)
  with assms show ?thesis by (auto simp: registry_ok_def)
next
  case (Some i)
  then obtain l where eq: "snd (do_accept r ip ep sv) = sv\<lparr>ip_limiters := l,
      active_connections := active_connections sv + 1,
      sessions := (sessions sv)(next_session sv \<mapsto> new_session ep), next_session := Suc (next_session sv)\<rparr>"
    by (auto simp: do_accept_def Let_def split: prod.splits bool.splits if_splits)
  have fresh: "by_session sv (next_session sv) \<noteq> Some u" for u
    using assms unfolding registry_ok_def by (metis less_irrefl option.distinct(1))
  show ?thesis using assms fresh unfolding eq registry_ok_def
    by (auto simp: less_Suc_eq)
qed

lemma register_registry [inv_intros]:
  assumes ok: "registry_ok sv" and s: "sessions sv i = Some s" "Established \<le> s_state s"
    and new: "by_session sv i = None"
  shows "registry_ok (register_session i sv)"
proof -
  have u: "session_user i sv = s_user s" by (simp add: session_user_def s)
  note inverse = registry_inverse [OF ok]
  show ?thesis
  proof (cases "by_user sv (s_user s)")
    case None
    then have "by_session sv j \<noteq> Some (s_user s)" for j using inverse by (metis option.distinct(1))
    with ok s new None show ?thesis
      by (auto simp: register_session_def u Let_def registry_ok_def)
  next
    case (Some j)
    with inverse have jj: "by_session sv j = Some (s_user s)" by simp
    with new have "j \<noteq> i" by auto
    moreover have "by_session sv k = Some (s_user s) \<longleftrightarrow> k = j" for k
      using Some inverse by (metis option.inject)
    moreover have eq: "register_session i sv =
        sv\<lparr>closing := insert j (closing sv), by_user := (by_user sv)(s_user s \<mapsto> i),
           by_session := (by_session sv)(j := None, i \<mapsto> s_user s)\<rparr>"
      using Some by (simp add: register_session_def u Let_def disconnect_def)
    ultimately show ?thesis
      using ok s new unfolding eq registry_ok_def by (auto simp: jj)
  qed
qed

lemma on_session_authenticated_registry [inv_intros]:
  assumes "registry_ok sv" "sessions sv i = Some s" "Established \<le> s_state s" "by_session sv i = None"
  shows "registry_ok (on_session_authenticated w r i sv)"
  by (rule registry_ok_cong [OF register_registry [OF assms]])
     (simp_all add: on_session_authenticated_def snapshot_eq Let_def)

lemma unregister_registry:
  assumes ok: "registry_ok sv" and u: "by_session sv i = Some u"
  shows "registry_ok (unregister i u sv)"
proof -
  have "by_user sv v = Some i \<longleftrightarrow> v = u" "by_session sv j = Some u \<longleftrightarrow> j = i" for v j
    using registry_inverse [OF ok] u by (metis option.inject)+
  with ok show ?thesis by (auto simp: registry_ok_def unregister_def)
qed

text \<open>Everything a disconnection does to the registry is the removal of the session.\<close>

lemma on_session_disconnected_fields:
  shows "by_user (on_session_disconnected w r i sv) =
      (case by_session sv i of None \<Rightarrow> by_user sv | Some u \<Rightarrow> (by_user sv)(u := None))"
    and "by_session (on_session_disconnected w r i sv) = (by_session sv)(i := None)"
    and "sessions (on_session_disconnected w r i sv) = sessions sv"
    and "next_session (on_session_disconnected w r i sv) = next_session sv"
    and "commands (on_session_disconnected w r i sv) = commands sv"
    and "user_store (on_session_disconnected w r i sv) = user_store sv"
    and "offline_store (on_session_disconnected w r i sv) = offline_store sv"
    and "file_store (on_session_disconnected w r i sv) = file_store sv"
    and "scanner (on_session_disconnected w r i sv) = scanner sv"
    and "closing (on_session_disconnected w r i sv) = closing sv"
    and "active_connections (on_session_disconnected w r i sv) = active_connections sv - 1"
  by (auto simp: on_session_disconnected_def unregister_def broadcast_presence_def broadcast_eq
      send_notices_eq Let_def split: option.splits prod.splits)

declare on_session_disconnected_fields [frame_simps]

lemma on_session_disconnected_registry [inv_intros]:
  assumes "registry_ok sv"
  shows "registry_ok (on_session_disconnected w r i sv)"
proof (cases "by_session sv i")
  case None
  with assms show ?thesis
    by (intro registry_ok_cong [OF assms]) (auto simp: frame_simps)
next
  case (Some u)
  then show ?thesis
    by (intro registry_ok_cong [OF unregister_registry [OF assms Some]])
       (simp_all add: frame_simps unregister_def)
qed

lemma shutdown_registry [inv_intros]: "registry_ok sv \<Longrightarrow> registry_ok (shutdown sv)"
  by (auto simp: shutdown_def registry_ok_def)

lemma cleanup_registry [inv_intros]:
  assumes ok: "registry_ok sv"
  shows "registry_ok (cleanup_dead_sessions sv)"
proof -
  define dead where "dead i \<longleftrightarrow> (case sessions sv i of None \<Rightarrow> False | Some s \<Rightarrow> s_state s = Dead)" for i
  have gone: "(\<exists>i \<in> dom (by_session sv). dead i \<and> by_session sv i = Some u) \<longleftrightarrow>
      (\<exists>i. by_user sv u = Some i \<and> dead i)" for u
    using registry_inverse [OF ok] by auto
  have eqs: "by_user (cleanup_dead_sessions sv) =
      (\<lambda>u. if \<exists>i. by_user sv u = Some i \<and> dead i then None else by_user sv u)"
    "by_session (cleanup_dead_sessions sv) = (\<lambda>i. if dead i then None else by_session sv i)"
    "sessions (cleanup_dead_sessions sv) = sessions sv"
    "next_session (cleanup_dead_sessions sv) = next_session sv"
    by (simp_all add: cleanup_dead_sessions_def Let_def gone flip: dead_def)
  have "dom (by_user (cleanup_dead_sessions sv)) \<subseteq> dom (by_user sv)"
    by (auto simp: eqs split: if_splits)
  then have "finite (dom (by_user (cleanup_dead_sessions sv)))"
    using ok finite_subset by (auto simp: registry_ok_def)
  moreover have "by_user (cleanup_dead_sessions sv) u = Some i \<longleftrightarrow>
      by_session (cleanup_dead_sessions sv) i = Some u" for u i
    using registry_inverse [OF ok, of u] by (auto simp: eqs split: if_splits dest: registry_unique [OF ok])
  moreover have "by_session (cleanup_dead_sessions sv) i = Some u \<Longrightarrow> by_session sv i = Some u" for i u
    by (simp add: eqs split: if_splits)
  ultimately show ?thesis using ok unfolding registry_ok_def eqs(3,4) by blast
qed

section \<open>Correctness\<close>

lemma order_dom:
  assumes "world_ok w" "registry_ok sv"
  shows "set (order w (dom (by_user sv))) = dom (by_user sv)" "distinct (order w (dom (by_user sv)))"
  using assms by (auto simp: world_ok_def registry_ok_def)

lemma set_broadcast_targets:
  assumes "world_ok w" "registry_ok sv"
  shows "i \<in> set (broadcast_targets w ex sv) \<longleftrightarrow> by_session sv i \<noteq> None \<and> Some i \<noteq> ex"
proof -
  have "i \<in> (\<lambda>u. the (by_user sv u)) ` dom (by_user sv) \<longleftrightarrow> (\<exists>u. by_user sv u = Some i)"
    by (force simp: image_iff)
  then have "i \<in> (\<lambda>u. the (by_user sv u)) ` dom (by_user sv) \<longleftrightarrow> by_session sv i \<noteq> None"
    by (simp add: registry_inverse [OF assms(2)])
  then show ?thesis by (auto simp: broadcast_targets_def order_dom [OF assms])
qed

lemma distinct_broadcast_targets:
  assumes "world_ok w" "registry_ok sv"
  shows "distinct (broadcast_targets w ex sv)"
proof -
  have "inj_on (\<lambda>u. the (by_user sv u)) (dom (by_user sv))"
  proof (rule inj_onI)
    fix u v assume "u \<in> dom (by_user sv)" "v \<in> dom (by_user sv)"
      and eq: "the (by_user sv u) = the (by_user sv v)"
    then obtain i j where "by_user sv u = Some i" "by_user sv v = Some j" by auto
    with eq show "u = v" using registry_inverse [OF assms(2)] by (metis option.sel)
  qed
  then show ?thesis
    using order_dom [OF assms] by (simp add: broadcast_targets_def distinct_map)
qed

text \<open>
  A broadcast sends the envelope exactly once to every registered session except the excluded
  one, whatever the iteration order of the map, and changes nothing else.
\<close>

theorem broadcast_reaches_all_once:
  assumes "world_ok w" "registry_ok sv"
  shows "\<exists>targets. broadcast w env ex sv = sv\<lparr>sent := sent sv @ map (\<lambda>i. (i, env)) targets\<rparr> \<and>
    distinct targets \<and> (\<forall>i. i \<in> set targets \<longleftrightarrow> by_session sv i \<noteq> None \<and> Some i \<noteq> ex)"
  by (rule exI [of _ "broadcast_targets w ex sv"])
     (simp add: broadcast_eq set_broadcast_targets [OF assms] distinct_broadcast_targets [OF assms])

text \<open>A world with toy cryptography and an ascending iteration order.\<close>

definition demo_codec :: codec where
  "demo_codec = \<lparr>ser_envelope = env_payload, parse_envelope = (\<lambda>b. Some (plain_envelope MT_UNKNOWN b)),
     ser = (\<lambda>m. []), ser_user_info = (\<lambda>i. []), parse_hello = (\<lambda>b. None), parse_auth = (\<lambda>b. None),
     parse_chat = (\<lambda>b. None), parse_voice_signal = (\<lambda>b. None), parse_voice_join = (\<lambda>b. None),
     parse_voice_leave = (\<lambda>b. None), parse_key_upload = (\<lambda>b. None), parse_key_request = (\<lambda>b. None),
     parse_command = (\<lambda>b. None), parse_upload_chunk = (\<lambda>b. None), parse_upload_request = (\<lambda>b. None),
     parse_download = (\<lambda>b. None)\<rparr>"

definition demo_world :: world where
  "demo_world = \<lparr>codec = demo_codec, verify_signature = (\<lambda>s m p. True), pw_hash = (\<lambda>p. None),
     pw_check = (\<lambda>h p. False), round_float = (\<lambda>x. x), order = sorted_list_of_set\<rparr>"

definition demo_readings :: readings where
  "demo_readings = \<lparr>steady = 0, unix_time = 0, nonce = replicate 32 7, opk_choice = 0,
     db_fails = (\<lambda>_. False), save_faults_at = (\<lambda>_ _. no_save_faults),
     sql_error = [], fetch_fault_at = No_Fault\<rparr>"

lemma demo_world_ok: "world_ok demo_world"
  by (simp add: world_ok_def demo_world_def)

text \<open>One authenticated session, of user \<open>al\<close>.\<close>

definition demo_server :: server where
  "demo_server = initial_server\<lparr>sessions := [0 \<mapsto> (new_session ''h'')\<lparr>s_state := Established, s_user := ''al''\<rparr>],
     next_session := 1, by_user := [''al'' \<mapsto> 0], by_session := [0 \<mapsto> ''al''], active_connections := 1\<rparr>"

lemma demo_registry_ok: "registry_ok demo_server"
  by (auto simp: registry_ok_def demo_server_def initial_server_def split: if_splits)

theorem broadcast_reaches_all_once_witness:
  "\<exists>ts. sent (broadcast demo_world (plain_envelope MT_PING []) None demo_server) =
      map (\<lambda>i. (i, plain_envelope MT_PING [])) ts \<and> distinct ts \<and> 0 \<in> set ts"
proof -
  obtain ts where "broadcast demo_world (plain_envelope MT_PING []) None demo_server =
      demo_server\<lparr>sent := sent demo_server @ map (\<lambda>i. (i, plain_envelope MT_PING [])) ts\<rparr>"
    "distinct ts" "\<forall>i. i \<in> set ts \<longleftrightarrow> by_session demo_server i \<noteq> None \<and> Some i \<noteq> None"
    using broadcast_reaches_all_once [OF demo_world_ok demo_registry_ok] by blast
  then show ?thesis by (auto simp: demo_server_def initial_server_def)
qed

lemma nickname_loop_iff:
  "nickname_loop nick ex us \<longleftrightarrow>
    (\<forall>u \<in> set us. normalize_nickname u = normalize_nickname nick \<longrightarrow>
       ex \<noteq> [] \<and> normalize_nickname u = normalize_nickname ex)"
  by (induction us) auto

text \<open>
  A nickname is available exactly when no registered user has it up to case, other than the
  excluded user.
\<close>

theorem nickname_available_iff:
  assumes "world_ok w" "registry_ok sv"
  shows "is_nickname_available w nick ex sv \<longleftrightarrow>
    (\<forall>u. find_session u sv \<noteq> None \<longrightarrow> nicknames_equal u nick \<longrightarrow> ex \<noteq> [] \<and> nicknames_equal u ex)"
  by (auto simp: is_nickname_available_def nickname_loop_iff order_dom [OF assms] find_session_def
      nicknames_equal_iff)

theorem nickname_available_iff_witness: "\<not> is_nickname_available demo_world ''AL'' [] demo_server"
proof -
  have "nicknames_equal ''al'' ''AL''" by (simp add: nicknames_equal_iff normalize_nickname_def
        to_lower_def is_upper_def ctype_simps)
  moreover have "find_session ''al'' demo_server \<noteq> None"
    by (simp add: find_session_def demo_server_def)
  ultimately show ?thesis
    using nickname_available_iff [OF demo_world_ok demo_registry_ok, of "''AL''" "[]"] by blast
qed

text \<open>
  A session that authenticates becomes the one that is found for its user; the session it
  replaces, if any, is told to close and is no longer registered, and no other user is affected.
\<close>

theorem login_takes_over:
  assumes ok: "registry_ok sv" and s: "sessions sv i = Some s" "Established \<le> s_state s"
    and new: "by_session sv i = None"
  shows "let sv' = on_session_authenticated w r i sv
    in find_session (s_user s) sv' = Some i \<and> by_session sv' i = Some (s_user s) \<and>
       (\<forall>j. find_session (s_user s) sv = Some j \<longrightarrow> j \<in> closing sv' \<and> by_session sv' j = None) \<and>
       (\<forall>v. v \<noteq> s_user s \<longrightarrow> find_session v sv' = find_session v sv)"
proof -
  have u: "session_user i sv = s_user s" by (simp add: session_user_def s)
  have "j \<noteq> i" if "by_user sv (s_user s) = Some j" for j
    using that new registry_inverse [OF ok] by auto
  then show ?thesis
    by (auto simp: on_session_authenticated_def snapshot_eq register_session_def u Let_def
        find_session_def disconnect_def split: option.splits)
qed

theorem login_takes_over_witness:
  "find_session ''al'' (on_session_authenticated demo_world demo_readings 1
     (demo_server\<lparr>sessions := (sessions demo_server)(1 \<mapsto>
        (new_session ''k'')\<lparr>s_state := Established, s_user := ''al''\<rparr>), next_session := 2\<rparr>)) = Some 1"
proof -
  let ?s = "(new_session ''k'')\<lparr>s_state := Established, s_user := ''al''\<rparr>"
  let ?sv = "demo_server\<lparr>sessions := (sessions demo_server)(1 \<mapsto> ?s), next_session := 2\<rparr>"
  have ok: "registry_ok ?sv"
    by (auto simp: registry_ok_def demo_server_def initial_server_def split: if_splits)
  have "sessions ?sv 1 = Some ?s" "Established \<le> s_state ?s" "by_session ?sv 1 = None"
    by (simp_all add: demo_server_def)
  from login_takes_over [OF ok this] show ?thesis by (simp add: Let_def)
qed

text \<open>
  A connection is taken on only below the connection limit and with a token of its address's rate
  limiter; it then is a fresh session in the handshake, counted; a refused one changes neither the
  sessions nor the count.
\<close>

theorem accept_guarded:
  "case do_accept r ip ep sv of
     (Some i, sv') \<Rightarrow> i = next_session sv \<and> sessions sv' = (sessions sv)(i \<mapsto> new_session ep) \<and>
        active_connections sv < max_connections sv \<and>
        active_connections sv' = active_connections sv + 1 \<and>
        active_connections sv' \<le> max_connections sv' \<and>
        fst (allow (steady r) (case ip_limiters sv ip of None \<Rightarrow>
          new_rate_limiter (conn_rate_per_min sv) (minutes 1) (steady r) | Some rl \<Rightarrow> rl))
   | (None, sv') \<Rightarrow> sessions sv' = sessions sv \<and> active_connections sv' = active_connections sv"
  by (auto simp: do_accept_def Let_def split: prod.splits bool.splits)

text \<open>
  The count of connections is not tied to the sessions: reporting a session as gone a second time
  counts it twice.
\<close>

lemma counted_twice:
  "active_connections (on_session_disconnected w r i (on_session_disconnected w r i sv)) =
    active_connections sv - 2"
  by (simp add: frame_simps)

end
