(* ===== verification/Command_Handler.thy ===== *)
theory Command_Handler
  imports Listener
begin

text \<open>
  \<open>src/commands/command_handler.cpp\<close>: the IRC-style commands, the channels with their operators, bans
  and settings, the nicknames, and the limits that stop a client that sends too many.  A command takes
  its arguments and the session it came from and returns the response with the server's new state.
  Also \<open>ChannelManager::route\<close> of \<open>src/channel/channel_manager.cpp\<close>.
\<close>

definition make_response :: "bool \<Rightarrow> string \<Rightarrow> string \<Rightarrow> command_response" where
  "make_response success message command =
     \<lparr>cr_success = success, cr_message = message, cr_command = command\<rparr>"

definition response_envelope :: "world \<Rightarrow> command_response \<Rightarrow> envelope" where
  "response_envelope w resp = plain_envelope MT_COMMAND_RESPONSE (ser (codec w) (Command_Response resp))"

section \<open>Access to the state\<close>

definition upd_commands :: "(command_state \<Rightarrow> command_state) \<Rightarrow> server \<Rightarrow> server" where
  "upd_commands f sv = sv\<lparr>commands := f (commands sv)\<rparr>"

definition channel_of :: "string \<Rightarrow> server \<Rightarrow> channel_state option" where
  "channel_of c sv = channels (commands sv) c"

definition set_channel :: "string \<Rightarrow> channel_state option \<Rightarrow> server \<Rightarrow> server" where
  "set_channel c ch = upd_commands (\<lambda>cs. cs\<lparr>channels := (channels cs)(c := ch)\<rparr>)"

definition empty_channel :: channel_state where
  "empty_channel = \<lparr>cs_topic = [], cs_members = {}, cs_operators = {}, cs_voiced = {}, cs_banned = {},
     cs_invite_only = False, cs_moderated = False, cs_topic_restricted = True, cs_invites = {}\<rparr>"

definition get_or_create_channel :: "string \<Rightarrow> server \<Rightarrow> channel_state \<times> server" where
  "get_or_create_channel c sv =
     (case channel_of c sv of
        None \<Rightarrow> (empty_channel, set_channel c (Some empty_channel) sv)
      | Some ch \<Rightarrow> (ch, sv))"

definition nick_or_id :: "user_id \<Rightarrow> server \<Rightarrow> string" where
  "nick_or_id u sv = (case user_to_nick (commands sv) u of None \<Rightarrow> u | Some n \<Rightarrow> n)"

definition target_of :: "string \<Rightarrow> server \<Rightarrow> user_id" where
  "target_of nick sv = (case nick_to_user (commands sv) nick of None \<Rightarrow> nick | Some u \<Rightarrow> u)"

text \<open>\<open>remove_member\<close>: the three \<open>erase\<close> calls of part, kick and \<open>part_channel\<close>.\<close>

definition remove_member :: "user_id \<Rightarrow> channel_state \<Rightarrow> channel_state" where
  "remove_member u ch = ch\<lparr>cs_members := cs_members ch - {u}, cs_operators := cs_operators ch - {u},
     cs_voiced := cs_voiced ch - {u}\<rparr>"

section \<open>User lists and channel messages\<close>

definition user_list :: "world \<Rightarrow> string \<Rightarrow> channel_state \<Rightarrow> server \<Rightarrow> string" where
  "user_list w c ch sv =
     ''Users in '' @ c @ '':'' @ [CHR 0x0A] @
     concat (map (\<lambda>u. (if u \<in> cs_operators ch then ''@'' else if u \<in> cs_voiced ch then ''+'' else [])
                      @ nick_or_id u sv @ [CHR 0x0A])
              (order w (cs_members ch)))"

definition send_user_list :: "world \<Rightarrow> string \<Rightarrow> session_id \<Rightarrow> server \<Rightarrow> server" where
  "send_user_list w c i sv =
     (case channel_of c sv of
        None \<Rightarrow> sv
      | Some ch \<Rightarrow> send_env i (response_envelope w (make_response True (user_list w c ch sv) ''names'')) sv)"

text \<open>Sending one envelope to whoever of a list of users is online.\<close>

fun send_to_online :: "envelope \<Rightarrow> user_id list \<Rightarrow> server \<Rightarrow> server" where
  "send_to_online env [] sv = sv"
| "send_to_online env (u # us) sv =
     send_to_online env us (case find_session u sv of None \<Rightarrow> sv | Some i \<Rightarrow> send_env i env sv)"

definition broadcast_user_list :: "world \<Rightarrow> string \<Rightarrow> server \<Rightarrow> server" where
  "broadcast_user_list w c sv =
     (case channel_of c sv of
        None \<Rightarrow> sv
      | Some ch \<Rightarrow>
          send_to_online (response_envelope w (make_response True (user_list w c ch sv) ''names''))
            (order w (cs_members ch)) sv)"

definition notify_channel_join :: "world \<Rightarrow> string \<Rightarrow> user_id \<Rightarrow> server \<Rightarrow> server" where
  "notify_channel_join w c u = broadcast_user_list w c"

definition notify_channel_part :: "world \<Rightarrow> string \<Rightarrow> user_id \<Rightarrow> string \<Rightarrow> server \<Rightarrow> server" where
  "notify_channel_part w c u reason = broadcast_user_list w c"

definition save_offline :: "readings \<Rightarrow> string \<Rightarrow> user_id \<Rightarrow> bytes \<Rightarrow> server \<Rightarrow> bool \<times> server" where
  "save_offline r c u payload sv =
     (case save (save_faults_at r c u) (unix_time r) u payload (offline_store sv) of
        (ok, db) \<Rightarrow> (ok, sv\<lparr>offline_store := db\<rparr>))"

fun deliver_to_members ::
  "world \<Rightarrow> readings \<Rightarrow> string \<Rightarrow> envelope \<Rightarrow> session_id option \<Rightarrow> user_id list \<Rightarrow> server \<Rightarrow> server"
where
  "deliver_to_members w r c env exclude [] sv = sv"
| "deliver_to_members w r c env exclude (u # us) sv =
     deliver_to_members w r c env exclude us
       (case find_session u sv of
          Some i \<Rightarrow> if Some i \<noteq> exclude then send_env i env sv else sv
        | None \<Rightarrow> snd (save_offline r c u (ser_envelope (codec w) env) sv))"

definition broadcast_to_channel ::
  "world \<Rightarrow> readings \<Rightarrow> string \<Rightarrow> envelope \<Rightarrow> session_id option \<Rightarrow> server \<Rightarrow> server"
where
  "broadcast_to_channel w r c env exclude sv =
     (case channel_of c sv of
        None \<Rightarrow> sv
      | Some ch \<Rightarrow> deliver_to_members w r c env exclude (order w (cs_members ch)) sv)"

text \<open>\<open>ChannelManager::route\<close>.\<close>

definition route :: "world \<Rightarrow> readings \<Rightarrow> chat_envelope \<Rightarrow> envelope \<Rightarrow> server \<Rightarrow> server" where
  "route w r chat raw sv =
     (case find_session (ch_recipient_id chat) sv of
        Some i \<Rightarrow> send_env i raw sv
      | None \<Rightarrow> snd (save_offline r [] (ch_recipient_id chat) (ser_envelope (codec w) raw) sv))"

section \<open>Queries and the direct channel operations\<close>

definition is_in_channel :: "string \<Rightarrow> user_id \<Rightarrow> server \<Rightarrow> bool" where
  "is_in_channel c u sv = (case channel_of c sv of None \<Rightarrow> False | Some ch \<Rightarrow> u \<in> cs_members ch)"

definition is_operator :: "string \<Rightarrow> user_id \<Rightarrow> server \<Rightarrow> bool" where
  "is_operator c u sv = (case channel_of c sv of None \<Rightarrow> False | Some ch \<Rightarrow> u \<in> cs_operators ch)"

definition is_voiced :: "string \<Rightarrow> user_id \<Rightarrow> server \<Rightarrow> bool" where
  "is_voiced c u sv = (case channel_of c sv of None \<Rightarrow> False | Some ch \<Rightarrow> u \<in> cs_voiced ch)"

definition get_channel_members :: "world \<Rightarrow> string \<Rightarrow> server \<Rightarrow> user_id list" where
  "get_channel_members w c sv =
     (case channel_of c sv of None \<Rightarrow> [] | Some ch \<Rightarrow> order w (cs_members ch))"

definition get_channel_topic :: "string \<Rightarrow> server \<Rightarrow> string" where
  "get_channel_topic c sv = (case channel_of c sv of None \<Rightarrow> [] | Some ch \<Rightarrow> cs_topic ch)"

text \<open>Adding a member; the one who is alone in the channel becomes its operator.\<close>

definition add_member :: "user_id \<Rightarrow> channel_state \<Rightarrow> channel_state" where
  "add_member u ch =
     (let members = insert u (cs_members ch)
      in ch\<lparr>cs_members := members,
            cs_operators := (if card members = 1 then insert u (cs_operators ch) else cs_operators ch)\<rparr>)"

definition join_channel :: "string \<Rightarrow> user_id \<Rightarrow> server \<Rightarrow> server" where
  "join_channel c u sv =
     (case get_or_create_channel c sv of (ch, sv) \<Rightarrow> set_channel c (Some (add_member u ch)) sv)"

definition part_channel :: "string \<Rightarrow> user_id \<Rightarrow> server \<Rightarrow> server" where
  "part_channel c u sv =
     (case channel_of c sv of
        None \<Rightarrow> sv
      | Some ch \<Rightarrow>
          let ch = remove_member u ch
          in set_channel c (if cs_members ch = {} then None else Some ch) sv)"

section \<open>Rate limits and abuse\<close>

definition kMaxViolations :: int where "kMaxViolations = 5"
definition kViolationWindow :: time where "kViolationWindow = minutes 10"
definition kBanDuration :: time where "kBanDuration = minutes 30"

definition new_user_limits :: "time \<Rightarrow> rate_limiter \<times> rate_limiter" where
  "new_user_limits now = (new_rate_limiter 30 (seconds 60) now, new_rate_limiter 5 (seconds 60) now)"

definition limits_of :: "time \<Rightarrow> user_id \<Rightarrow> server \<Rightarrow> rate_limiter \<times> rate_limiter" where
  "limits_of now u sv =
     (case user_rate_limits (commands sv) u of None \<Rightarrow> new_user_limits now | Some l \<Rightarrow> l)"

definition set_limits :: "user_id \<Rightarrow> rate_limiter \<times> rate_limiter \<Rightarrow> server \<Rightarrow> server" where
  "set_limits u l = upd_commands (\<lambda>cs. cs\<lparr>user_rate_limits := (user_rate_limits cs)(u \<mapsto> l)\<rparr>)"

definition allow_command :: "time \<Rightarrow> user_id \<Rightarrow> server \<Rightarrow> bool \<times> server" where
  "allow_command now u sv =
     (case limits_of now u sv of (cmd, join) \<Rightarrow>
        (case allow now cmd of (ok, cmd) \<Rightarrow> (ok, set_limits u (cmd, join) sv)))"

definition allow_join :: "time \<Rightarrow> user_id \<Rightarrow> server \<Rightarrow> bool \<times> server" where
  "allow_join now u sv =
     (case limits_of now u sv of (cmd, join) \<Rightarrow>
        (case allow now join of (ok, join) \<Rightarrow> (ok, set_limits u (cmd, join) sv)))"

definition set_abuse :: "user_id \<Rightarrow> abuse_record option \<Rightarrow> server \<Rightarrow> server" where
  "set_abuse u a = upd_commands (\<lambda>cs. cs\<lparr>abuse_records := (abuse_records cs)(u := a)\<rparr>)"

definition record_violation :: "time \<Rightarrow> abuse_record option \<Rightarrow> abuse_record" where
  "record_violation now prev =
     (let rec = (case prev of
                   None \<Rightarrow> \<lparr>ab_violations = 0, ab_first_violation = now, ab_last_violation = 0,
                            ab_banned = False\<rparr>
                 | Some a \<Rightarrow> a);
          rec = (if now - ab_first_violation rec > kViolationWindow
                 then rec\<lparr>ab_violations := 0, ab_first_violation := now, ab_banned := False\<rparr> else rec);
          rec = rec\<lparr>ab_violations := ab_violations rec + 1, ab_last_violation := now\<rparr>
      in if ab_violations rec \<ge> kMaxViolations then rec\<lparr>ab_banned := True\<rparr> else rec)"

definition track_abuse :: "time \<Rightarrow> user_id \<Rightarrow> server \<Rightarrow> bool \<times> server" where
  "track_abuse now u sv =
     (let a = record_violation now (abuse_records (commands sv) u)
      in (ab_violations a \<ge> kMaxViolations, set_abuse u (Some a) sv))"

definition is_abuser :: "time \<Rightarrow> user_id \<Rightarrow> server \<Rightarrow> bool \<times> server" where
  "is_abuser now u sv =
     (case abuse_records (commands sv) u of
        None \<Rightarrow> (False, sv)
      | Some a \<Rightarrow>
          if ab_banned a
          then if now - ab_last_violation a > kBanDuration then (False, set_abuse u None sv) else (True, sv)
          else (False, sv))"

definition cleanup_old_abuse_records :: "time \<Rightarrow> server \<Rightarrow> server" where
  "cleanup_old_abuse_records now = upd_commands (\<lambda>cs. cs\<lparr>abuse_records := (\<lambda>u.
     case abuse_records cs u of
       None \<Rightarrow> None
     | Some a \<Rightarrow>
         if (if ab_banned a then now - ab_last_violation a > kBanDuration
             else now - ab_first_violation a > kViolationWindow)
         then None else Some a)\<rparr>)"

section \<open>The commands\<close>

definition cmd_join :: "world \<Rightarrow> readings \<Rightarrow> string list \<Rightarrow> session_id \<Rightarrow> server \<Rightarrow> command_response \<times> server" where
  "cmd_join w r args i sv =
     (if args = [] then (make_response False ''Usage: /join <#channel>'' ''join'', sv)
      else
        let c = sanitize_channel_name (hd args); u = session_user i sv
        in if \<not> is_valid_channel_name c then (make_response False ''Invalid channel name'' ''join'', sv)
           else case allow_join (steady r) u sv of
                  (False, sv) \<Rightarrow>
                    (make_response False ''Rate limit exceeded: too many channel joins. Slow down.'' ''join'',
                     snd (track_abuse (steady r) u sv))
                | (True, sv) \<Rightarrow>
                    (case get_or_create_channel c sv of
                       (ch, sv) \<Rightarrow>
                         if u \<in> cs_banned ch
                         then (make_response False (''You are banned from '' @ c) ''join'', sv)
                         else if cs_invite_only ch \<and> u \<notin> cs_invites ch \<and> u \<notin> cs_operators ch
                         then (make_response False (c @ '' is invite-only'') ''join'', sv)
                         else
                           let sv = set_channel c (Some (add_member u ch)) sv;
                               sv = notify_channel_join w c u sv;
                               sv = send_user_list w c i sv;
                               topic = (if cs_topic ch = [] then ''No topic set'' else ''Topic: '' @ cs_topic ch)
                           in (make_response True (''Joined '' @ c @ [CHR 0x0A] @ topic) ''join'', sv)))"

definition cmd_part :: "world \<Rightarrow> string list \<Rightarrow> session_id \<Rightarrow> server \<Rightarrow> command_response \<times> server" where
  "cmd_part w args i sv =
     (if args = [] then (make_response False ''Usage: /part <#channel> [message]'' ''part'', sv)
      else
        let c = hd args; u = session_user i sv;
            reason = (if length args > 1 then args ! 1 else ''Leaving'')
        in case channel_of c sv of
             None \<Rightarrow> (make_response False (''No such channel: '' @ c) ''part'', sv)
           | Some ch \<Rightarrow>
               if u \<notin> cs_members ch then (make_response False (''You are not in '' @ c) ''part'', sv)
               else
                 let ch = remove_member u ch;
                     sv = notify_channel_part w c u reason (set_channel c (Some ch) sv);
                     sv = (if cs_members ch = {} then set_channel c None sv else sv)
                 in (make_response True (''Left '' @ c) ''part'', sv))"

text \<open>The nick change goes to every channel the user is in, in the traversal order of the map.\<close>

fun announce_nick :: "world \<Rightarrow> readings \<Rightarrow> user_id \<Rightarrow> envelope \<Rightarrow> string list \<Rightarrow> server \<Rightarrow> server" where
  "announce_nick w r u env [] sv = sv"
| "announce_nick w r u env (c # cs) sv =
     announce_nick w r u env cs
       (if is_in_channel c u sv then broadcast_to_channel w r c env None sv else sv)"

definition cmd_nick :: "world \<Rightarrow> readings \<Rightarrow> string list \<Rightarrow> session_id \<Rightarrow> server \<Rightarrow> command_response \<times> server" where
  "cmd_nick w r args i sv =
     (if args = [] then (make_response False ''Usage: /nick <new_nick>'' ''nick'', sv)
      else
        let new_nick = hd args; u = session_user i sv; old_nick = nick_or_id u sv
        in if (case nick_to_user (commands sv) new_nick of None \<Rightarrow> False | Some v \<Rightarrow> v \<noteq> u)
           then (make_response False (''Nickname '' @ new_nick @ '' is already in use'') ''nick'', sv)
           else
             let sv = upd_commands (\<lambda>cs. cs\<lparr>
                        nick_to_user := (nick_to_user cs)(old_nick := None, new_nick \<mapsto> u),
                        user_to_nick := (user_to_nick cs)(u \<mapsto> new_nick)\<rparr>) sv;
                 env = plain_envelope MT_NICK_CHANGE (ser (codec w) (Nick_Change old_nick new_nick));
                 sv = announce_nick w r u env (order w (dom (channels (commands sv)))) sv
             in (make_response True (''You are now known as '' @ new_nick) ''nick'', sv))"

definition cmd_whois :: "world \<Rightarrow> string list \<Rightarrow> server \<Rightarrow> command_response" where
  "cmd_whois w args sv =
     (if args = [] then make_response False ''Usage: /whois <nick>'' ''whois''
      else
        let t = target_of (hd args) sv
        in make_response True
             (ser_user_info (codec w)
                \<lparr>ui_user_id = t, ui_nickname = nick_or_id t sv, ui_is_online = (find_session t sv \<noteq> None),
                 ui_channels = filter (\<lambda>c. is_in_channel c t sv) (order w (dom (channels (commands sv))))\<rparr>)
             ''whois'')"

definition cmd_me :: "string list \<Rightarrow> session_id \<Rightarrow> server \<Rightarrow> command_response" where
  "cmd_me args i sv =
     (if args = [] then make_response False ''Usage: /me <action>'' ''me''
      else make_response True (''Action: '' @ session_user i sv @ '' '' @ join_with '' '' args) ''me'')"

definition cmd_topic :: "world \<Rightarrow> string list \<Rightarrow> session_id \<Rightarrow> server \<Rightarrow> command_response \<times> server" where
  "cmd_topic w args i sv =
     (if args = [] then (make_response False ''Usage: /topic <#channel> [new_topic]'' ''topic'', sv)
      else
        let c = hd args; u = session_user i sv
        in case channel_of c sv of
             None \<Rightarrow> (make_response False (''No such channel: '' @ c) ''topic'', sv)
           | Some ch \<Rightarrow>
               if u \<notin> cs_members ch then (make_response False (''You are not in '' @ c) ''topic'', sv)
               else if length args < 2
               then (make_response True (if cs_topic ch = [] then ''No topic set'' else cs_topic ch) ''topic'', sv)
               else if cs_topic_restricted ch \<and> u \<notin> cs_operators ch
               then (make_response False ''Only operators can change the topic'' ''topic'', sv)
               else
                 let topic = join_with '' '' (tl args);
                     sv = set_channel c (Some (ch\<lparr>cs_topic := topic\<rparr>)) sv
                 in (make_response True (''Topic changed to: '' @ topic) ''topic'', notify_channel_join w c u sv))"

definition cmd_kick :: "world \<Rightarrow> string list \<Rightarrow> session_id \<Rightarrow> server \<Rightarrow> command_response \<times> server" where
  "cmd_kick w args i sv =
     (if length args < 2 then (make_response False ''Usage: /kick <#channel> <nick> [reason]'' ''kick'', sv)
      else
        let c = args ! 0; target = args ! 1; u = session_user i sv;
            reason = (if length args > 2 then args ! 2 else ''Kicked'')
        in case channel_of c sv of
             None \<Rightarrow> (make_response False (''No such channel: '' @ c) ''kick'', sv)
           | Some ch \<Rightarrow>
               if u \<notin> cs_operators ch then (make_response False ''Only operators can kick users'' ''kick'', sv)
               else if nick_to_user (commands sv) target = None \<and> target \<notin> cs_members ch
               then (make_response False (''User not found: '' @ target) ''kick'', sv)
               else
                 let t = target_of target sv
                 in if t \<notin> cs_members ch
                    then (make_response False (target @ '' is not in '' @ c) ''kick'', sv)
                    else
                      let sv = set_channel c (Some (remove_member t ch)) sv;
                          sv = notify_channel_part w c t (''Kicked by '' @ u @ '': '' @ reason) sv;
                          note = make_response False
                                   (''You were kicked from '' @ c @ '' by '' @ u @ '': '' @ reason) ''kick'';
                          sv = send_to_online (response_envelope w note) [t] sv
                      in (make_response True (''Kicked '' @ target @ '' from '' @ c) ''kick'', sv))"

definition cmd_ban :: "world \<Rightarrow> string list \<Rightarrow> session_id \<Rightarrow> server \<Rightarrow> command_response \<times> server" where
  "cmd_ban w args i sv =
     (if length args < 2 then (make_response False ''Usage: /ban <#channel> <nick>'' ''ban'', sv)
      else
        let c = args ! 0; target = args ! 1; u = session_user i sv
        in case channel_of c sv of
             None \<Rightarrow> (make_response False (''No such channel: '' @ c) ''ban'', sv)
           | Some ch \<Rightarrow>
               if u \<notin> cs_operators ch then (make_response False ''Only operators can ban users'' ''ban'', sv)
               else
                 let t = target_of target sv;
                     banned = ch\<lparr>cs_banned := insert t (cs_banned ch)\<rparr>;
                     sv = (if t \<in> cs_members ch
                           then notify_channel_part w c t (''Banned by '' @ u)
                                  (set_channel c (Some (banned\<lparr>cs_members := cs_members ch - {t}\<rparr>)) sv)
                           else set_channel c (Some banned) sv)
                 in (make_response True (''Banned '' @ target @ '' from '' @ c) ''ban'', sv))"

definition cmd_invite :: "world \<Rightarrow> string list \<Rightarrow> session_id \<Rightarrow> server \<Rightarrow> command_response \<times> server" where
  "cmd_invite w args i sv =
     (if length args < 2 then (make_response False ''Usage: /invite <#channel> <nick> [message]'' ''invite'', sv)
      else
        let c = args ! 0; target = args ! 1; u = session_user i sv;
            message = (if length args > 2 then args ! 2 else [])
        in case channel_of c sv of
             None \<Rightarrow> (make_response False (''No such channel: '' @ c) ''invite'', sv)
           | Some ch \<Rightarrow>
               if u \<notin> cs_operators ch then (make_response False ''Only operators can invite users'' ''invite'', sv)
               else
                 let t = target_of target sv;
                     sv = set_channel c (Some (ch\<lparr>cs_invites := insert t (cs_invites ch)\<rparr>)) sv;
                     note = make_response True (u @ '' invited you to '' @ c @
                              (if message = [] then [] else '': '' @ message)) ''invite'';
                     sv = send_to_online (response_envelope w note) [t] sv
                 in (make_response True (''Invited '' @ target @ '' to '' @ c) ''invite'', sv))"

definition is_true_value :: "string \<Rightarrow> bool" where
  "is_true_value v \<longleftrightarrow> v = ''true'' \<or> v = ''1'' \<or> v = ''on''"

definition bool_text :: "bool \<Rightarrow> string" where
  "bool_text b = (if b then ''true'' else ''false'')"

definition cmd_set :: "string list \<Rightarrow> session_id \<Rightarrow> server \<Rightarrow> command_response \<times> server" where
  "cmd_set args i sv =
     (if length args < 3 then (make_response False ''Usage: /set <#channel> <option> <value>'' ''set'', sv)
      else
        let c = args ! 0; option = map to_lower (args ! 1); b = is_true_value (args ! 2);
            u = session_user i sv
        in case channel_of c sv of
             None \<Rightarrow> (make_response False (''No such channel: '' @ c) ''set'', sv)
           | Some ch \<Rightarrow>
               if u \<notin> cs_operators ch
               then (make_response False ''Only operators can change channel settings'' ''set'', sv)
               else if option = ''invite_only''
               then (make_response True (''invite_only set to '' @ bool_text b) ''set'',
                     set_channel c (Some (ch\<lparr>cs_invite_only := b\<rparr>)) sv)
               else if option = ''moderated''
               then (make_response True (''moderated set to '' @ bool_text b) ''set'',
                     set_channel c (Some (ch\<lparr>cs_moderated := b\<rparr>)) sv)
               else if option = ''topic_restricted''
               then (make_response True (''topic_restricted set to '' @ bool_text b) ''set'',
                     set_channel c (Some (ch\<lparr>cs_topic_restricted := b\<rparr>)) sv)
               else (make_response False (''Unknown option: '' @ option) ''set'', sv))"

definition cmd_mode :: "string list \<Rightarrow> session_id \<Rightarrow> server \<Rightarrow> command_response \<times> server" where
  "cmd_mode args i sv =
     (if length args < 3 then (make_response False ''Usage: /mode <#channel> <+o|-o> <nick>'' ''mode'', sv)
      else
        let c = args ! 0; mode = args ! 1; target = args ! 2; u = session_user i sv
        in case channel_of c sv of
             None \<Rightarrow> (make_response False (''No such channel: '' @ c) ''mode'', sv)
           | Some ch \<Rightarrow>
               if u \<notin> cs_operators ch then (make_response False ''Only operators can change modes'' ''mode'', sv)
               else
                 let t = target_of target sv
                 in if t \<notin> cs_members ch then (make_response False (target @ '' is not in '' @ c) ''mode'', sv)
                    else if mode = ''+o''
                    then (make_response True (''Gave operator status to '' @ target) ''mode'',
                          set_channel c (Some (ch\<lparr>cs_operators := insert t (cs_operators ch)\<rparr>)) sv)
                    else if mode = ''-o''
                    then (make_response True (''Removed operator status from '' @ target) ''mode'',
                          set_channel c (Some (ch\<lparr>cs_operators := cs_operators ch - {t}\<rparr>)) sv)
                    else if mode = ''+v''
                    then (make_response True (''Gave voice to '' @ target) ''mode'',
                          set_channel c (Some (ch\<lparr>cs_voiced := insert t (cs_voiced ch)\<rparr>)) sv)
                    else if mode = ''-v''
                    then (make_response True (''Removed voice from '' @ target) ''mode'',
                          set_channel c (Some (ch\<lparr>cs_voiced := cs_voiced ch - {t}\<rparr>)) sv)
                    else (make_response False (''Unknown mode: '' @ mode) ''mode'', sv))"

definition strong_password :: "string \<Rightarrow> bool" where
  "strong_password p \<longleftrightarrow> list_ex is_upper p \<and> list_ex is_lower p \<and> list_ex is_digit p"

definition cmd_password :: "world \<Rightarrow> readings \<Rightarrow> string list \<Rightarrow> session_id \<Rightarrow> server \<Rightarrow> command_response \<times> server"
where
  "cmd_password w r args i sv =
     (if length args < 2
      then (make_response False ''Usage: /password <old_password> <new_password>'' ''password'', sv)
      else
        let u = session_user i sv; old_pass = args ! 0; new_pass = args ! 1
        in if length new_pass < 8
           then (make_response False ''New password must be at least 8 characters'' ''password'', sv)
           else if \<not> strong_password new_pass
           then (make_response False
                   ''Password must contain at least one uppercase letter, one lowercase letter, and one digit''
                   ''password'', sv)
           else case update_password (pw_hash w) (pw_check w) (db_fails r 0) (db_fails r 1) u old_pass
                       new_pass (user_store sv) of
                  (True, db) \<Rightarrow>
                    (make_response True ''Password updated successfully'' ''password'', sv\<lparr>user_store := db\<rparr>)
                | (False, db) \<Rightarrow>
                    (make_response False ''Old password is incorrect'' ''password'', sv\<lparr>user_store := db\<rparr>))"

definition quit_channels :: "world \<Rightarrow> user_id \<Rightarrow> string \<Rightarrow> string list \<Rightarrow> server \<Rightarrow> server" where
  "quit_channels w u reason cs sv =
     foldl (\<lambda>sv c. notify_channel_part w c u reason (part_channel c u sv)) sv cs"

definition cmd_quit :: "world \<Rightarrow> string list \<Rightarrow> session_id \<Rightarrow> server \<Rightarrow> command_response \<times> server" where
  "cmd_quit w args i sv =
     (let reason = (if args = [] then ''Quit'' else hd args); u = session_user i sv;
          cs = filter (\<lambda>c. is_in_channel c u sv) (order w (dom (channels (commands sv))));
          sv = quit_channels w u reason cs sv
      in (make_response True ''Goodbye!'' ''quit'', disconnect i sv))"

definition cmd_msg :: "string list \<Rightarrow> server \<Rightarrow> command_response" where
  "cmd_msg args sv =
     (if length args < 2 then make_response False ''Usage: /msg <nick> <message>'' ''msg''
      else
        let target = args ! 0; t = target_of target sv
        in if find_session t sv = None then make_response False (target @ '' is offline'') ''msg''
           else make_response True (''-> '' @ target @ '': '' @ join_with '' '' (tl args)) ''msg'')"

text \<open>The four deletions, one after the other; the first that throws ends the command.\<close>

definition delete_offline_messages :: "offline_db \<Rightarrow> offline_db" where
  "delete_offline_messages db = db\<lparr>om_rows := []\<rparr>"

definition cmd_resetdb :: "readings \<Rightarrow> session_id \<Rightarrow> server \<Rightarrow> command_response \<times> server" where
  "cmd_resetdb r i sv =
     (if session_user i sv \<noteq> ''admin''
      then (make_response False ''Permission denied: only admin can reset database'' ''resetdb'', sv)
      else
        let failed = make_response False (''Database error: '' @ sql_error r) ''resetdb''
        in case delete_all_users (db_fails r 0) (user_store sv) of
             Threw db \<Rightarrow> (failed, sv\<lparr>user_store := db\<rparr>)
           | Returned db \<Rightarrow>
               (case delete_all_spks (db_fails r 1) db of
                  Threw db \<Rightarrow> (failed, sv\<lparr>user_store := db\<rparr>)
                | Returned db \<Rightarrow>
                    (case delete_all_opks (db_fails r 2) db of
                       Threw db \<Rightarrow> (failed, sv\<lparr>user_store := db\<rparr>)
                     | Returned db \<Rightarrow>
                         if db_fails r 3 then (failed, sv\<lparr>user_store := db\<rparr>)
                         else (make_response True
                                 ''Database cleared successfully. All users and keys removed.'' ''resetdb'',
                               sv\<lparr>user_store := db,
                                  offline_store := delete_offline_messages (offline_store sv)\<rparr>))))"

section \<open>Dispatch\<close>

text \<open>The entries of \<open>command_map_\<close>; \<open>None\<close> is an unknown command.\<close>

definition run_command ::
  "world \<Rightarrow> readings \<Rightarrow> string \<Rightarrow> string list \<Rightarrow> session_id \<Rightarrow> server \<Rightarrow> (command_response \<times> server) option"
where
  "run_command w r name args i sv =
     (if name = ''join'' then Some (cmd_join w r args i sv)
      else if name = ''part'' \<or> name = ''leave'' then Some (cmd_part w args i sv)
      else if name = ''nick'' then Some (cmd_nick w r args i sv)
      else if name = ''whois'' then Some (cmd_whois w args sv, sv)
      else if name = ''me'' \<or> name = ''action'' then Some (cmd_me args i sv, sv)
      else if name = ''topic'' then Some (cmd_topic w args i sv)
      else if name = ''kick'' then Some (cmd_kick w args i sv)
      else if name = ''ban'' then Some (cmd_ban w args i sv)
      else if name = ''invite'' then Some (cmd_invite w args i sv)
      else if name = ''set'' then Some (cmd_set args i sv)
      else if name = ''mode'' then Some (cmd_mode args i sv)
      else if name = ''password'' \<or> name = ''pass'' then Some (cmd_password w r args i sv)
      else if name = ''quit'' then Some (cmd_quit w args i sv)
      else if name = ''msg'' \<or> name = ''query'' then Some (cmd_msg args sv, sv)
      else if name = ''resetdb'' then Some (cmd_resetdb r i sv)
      else None)"

definition handle_command ::
  "world \<Rightarrow> readings \<Rightarrow> irc_command \<Rightarrow> session_id \<Rightarrow> server \<Rightarrow> command_response \<times> server"
where
  "handle_command w r cmd i sv =
     (if ic_command cmd = [] then (make_response False ''Empty command'' [], sv)
      else
        let u = session_user i sv
        in case is_abuser (steady r) u sv of
             (True, sv) \<Rightarrow>
               (make_response False
                  ''You are temporarily banned due to rate limit violations. Please wait.'' (ic_command cmd), sv)
           | (False, sv) \<Rightarrow>
               (case allow_command (steady r) u sv of
                  (False, sv) \<Rightarrow>
                    (make_response False ''Rate limit exceeded: too many commands. Slow down.'' (ic_command cmd),
                     snd (track_abuse (steady r) u sv))
                | (True, sv) \<Rightarrow>
                    let name = map to_lower (ic_command cmd)
                    in case run_command w r name (ic_args cmd) i sv of
                         Some result \<Rightarrow> result
                       | None \<Rightarrow> (make_response False (''Unknown command: '' @ name) name, sv)))"

end
