(* ===== verification/Channel_Safety.thy ===== *)
theory Channel_Safety
  imports Command_Handler
begin

text \<open>
  What the commands of \<open>Command_Handler\<close> keep and what they cannot do: the invariant of channels,
  nicknames and limits, the powers of who is not an operator, delivery to a channel's members, and the
  temporary ban of abusive clients.
\<close>

section \<open>What the operations leave alone\<close>

definition online_sends :: "envelope \<Rightarrow> user_id list \<Rightarrow> server \<Rightarrow> (session_id \<times> envelope) list" where
  "online_sends env us sv =
     concat (map (\<lambda>u. case by_user sv u of None \<Rightarrow> [] | Some i \<Rightarrow> [(i, env)]) us)"

lemma send_to_online_eq:
  "send_to_online env us sv = sv\<lparr>sent := sent sv @ online_sends env us sv\<rparr>"
  by (induction us arbitrary: sv)
     (simp_all add: online_sends_def find_session_def send_env_def split: option.splits)

lemma broadcast_user_list_frame:
  obtains x where "broadcast_user_list w c sv = sv\<lparr>sent := sent sv @ x\<rparr>"
proof (cases "channel_of c sv")
  case None
  then have "broadcast_user_list w c sv = sv\<lparr>sent := sent sv @ []\<rparr>" by (simp add: broadcast_user_list_def)
  then show ?thesis by (rule that)
next
  case (Some ch)
  then show ?thesis by (intro that) (simp add: broadcast_user_list_def send_to_online_eq)
qed

text \<open>The fields that sending, storing and the limits do not write.\<close>

lemma user_list_fields [frame_simps]:
  "commands (broadcast_user_list w c sv) = commands sv"
  "user_store (broadcast_user_list w c sv) = user_store sv"
  "offline_store (broadcast_user_list w c sv) = offline_store sv"
  "by_user (broadcast_user_list w c sv) = by_user sv"
  "by_session (broadcast_user_list w c sv) = by_session sv"
  "sessions (broadcast_user_list w c sv) = sessions sv"
  "next_session (broadcast_user_list w c sv) = next_session sv"
  "file_store (broadcast_user_list w c sv) = file_store sv"
  "voice_rooms (broadcast_user_list w c sv) = voice_rooms sv"
  "scanner (broadcast_user_list w c sv) = scanner sv"
  "closing (broadcast_user_list w c sv) = closing sv"
  by (rule broadcast_user_list_frame [of w c sv]; simp)+

lemma send_env_fields [frame_simps]:
  "commands (send_env i e sv) = commands sv" "user_store (send_env i e sv) = user_store sv"
  "offline_store (send_env i e sv) = offline_store sv" "by_user (send_env i e sv) = by_user sv"
  "by_session (send_env i e sv) = by_session sv" "sessions (send_env i e sv) = sessions sv"
  "next_session (send_env i e sv) = next_session sv" "file_store (send_env i e sv) = file_store sv"
  "voice_rooms (send_env i e sv) = voice_rooms sv" "scanner (send_env i e sv) = scanner sv"
  "closing (send_env i e sv) = closing sv"
  by (simp_all add: send_env_def)

lemma send_user_list_fields [frame_simps]:
  "commands (send_user_list w c i sv) = commands sv" "user_store (send_user_list w c i sv) = user_store sv"
  "offline_store (send_user_list w c i sv) = offline_store sv" "by_user (send_user_list w c i sv) = by_user sv"
  "by_session (send_user_list w c i sv) = by_session sv" "sessions (send_user_list w c i sv) = sessions sv"
  "next_session (send_user_list w c i sv) = next_session sv" "file_store (send_user_list w c i sv) = file_store sv"
  "voice_rooms (send_user_list w c i sv) = voice_rooms sv" "scanner (send_user_list w c i sv) = scanner sv"
  "closing (send_user_list w c i sv) = closing sv"
  by (simp_all add: send_user_list_def frame_simps split: option.splits)

lemma upd_commands_fields [frame_simps]:
  "commands (upd_commands f sv) = f (commands sv)" "user_store (upd_commands f sv) = user_store sv"
  "offline_store (upd_commands f sv) = offline_store sv" "by_user (upd_commands f sv) = by_user sv"
  "by_session (upd_commands f sv) = by_session sv" "sessions (upd_commands f sv) = sessions sv"
  "next_session (upd_commands f sv) = next_session sv" "file_store (upd_commands f sv) = file_store sv"
  "voice_rooms (upd_commands f sv) = voice_rooms sv" "scanner (upd_commands f sv) = scanner sv"
  "closing (upd_commands f sv) = closing sv"
  by (simp_all add: upd_commands_def)

lemma deliver_fields [frame_simps]:
  "commands (deliver_to_members w r c e x us sv) = commands sv"
  "user_store (deliver_to_members w r c e x us sv) = user_store sv"
  "by_user (deliver_to_members w r c e x us sv) = by_user sv"
  "by_session (deliver_to_members w r c e x us sv) = by_session sv"
  "sessions (deliver_to_members w r c e x us sv) = sessions sv"
  "next_session (deliver_to_members w r c e x us sv) = next_session sv"
  "file_store (deliver_to_members w r c e x us sv) = file_store sv"
  "voice_rooms (deliver_to_members w r c e x us sv) = voice_rooms sv"
  "scanner (deliver_to_members w r c e x us sv) = scanner sv"
  "closing (deliver_to_members w r c e x us sv) = closing sv"
  by (induction us arbitrary: sv)
     (simp_all add: frame_simps save_offline_def split: option.splits prod.splits)

lemma announce_fields [frame_simps]:
  "commands (announce_nick w r u e cs sv) = commands sv"
  "user_store (announce_nick w r u e cs sv) = user_store sv"
  "by_user (announce_nick w r u e cs sv) = by_user sv"
  "by_session (announce_nick w r u e cs sv) = by_session sv"
  "sessions (announce_nick w r u e cs sv) = sessions sv"
  "next_session (announce_nick w r u e cs sv) = next_session sv"
  "file_store (announce_nick w r u e cs sv) = file_store sv"
  "voice_rooms (announce_nick w r u e cs sv) = voice_rooms sv"
  "scanner (announce_nick w r u e cs sv) = scanner sv"
  "closing (announce_nick w r u e cs sv) = closing sv"
  by (induction cs arbitrary: sv)
     (simp_all add: frame_simps broadcast_to_channel_def split: option.splits)

lemma channel_of_set [simp]:
  "channel_of c (set_channel d x sv) = (if c = d then x else channel_of c sv)"
  by (simp add: channel_of_def set_channel_def frame_simps)

lemma channel_of_frames [simp]:
  "channel_of c (broadcast_user_list w d sv) = channel_of c sv"
  "channel_of c (send_env i e sv) = channel_of c sv"
  "channel_of c (send_user_list w d i sv) = channel_of c sv"
  "channel_of c (set_limits u l sv) = channel_of c sv"
  "channel_of c (set_abuse u a sv) = channel_of c sv"
  "channel_of c (disconnect i sv) = channel_of c sv"
  "channel_of c (announce_nick w r u e cs sv) = channel_of c sv"
  by (simp_all add: channel_of_def frame_simps set_limits_def set_abuse_def disconnect_def)

lemma channel_of_other [simp]:
  "channel_of c (send_to_online e us sv) = channel_of c sv"
  "channel_of c (sv\<lparr>user_store := a\<rparr>) = channel_of c sv"
  "channel_of c (sv\<lparr>user_store := a, offline_store := b\<rparr>) = channel_of c sv"
  "channel_of c (snd (track_abuse now u sv)) = channel_of c sv"
  "channel_of c (snd (is_abuser now u sv)) = channel_of c sv"
  "channel_of c (snd (allow_command now u sv)) = channel_of c sv"
  "channel_of c (snd (allow_join now u sv)) = channel_of c sv"
  by (simp_all add: send_to_online_eq track_abuse_def is_abuser_def allow_command_def allow_join_def Let_def
      split: option.splits prod.splits)
     (simp_all add: channel_of_def)

lemma session_user_frames [simp]:
  "session_user i (set_channel c x sv) = session_user i sv"
  "session_user i (set_limits u l sv) = session_user i sv"
  "session_user i (set_abuse u a sv) = session_user i sv"
  "session_user i (snd (is_abuser now u sv)) = session_user i sv"
  "session_user i (snd (allow_command now u sv)) = session_user i sv"
  by (simp_all add: session_user_def frame_simps set_limits_def set_abuse_def set_channel_def
      is_abuser_def allow_command_def split: option.splits prod.splits)

section \<open>What a command can do to a channel\<close>

text \<open>
  How a channel may change at the hands of user \<open>u\<close> when \<open>u\<close> is not one of its operators: \<open>u\<close> comes and
  goes, and may set a topic that is not restricted.  Everybody else keeps membership, operator status
  and voice; the bans, the invitations and the settings stay.  The channel disappears only with its last
  member \<open>u\<close>, and \<open>u\<close> becomes its operator only by being alone in it.
\<close>

definition outsider_change :: "user_id \<Rightarrow> channel_state option \<Rightarrow> channel_state option \<Rightarrow> bool" where
  "outsider_change u old new \<longleftrightarrow>
     (case (old, new) of
        (None, None) \<Rightarrow> True
      | (None, Some ch') \<Rightarrow>
          cs_members ch' \<subseteq> {u} \<and> cs_operators ch' \<subseteq> {u} \<and> cs_voiced ch' = {} \<and> cs_banned ch' = {}
      | (Some ch, None) \<Rightarrow> cs_members ch = {u}
      | (Some ch, Some ch') \<Rightarrow>
          cs_members ch' - {u} = cs_members ch - {u} \<and>
          cs_operators ch' - {u} = cs_operators ch - {u} \<and>
          cs_voiced ch' - {u} = cs_voiced ch - {u} \<and>
          cs_banned ch' = cs_banned ch \<and> cs_invites ch' = cs_invites ch \<and>
          cs_invite_only ch' = cs_invite_only ch \<and> cs_moderated ch' = cs_moderated ch \<and>
          cs_topic_restricted ch' = cs_topic_restricted ch \<and>
          (cs_topic ch' \<noteq> cs_topic ch \<longrightarrow> \<not> cs_topic_restricted ch \<and> u \<in> cs_members ch) \<and>
          (u \<in> cs_operators ch' \<longrightarrow> cs_members ch' = {u}))"

lemma outsider_same: "(\<forall>ch. x = Some ch \<longrightarrow> u \<notin> cs_operators ch) \<Longrightarrow> outsider_change u x x"
  by (auto simp: outsider_change_def split: option.splits)

definition not_operator :: "user_id \<Rightarrow> channel_state option \<Rightarrow> bool" where
  "not_operator u x \<longleftrightarrow> (\<forall>ch. x = Some ch \<longrightarrow> u \<notin> cs_operators ch)"

lemma not_operator_same [simp]: "not_operator u x \<Longrightarrow> outsider_change u x x"
  by (simp add: outsider_same not_operator_def)

text \<open>\<open>part_channel\<close> as a function of the channel's state; doing it twice is doing it once.\<close>

definition parted :: "user_id \<Rightarrow> channel_state option \<Rightarrow> channel_state option" where
  "parted u x = (case x of None \<Rightarrow> None
     | Some ch \<Rightarrow> if cs_members ch - {u} = {} then None else Some (remove_member u ch))"

lemma parted_idem [simp]: "parted u (parted u x) = parted u x"
  by (auto simp: parted_def remove_member_def split: option.splits)

lemma channel_of_part [simp]:
  "channel_of c (part_channel d u sv) = (if c = d then parted u (channel_of c sv) else channel_of c sv)"
  by (auto simp: part_channel_def parted_def remove_member_def Let_def split: option.splits)

lemma channel_of_quit:
  "channel_of c (quit_channels w u reason cs sv) =
    (if c \<in> set cs then parted u (channel_of c sv) else channel_of c sv)"
  unfolding quit_channels_def notify_channel_part_def
  by (induction cs arbitrary: sv) auto

lemma outsider_parted:
  "not_operator u (Some ch) \<Longrightarrow> u \<in> cs_members ch \<Longrightarrow> outsider_change u (Some ch) (parted u (Some ch))"
  by (auto simp: outsider_change_def parted_def remove_member_def not_operator_def)

lemma outsider_add:
  assumes "not_operator u x"
  shows "outsider_change u x (Some (add_member u (case x of None \<Rightarrow> empty_channel | Some ch \<Rightarrow> ch)))"
  using assms
  by (auto simp: outsider_change_def add_member_def empty_channel_def not_operator_def Let_def card_1_singleton_iff
      split: option.splits)

lemma outsider_create:
  "not_operator u x \<Longrightarrow> outsider_change u x (Some (case x of None \<Rightarrow> empty_channel | Some ch \<Rightarrow> ch))"
  by (auto simp: outsider_change_def empty_channel_def not_operator_def split: option.splits)

lemma get_or_create_eq:
  "get_or_create_channel c sv =
    (let ch = (case channel_of c sv of None \<Rightarrow> empty_channel | Some ch \<Rightarrow> ch)
     in (ch, if channel_of c sv = None then set_channel c (Some ch) sv else sv))"
  by (simp add: get_or_create_channel_def split: option.splits)

text \<open>The three ways a join leaves a channel: as it was, made, or with the user added.\<close>

definition or_empty :: "channel_state option \<Rightarrow> channel_state" where
  "or_empty x = (case x of None \<Rightarrow> empty_channel | Some ch \<Rightarrow> ch)"

lemma join_channel_cases:
  fixes w r args i sv c
  defines "u \<equiv> session_user i sv" and "ch \<equiv> or_empty (channel_of c sv)"
    and "new \<equiv> channel_of c (snd (cmd_join w r args i sv))"
  shows "new = channel_of c sv \<or>
    is_valid_channel_name c \<and> (new = Some ch \<or> u \<notin> cs_banned ch \<and> new = Some (add_member u ch))"
proof -
  obtain ok sv1 where a: "allow_join (steady r) u sv = (ok, sv1)" by fastforce
  have c1: "channel_of d sv1 = channel_of d sv" for d
    using channel_of_other(7) [of d "steady r" u sv] by (simp add: a)
  let ?d = "sanitize_channel_name (hd args)"
  consider "args = [] \<or> \<not> is_valid_channel_name ?d" | "args \<noteq> []" "is_valid_channel_name ?d" "\<not> ok"
    | "args \<noteq> []" "is_valid_channel_name ?d" ok by blast
  then show ?thesis
  proof cases
    case 1
    then show ?thesis by (auto simp: new_def cmd_join_def Let_def)
  next
    case 2
    with a c1 show ?thesis by (simp add: new_def cmd_join_def Let_def flip: u_def)
  next
    case 3
    then have res: "new = channel_of c (snd (let ch = or_empty (channel_of ?d sv);
        sv2 = (if channel_of ?d sv = None then set_channel ?d (Some ch) sv1 else sv1)
      in if u \<in> cs_banned ch \<or> (cs_invite_only ch \<and> u \<notin> cs_invites ch \<and> u \<notin> cs_operators ch)
         then ((), sv2) else ((), set_channel ?d (Some (add_member u ch)) sv2)))"
      using a c1 by (simp add: new_def cmd_join_def get_or_create_eq or_empty_def notify_channel_join_def
          Let_def flip: u_def split: option.splits)
    show ?thesis using 3 c1 unfolding res ch_def Let_def
      by (cases "c = ?d") (auto simp: or_empty_def split: option.splits)
  qed
qed

lemma join_outsider:
  assumes "not_operator (session_user i sv) (channel_of c sv)"
  shows "outsider_change (session_user i sv) (channel_of c sv) (channel_of c (snd (cmd_join w r args i sv)))"
  using join_channel_cases [of c w r args i sv] assms outsider_add [OF assms] outsider_create [OF assms]
  by (auto simp: or_empty_def)

text \<open>Without operator status the moderation commands change nothing.\<close>

lemma moderation_refused:
  assumes "not_operator (session_user i sv) (channel_of c sv)"
  shows "channel_of c (snd (cmd_kick w args i sv)) = channel_of c sv"
    and "channel_of c (snd (cmd_ban w args i sv)) = channel_of c sv"
    and "channel_of c (snd (cmd_invite w args i sv)) = channel_of c sv"
    and "channel_of c (snd (cmd_set args i sv)) = channel_of c sv"
    and "channel_of c (snd (cmd_mode args i sv)) = channel_of c sv"
  using assms
  by (auto simp: cmd_kick_def cmd_ban_def cmd_invite_def cmd_set_def cmd_mode_def not_operator_def
      notify_channel_part_def Let_def split: option.splits)

lemma part_channel_cases:
  "channel_of c (snd (cmd_part w args i sv)) = channel_of c sv \<or>
   is_in_channel c (session_user i sv) sv \<and>
     channel_of c (snd (cmd_part w args i sv)) = parted (session_user i sv) (channel_of c sv)"
  by (auto simp: cmd_part_def notify_channel_part_def is_in_channel_def parted_def remove_member_def Let_def
      split: option.splits)

lemma topic_channel_cases:
  "channel_of c (snd (cmd_topic w args i sv)) = channel_of c sv \<or>
   (\<exists>ch. channel_of c sv = Some ch \<and> session_user i sv \<in> cs_members ch \<and>
      (cs_topic_restricted ch \<longrightarrow> session_user i sv \<in> cs_operators ch) \<and>
      channel_of c (snd (cmd_topic w args i sv)) = Some (ch\<lparr>cs_topic := join_with '' '' (tl args)\<rparr>))"
  by (auto simp: cmd_topic_def notify_channel_join_def Let_def split: option.splits)

lemma other_channels:
  "channel_of c (snd (cmd_nick w r args i sv)) = channel_of c sv"
  "channel_of c (snd (cmd_password w r args i sv)) = channel_of c sv"
  "channel_of c (snd (cmd_resetdb r i sv)) = channel_of c sv"
  by (auto simp: cmd_nick_def cmd_password_def cmd_resetdb_def Let_def channel_of_def frame_simps
      split: option.splits outcome.splits prod.splits bool.splits)

lemma quit_channel_cases:
  "channel_of c (snd (cmd_quit w args i sv)) = channel_of c sv \<or>
   is_in_channel c (session_user i sv) sv \<and>
     channel_of c (snd (cmd_quit w args i sv)) = parted (session_user i sv) (channel_of c sv)"
  by (auto simp: cmd_quit_def channel_of_quit Let_def)

lemma outsider_in_parted:
  assumes "not_operator u x" "is_in_channel c u sv" "channel_of c sv = x"
  shows "outsider_change u x (parted u x)"
  using assms by (auto simp: is_in_channel_def intro!: outsider_parted split: option.splits)

lemma outsider_topic:
  "not_operator u (Some ch) \<Longrightarrow> u \<in> cs_members ch \<Longrightarrow> (cs_topic_restricted ch \<longrightarrow> u \<in> cs_operators ch) \<Longrightarrow>
   outsider_change u (Some ch) (Some (ch\<lparr>cs_topic := t\<rparr>))"
  by (auto simp: outsider_change_def not_operator_def)

text \<open>The states a command can end in; a property of a command's effect is shown for each of them.\<close>

lemma if_SomeE:
  assumes "(if b then Some x else y) = Some z"
  obtains "z = x" | "y = Some z"
  using assms by (cases b) auto

lemma run_command_states:
  assumes run: "run_command w r name args i sv = Some res"
  obtains "snd res = sv" | "snd res = snd (cmd_join w r args i sv)" | "snd res = snd (cmd_part w args i sv)"
    | "snd res = snd (cmd_nick w r args i sv)" | "snd res = snd (cmd_topic w args i sv)"
    | "snd res = snd (cmd_kick w args i sv)" | "snd res = snd (cmd_ban w args i sv)"
    | "snd res = snd (cmd_invite w args i sv)" | "snd res = snd (cmd_set args i sv)"
    | "snd res = snd (cmd_mode args i sv)" | "snd res = snd (cmd_password w r args i sv)"
    | "snd res = snd (cmd_quit w args i sv)" | "snd res = snd (cmd_resetdb r i sv)"
  using run unfolding run_command_def
  by (elim if_SomeE) (simp_all add: that)

lemma run_command_outsider:
  assumes no: "not_operator (session_user i sv) (channel_of c sv)"
    and run: "run_command w r name args i sv = Some res"
  shows "outsider_change (session_user i sv) (channel_of c sv) (channel_of c (snd res))"
proof -
  note same = not_operator_same [OF no]
  have join: "outsider_change (session_user i sv) (channel_of c sv) (channel_of c (snd (cmd_join w r args i sv)))"
    by (rule join_outsider [OF no])
  have part: "outsider_change (session_user i sv) (channel_of c sv) (channel_of c (snd (cmd_part w args i sv)))"
    using part_channel_cases [of c w args i sv] same outsider_in_parted [OF no] by auto
  have quit: "outsider_change (session_user i sv) (channel_of c sv) (channel_of c (snd (cmd_quit w args i sv)))"
    using quit_channel_cases [of c w args i sv] same outsider_in_parted [OF no] by auto
  have topic: "outsider_change (session_user i sv) (channel_of c sv) (channel_of c (snd (cmd_topic w args i sv)))"
    using topic_channel_cases [of c w args i sv] same no outsider_topic by metis
  from run show ?thesis
    by (cases rule: run_command_states)
       (simp_all add: join part quit topic same moderation_refused [OF no] other_channels)
qed

text \<open>The state after the two gates in front of every command: the ban check and the rate limit.\<close>

definition admitted :: "readings \<Rightarrow> session_id \<Rightarrow> server \<Rightarrow> server" where
  "admitted r i sv =
     (let u = session_user i sv in snd (allow_command (steady r) u (snd (is_abuser (steady r) u sv))))"

lemma admitted_frames [simp]:
  "channel_of c (admitted r i sv) = channel_of c sv"
  "session_user j (admitted r i sv) = session_user j sv"
  by (simp_all add: admitted_def Let_def)

lemma handle_command_states:
  obtains "snd (handle_command w r cmd i sv) = sv"
  | "snd (handle_command w r cmd i sv) = snd (is_abuser (steady r) (session_user i sv) sv)"
  | "snd (handle_command w r cmd i sv) = snd (track_abuse (steady r) (session_user i sv) (admitted r i sv))"
  | "snd (handle_command w r cmd i sv) = admitted r i sv"
  | res where "run_command w r (map to_lower (ic_command cmd)) (ic_args cmd) i (admitted r i sv) = Some res"
      "handle_command w r cmd i sv = res"
proof -
  obtain b sv1 where a: "is_abuser (steady r) (session_user i sv) sv = (b, sv1)" by fastforce
  obtain ok sv2 where l: "allow_command (steady r) (session_user i sv) sv1 = (ok, sv2)" by fastforce
  have adm: "admitted r i sv = sv2" by (simp add: admitted_def a l Let_def)
  consider "ic_command cmd = []" | "ic_command cmd \<noteq> []" b | "ic_command cmd \<noteq> []" "\<not> b" "\<not> ok"
    | "ic_command cmd \<noteq> []" "\<not> b" ok by blast
  then show thesis
  proof cases
    case 1
    then show thesis by (intro that(1)) (simp add: handle_command_def)
  next
    case 2
    then show thesis by (intro that(2)) (simp add: handle_command_def Let_def a)
  next
    case 3
    then show thesis by (intro that(3)) (simp add: handle_command_def Let_def a l adm)
  next
    case 4
    then have eq: "handle_command w r cmd i sv =
        (case run_command w r (map to_lower (ic_command cmd)) (ic_args cmd) i sv2 of
           Some result \<Rightarrow> result
         | None \<Rightarrow> (make_response False (''Unknown command: '' @ map to_lower (ic_command cmd))
                     (map to_lower (ic_command cmd)), sv2))"
      by (simp add: handle_command_def Let_def a l)
    show thesis
    proof (cases "run_command w r (map to_lower (ic_command cmd)) (ic_args cmd) i sv2")
      case None
      then show thesis by (intro that(4)) (simp add: eq adm)
    next
      case (Some res)
      then show thesis by (intro that(5) [of res]) (simp_all add: eq adm)
    qed
  qed
qed

text \<open>
  C14: Whatever command a user who is not an operator of a channel sends, the channel changes only as an
  outsider may change it: nobody else's membership, operator status or voice, no ban, invitation or
  setting is touched; the topic changes only where it is unrestricted; and the user becomes an operator
  only by being alone in the channel.
\<close>

theorem non_operator_powerless:
  assumes no: "not_operator (session_user i sv) (channel_of c sv)"
  shows "outsider_change (session_user i sv) (channel_of c sv)
    (channel_of c (snd (handle_command w r cmd i sv)))"
proof (cases rule: handle_command_states [of w r cmd i sv])
  case (5 res)
  with run_command_outsider [of i "admitted r i sv" c] no show ?thesis by simp
qed (use no in simp_all)

definition demo_channel :: "user_id set \<Rightarrow> user_id set \<Rightarrow> channel_state" where
  "demo_channel members ops = empty_channel\<lparr>cs_members := members, cs_operators := ops\<rparr>"

lemma demo_user [simp]: "session_user 0 demo_server = ''al''"
  by (simp add: session_user_def demo_server_def)

theorem non_operator_powerless_witness:
  "let sv = set_channel ''#c'' (Some (demo_channel {''al'', ''bo''} {''bo''})) demo_server;
       sv' = snd (handle_command demo_world demo_readings
               \<lparr>ic_command = ''KICK'', ic_args = [''#c'', ''bo'']\<rparr> 0 sv)
   in \<exists>ch. channel_of ''#c'' sv' = Some ch \<and> ''bo'' \<in> cs_operators ch"
proof -
  let ?sv = "set_channel ''#c'' (Some (demo_channel {''al'', ''bo''} {''bo''})) demo_server"
  let ?cmd = "\<lparr>ic_command = ''KICK'', ic_args = [''#c'', ''bo'']\<rparr>"
  have u: "session_user 0 ?sv = ''al''" by simp
  have "not_operator (session_user 0 ?sv) (channel_of ''#c'' ?sv)"
    by (simp add: not_operator_def u demo_channel_def)
  from non_operator_powerless [OF this, of demo_world demo_readings ?cmd]
  have "outsider_change ''al'' (Some (demo_channel {''al'', ''bo''} {''bo''}))
      (channel_of ''#c'' (snd (handle_command demo_world demo_readings ?cmd 0 ?sv)))"
    by (simp add: u)
  then show ?thesis
    by (auto simp: outsider_change_def demo_channel_def Let_def split: option.splits)
qed

section \<open>The invariant of channels and nicknames\<close>

text \<open>
  A channel has a valid name and finitely many members; nobody banned is a member; operators and voiced
  users are members, or were banned while they were.  A nickname in the index is the one its user has.
\<close>

definition channel_ok :: "channel_state \<Rightarrow> bool" where
  "channel_ok ch \<longleftrightarrow> finite (cs_members ch) \<and> cs_members ch \<inter> cs_banned ch = {} \<and>
     cs_operators ch \<subseteq> cs_members ch \<union> cs_banned ch \<and> cs_voiced ch \<subseteq> cs_members ch \<union> cs_banned ch"

definition channels_ok :: "server \<Rightarrow> bool" where
  "channels_ok sv \<longleftrightarrow>
     (\<forall>c ch. channel_of c sv = Some ch \<longrightarrow> is_valid_channel_name c \<and> channel_ok ch)"

definition nicks_ok :: "server \<Rightarrow> bool" where
  "nicks_ok sv \<longleftrightarrow>
     (\<forall>n u. nick_to_user (commands sv) n = Some u \<longrightarrow> user_to_nick (commands sv) u = Some n)"

lemma channel_ok_empty [inv_intros]: "channel_ok empty_channel"
  by (simp add: channel_ok_def empty_channel_def)

lemma channel_ok_add [inv_intros]: "channel_ok ch \<Longrightarrow> u \<notin> cs_banned ch \<Longrightarrow> channel_ok (add_member u ch)"
  by (auto simp: channel_ok_def add_member_def Let_def)

lemma channel_ok_remove [inv_intros]: "channel_ok ch \<Longrightarrow> channel_ok (remove_member u ch)"
  by (auto simp: channel_ok_def remove_member_def)

lemma channel_ok_settings [inv_intros]:
  "channel_ok ch \<Longrightarrow> channel_ok (ch\<lparr>cs_topic := t\<rparr>)"
  "channel_ok ch \<Longrightarrow> channel_ok (ch\<lparr>cs_invites := v\<rparr>)"
  "channel_ok ch \<Longrightarrow> channel_ok (ch\<lparr>cs_invite_only := b\<rparr>)"
  "channel_ok ch \<Longrightarrow> channel_ok (ch\<lparr>cs_moderated := b\<rparr>)"
  "channel_ok ch \<Longrightarrow> channel_ok (ch\<lparr>cs_topic_restricted := b\<rparr>)"
  "channel_ok ch \<Longrightarrow> u \<in> cs_members ch \<Longrightarrow> channel_ok (ch\<lparr>cs_operators := insert u (cs_operators ch)\<rparr>)"
  "channel_ok ch \<Longrightarrow> u \<in> cs_members ch \<Longrightarrow> channel_ok (ch\<lparr>cs_voiced := insert u (cs_voiced ch)\<rparr>)"
  "channel_ok ch \<Longrightarrow> channel_ok (ch\<lparr>cs_operators := cs_operators ch - {u}\<rparr>)"
  "channel_ok ch \<Longrightarrow> channel_ok (ch\<lparr>cs_voiced := cs_voiced ch - {u}\<rparr>)"
  "channel_ok ch \<Longrightarrow> channel_ok (ch\<lparr>cs_banned := insert u (cs_banned ch), cs_members := cs_members ch - {u}\<rparr>)"
  "channel_ok ch \<Longrightarrow> u \<notin> cs_members ch \<Longrightarrow> channel_ok (ch\<lparr>cs_banned := insert u (cs_banned ch)\<rparr>)"
  by (auto simp: channel_ok_def)

text \<open>It is enough that each channel that is new or changed is good.\<close>

lemma channels_okI:
  assumes "channels_ok sv"
    and "\<And>c ch. channel_of c sv' = Some ch \<Longrightarrow> channel_of c sv \<noteq> Some ch \<Longrightarrow>
      is_valid_channel_name c \<and> channel_ok ch"
  shows "channels_ok sv'"
  using assms unfolding channels_ok_def by metis

lemma channels_ok_same: "channels_ok sv \<Longrightarrow> (\<And>c. channel_of c sv' = channel_of c sv) \<Longrightarrow> channels_ok sv'"
  by (simp add: channels_ok_def)

lemma channels_ok_set [inv_intros]:
  assumes "channels_ok sv" "channel_of c sv = Some ch" "channel_ok ch'"
  shows "channels_ok (set_channel c (Some ch') sv)"
  using assms by (auto simp: channels_ok_def)

lemma channels_okD:
  assumes "channels_ok sv" "channel_of c sv = Some ch"
  shows "is_valid_channel_name c" "channel_ok ch"
  using assms by (auto simp: channels_ok_def)

lemma or_empty_ok: "channels_ok sv \<Longrightarrow> channel_ok (or_empty (channel_of c sv))"
  by (auto simp: or_empty_def channel_ok_empty dest: channels_okD split: option.splits)

lemma parted_ok: "channel_ok ch \<Longrightarrow> parted u (Some ch) = Some ch' \<Longrightarrow> channel_ok ch'"
  by (auto simp: parted_def channel_ok_remove split: if_splits)

lemma join_channels_ok [inv_intros]: "channels_ok sv \<Longrightarrow> channels_ok (snd (cmd_join w r args i sv))"
proof -
  assume ok: "channels_ok sv"
  show ?thesis
  proof (rule channels_okI [OF ok])
    fix c ch
    assume new: "channel_of c (snd (cmd_join w r args i sv)) = Some ch" "channel_of c sv \<noteq> Some ch"
    show "is_valid_channel_name c \<and> channel_ok ch"
      using join_channel_cases [of c w r args i sv] new or_empty_ok [OF ok, of c]
      by (auto intro: channel_ok_add)
  qed
qed

lemma parted_channels_ok:
  assumes "channels_ok sv" "\<And>c. channel_of c sv' = channel_of c sv \<or> channel_of c sv' = parted u (channel_of c sv)"
  shows "channels_ok sv'"
proof (rule channels_okI [OF assms(1)])
  fix c ch' assume new: "channel_of c sv' = Some ch'" "channel_of c sv \<noteq> Some ch'"
  then have "parted u (channel_of c sv) = Some ch'" using assms(2) [of c] by auto
  moreover from this obtain ch where "channel_of c sv = Some ch"
    by (cases "channel_of c sv") (auto simp: parted_def)
  ultimately show "is_valid_channel_name c \<and> channel_ok ch'"
    using channels_okD [OF assms(1)] parted_ok by metis
qed

lemma part_channels_ok [inv_intros]: "channels_ok sv \<Longrightarrow> channels_ok (snd (cmd_part w args i sv))"
  by (rule parted_channels_ok [where u = "session_user i sv"]) (use part_channel_cases in blast)+

lemma quit_channels_ok [inv_intros]: "channels_ok sv \<Longrightarrow> channels_ok (snd (cmd_quit w args i sv))"
  by (rule parted_channels_ok [where u = "session_user i sv"]) (use quit_channel_cases in blast)+

lemma topic_channels_ok [inv_intros]:
  assumes "channels_ok sv"
  shows "channels_ok (snd (cmd_topic w args i sv))"
proof (rule channels_okI [OF assms])
  fix c ch
  assume new: "channel_of c (snd (cmd_topic w args i sv)) = Some ch" "channel_of c sv \<noteq> Some ch"
  show "is_valid_channel_name c \<and> channel_ok ch"
    using topic_channel_cases [of c w args i sv] new channels_okD [OF assms, of c]
    by (auto intro: channel_ok_settings)
qed

text \<open>Each moderation command sets at most one channel, to a good state.\<close>

lemma one_channel_ok:
  assumes "channels_ok sv"
    and "(\<forall>c. channel_of c sv' = channel_of c sv) \<or>
      (\<exists>d ch ch'. channel_of d sv = Some ch \<and> (channel_ok ch \<longrightarrow> channel_ok ch') \<and>
         (\<forall>c. channel_of c sv' = (if c = d then Some ch' else channel_of c sv)))"
  shows "channels_ok sv'"
  using assms(2)
proof (elim disjE exE conjE)
  assume "\<forall>c. channel_of c sv' = channel_of c sv"
  with assms(1) show ?thesis by (auto intro: channels_ok_same)
next
  fix d ch ch'
  assume "channel_of d sv = Some ch" "channel_ok ch \<longrightarrow> channel_ok ch'"
    "\<forall>c. channel_of c sv' = (if c = d then Some ch' else channel_of c sv)"
  then show ?thesis using assms(1) by (auto simp: channels_ok_def)
qed

lemma kick_channels_ok [inv_intros]:
  assumes "channels_ok sv"
  shows "channels_ok (snd (cmd_kick w args i sv))"
proof (cases "\<forall>c. channel_of c (snd (cmd_kick w args i sv)) = channel_of c sv")
  case False
  then obtain ch where "channel_of (args ! 0) sv = Some ch"
    "\<forall>c. channel_of c (snd (cmd_kick w args i sv)) =
      (if c = args ! 0 then Some (remove_member (target_of (args ! 1) sv) ch) else channel_of c sv)"
    by (auto simp: cmd_kick_def notify_channel_part_def Let_def split: option.splits if_splits)
  then show ?thesis
    using assms channel_ok_remove by (intro one_channel_ok [OF assms]) blast
qed (use assms channels_ok_same in blast)

lemma ban_channels_ok [inv_intros]:
  assumes "channels_ok sv"
  shows "channels_ok (snd (cmd_ban w args i sv))"
proof (cases "\<forall>c. channel_of c (snd (cmd_ban w args i sv)) = channel_of c sv")
  case False
  let ?t = "target_of (args ! 1) sv"
  from False obtain ch where "channel_of (args ! 0) sv = Some ch"
    "\<forall>c. channel_of c (snd (cmd_ban w args i sv)) = (if c = args ! 0
      then Some (if ?t \<in> cs_members ch
        then ch\<lparr>cs_banned := insert ?t (cs_banned ch), cs_members := cs_members ch - {?t}\<rparr>
        else ch\<lparr>cs_banned := insert ?t (cs_banned ch)\<rparr>) else channel_of c sv)"
    by (auto simp: cmd_ban_def notify_channel_part_def Let_def split: option.splits if_splits)
  moreover have "channel_ok ch \<longrightarrow> channel_ok (if ?t \<in> cs_members ch
        then ch\<lparr>cs_banned := insert ?t (cs_banned ch), cs_members := cs_members ch - {?t}\<rparr>
        else ch\<lparr>cs_banned := insert ?t (cs_banned ch)\<rparr>)" for ch
    by (auto intro: inv_intros)
  ultimately show ?thesis by (intro one_channel_ok [OF assms]) blast
qed (use assms channels_ok_same in blast)

lemma invite_channels_ok [inv_intros]:
  assumes "channels_ok sv"
  shows "channels_ok (snd (cmd_invite w args i sv))"
proof (cases "\<forall>c. channel_of c (snd (cmd_invite w args i sv)) = channel_of c sv")
  case False
  then obtain ch where "channel_of (args ! 0) sv = Some ch"
    "\<forall>c. channel_of c (snd (cmd_invite w args i sv)) = (if c = args ! 0
      then Some (ch\<lparr>cs_invites := insert (target_of (args ! 1) sv) (cs_invites ch)\<rparr>) else channel_of c sv)"
    by (auto simp: cmd_invite_def Let_def split: option.splits if_splits)
  then show ?thesis by (intro one_channel_ok [OF assms]) (use channel_ok_settings(2) in blast)
qed (use assms channels_ok_same in blast)

lemma set_channels_ok [inv_intros]: "channels_ok sv \<Longrightarrow> channels_ok (snd (cmd_set args i sv))"
  by (auto simp: cmd_set_def Let_def split: option.splits
      intro!: channels_ok_set channel_ok_settings dest: channels_okD)

lemma mode_channels_ok [inv_intros]: "channels_ok sv \<Longrightarrow> channels_ok (snd (cmd_mode args i sv))"
  by (auto simp: cmd_mode_def Let_def split: option.splits
      intro!: channels_ok_set channel_ok_settings dest: channels_okD)

lemma run_command_channels_ok:
  assumes ok: "channels_ok sv" and run: "run_command w r name args i sv = Some res"
  shows "channels_ok (snd res)"
  using run
  by (cases rule: run_command_states)
     (simp_all add: ok inv_intros channels_ok_same [OF ok] other_channels)

lemma handle_command_channels_ok [inv_intros]:
  assumes ok: "channels_ok sv"
  shows "channels_ok (snd (handle_command w r cmd i sv))"
proof (cases rule: handle_command_states [of w r cmd i sv])
  case (5 res)
  moreover have "channels_ok (admitted r i sv)" by (rule channels_ok_same [OF ok]) simp
  ultimately show ?thesis using run_command_channels_ok by metis
qed (simp_all add: ok channels_ok_same [OF ok])

text \<open>Only \<open>/nick\<close> writes the nickname maps.\<close>

lemma nick_maps_set [simp]:
  "nick_to_user (commands (set_channel c x sv)) = nick_to_user (commands sv)"
  "user_to_nick (commands (set_channel c x sv)) = user_to_nick (commands sv)"
  "nick_to_user (commands (set_limits u l sv)) = nick_to_user (commands sv)"
  "user_to_nick (commands (set_limits u l sv)) = user_to_nick (commands sv)"
  "nick_to_user (commands (set_abuse u a sv)) = nick_to_user (commands sv)"
  "user_to_nick (commands (set_abuse u a sv)) = user_to_nick (commands sv)"
  by (simp_all add: set_channel_def set_limits_def set_abuse_def frame_simps)

definition same_nicks :: "server \<Rightarrow> server \<Rightarrow> bool" where
  "same_nicks sv sv' \<longleftrightarrow> nick_to_user (commands sv') = nick_to_user (commands sv) \<and>
     user_to_nick (commands sv') = user_to_nick (commands sv)"

lemma gates_same_nicks:
  "same_nicks sv (snd (is_abuser now u sv))" "same_nicks sv (snd (track_abuse now u sv))"
  "same_nicks sv (snd (allow_command now u sv))" "same_nicks sv (snd (allow_join now u sv))"
  by (simp_all add: same_nicks_def is_abuser_def track_abuse_def allow_command_def allow_join_def Let_def
      split: option.splits prod.splits)

lemma same_nicks_trans: "same_nicks a b \<Longrightarrow> same_nicks b c \<Longrightarrow> same_nicks a c"
  by (simp add: same_nicks_def)

lemma part_channel_same_nicks: "same_nicks sv (part_channel c u sv)"
  by (simp add: same_nicks_def part_channel_def Let_def split: option.splits)

lemma quit_same_nicks: "same_nicks sv (quit_channels w u reason cs sv)"
proof (induction cs arbitrary: sv)
  case Nil
  show ?case by (simp add: quit_channels_def same_nicks_def)
next
  case (Cons c cs)
  have "quit_channels w u reason (c # cs) sv =
      quit_channels w u reason cs (broadcast_user_list w c (part_channel c u sv))"
    by (simp add: quit_channels_def notify_channel_part_def)
  moreover have "same_nicks sv (broadcast_user_list w c (part_channel c u sv))"
    using part_channel_same_nicks [of sv c u] by (simp add: same_nicks_def frame_simps)
  ultimately show ?case using Cons same_nicks_trans by metis
qed

lemma join_same_nicks: "same_nicks sv (snd (cmd_join w r args i sv))"
proof -
  obtain ok sv1 where a: "allow_join (steady r) (session_user i sv) sv = (ok, sv1)" by fastforce
  have "same_nicks sv sv1" using gates_same_nicks(4) [of sv "steady r" "session_user i sv"] by (simp add: a)
  moreover have "same_nicks sv1 (snd (track_abuse (steady r) (session_user i sv) sv1))"
    by (rule gates_same_nicks)
  ultimately show ?thesis
    by (cases ok)
       (auto simp: cmd_join_def a Let_def get_or_create_eq notify_channel_join_def same_nicks_def frame_simps)
qed

lemma command_same_nicks:
  "same_nicks sv (snd (cmd_part w args i sv))" "same_nicks sv (snd (cmd_topic w args i sv))"
  "same_nicks sv (snd (cmd_kick w args i sv))" "same_nicks sv (snd (cmd_ban w args i sv))"
  "same_nicks sv (snd (cmd_invite w args i sv))" "same_nicks sv (snd (cmd_set args i sv))"
  "same_nicks sv (snd (cmd_mode args i sv))" "same_nicks sv (snd (cmd_password w r args i sv))"
  "same_nicks sv (snd (cmd_resetdb r i sv))"
  by (auto simp: same_nicks_def cmd_part_def cmd_topic_def cmd_kick_def cmd_ban_def cmd_invite_def cmd_set_def
      cmd_mode_def cmd_password_def cmd_resetdb_def notify_channel_part_def notify_channel_join_def
      send_to_online_eq frame_simps Let_def split: option.splits outcome.splits prod.splits bool.splits)

lemma quit_command_same_nicks: "same_nicks sv (snd (cmd_quit w args i sv))"
  using quit_same_nicks by (simp add: cmd_quit_def same_nicks_def disconnect_def Let_def)

lemma nick_command_ok [inv_intros]:
  assumes ok: "nicks_ok sv"
  shows "nicks_ok (snd (cmd_nick w r args i sv))"
proof (cases "args = [] \<or> (\<exists>v. nick_to_user (commands sv) (hd args) = Some v \<and> v \<noteq> session_user i sv)")
  case True
  then show ?thesis using ok by (auto simp: cmd_nick_def Let_def split: option.splits)
next
  case False
  let ?u = "session_user i sv"
  have maps: "nick_to_user (commands (snd (cmd_nick w r args i sv))) =
      (nick_to_user (commands sv))(nick_or_id ?u sv := None, hd args \<mapsto> ?u)"
    "user_to_nick (commands (snd (cmd_nick w r args i sv))) = (user_to_nick (commands sv))(?u \<mapsto> hd args)"
    using False by (auto simp: cmd_nick_def Let_def frame_simps split: option.splits)
  show ?thesis using ok unfolding nicks_ok_def maps by (auto simp: nick_or_id_def)
qed

lemma nicks_ok_same: "nicks_ok sv \<Longrightarrow> same_nicks sv sv' \<Longrightarrow> nicks_ok sv'"
  by (simp add: nicks_ok_def same_nicks_def)

lemma handle_command_nicks_ok [inv_intros]:
  assumes ok: "nicks_ok sv"
  shows "nicks_ok (snd (handle_command w r cmd i sv))"
proof -
  have adm: "same_nicks sv (admitted r i sv)"
    unfolding admitted_def Let_def by (rule same_nicks_trans) (rule gates_same_nicks)+
  note ok' = nicks_ok_same [OF ok adm]
  show ?thesis
  proof (cases rule: handle_command_states [of w r cmd i sv])
    case 3
    have "same_nicks (admitted r i sv) (snd (track_abuse (steady r) (session_user i sv) (admitted r i sv)))"
      by (rule gates_same_nicks)
    with 3 show ?thesis using nicks_ok_same [OF ok'] by simp
  next
    case (5 res)
    from 5(1) have "nicks_ok (snd res)"
      by (cases rule: run_command_states)
         (simp_all add: ok' nick_command_ok nicks_ok_same [OF ok'] command_same_nicks join_same_nicks
           quit_command_same_nicks)
    with 5(2) show ?thesis by simp
  qed (simp_all add: ok ok' nicks_ok_same [OF ok] gates_same_nicks)
qed

text \<open>The commands as a machine: who sends what, and when.\<close>

definition command_step :: "world \<Rightarrow> server \<Rightarrow> readings \<times> irc_command \<times> session_id \<Rightarrow> server" where
  "command_step w sv e = (case e of (r, cmd, i) \<Rightarrow> snd (handle_command w r cmd i sv))"

definition commands_ok :: "server \<Rightarrow> bool" where
  "commands_ok sv \<longleftrightarrow> channels_ok sv \<and> nicks_ok sv"

interpretation command_machine: invariant_machine "command_step w" commands_ok for w
  by unfold_locales (auto simp: commands_ok_def command_step_def intro: inv_intros split: prod.splits)



text \<open>
  The weak spots of the invariant are real: a ban leaves the operator status of the banned user, who
  then goes on moderating, and \<open>/nick\<close> can free another user's nickname, because it erases the entry
  of the old nickname without looking whose it is.
\<close>

lemma banned_operator_moderates:
  assumes "channel_of c sv = Some ch" "session_user i sv \<in> cs_operators ch" "session_user i sv \<in> cs_banned ch"
    and "t \<in> cs_members ch" "nick_to_user (commands sv) t = None"
  shows "channel_of c (snd (cmd_kick w [c, t] i sv)) = Some (remove_member t ch)"
  using assms by (simp add: cmd_kick_def target_of_def notify_channel_part_def Let_def del: send_to_online.simps)

definition three_users :: server where
  "three_users = initial_server\<lparr>sessions := [0 \<mapsto> (new_session [])\<lparr>s_user := ''al''\<rparr>,
     1 \<mapsto> (new_session [])\<lparr>s_user := ''bo''\<rparr>, 2 \<mapsto> (new_session [])\<lparr>s_user := ''cy''\<rparr>]\<rparr>"

lemma nickname_taken_twice:
  "let nick = (\<lambda>n i sv. snd (cmd_nick demo_world demo_readings [n] i sv));
       sv = nick ''bo'' 2 (nick ''x'' 1 (nick ''bo'' 0 three_users))
   in user_to_nick (commands sv) ''al'' = Some ''bo'' \<and> user_to_nick (commands sv) ''cy'' = Some ''bo''"
  by (simp add: cmd_nick_def three_users_def initial_server_def empty_commands_def session_user_def
      nick_or_id_def upd_commands_def demo_world_def Let_def)

section \<open>Delivery to a channel\<close>

definition online_members :: "session_id option \<Rightarrow> user_id list \<Rightarrow> server \<Rightarrow> session_id list" where
  "online_members exclude us sv =
     concat (map (\<lambda>u. case by_user sv u of None \<Rightarrow> [] | Some i \<Rightarrow> if Some i = exclude then [] else [i]) us)"

lemma online_members_Cons:
  "online_members exclude (u # us) sv = (case by_user sv u of None \<Rightarrow> []
     | Some i \<Rightarrow> if Some i = exclude then [] else [i]) @ online_members exclude us sv"
  by (simp add: online_members_def)

lemma deliver_eq:
  "deliver_to_members w r c env exclude us sv =
    sv\<lparr>sent := sent sv @ map (\<lambda>i. (i, env)) (online_members exclude us sv),
       offline_store := foldl (\<lambda>db u. snd (save (save_faults_at r c u) (unix_time r) u
         (ser_envelope (codec w) env) db)) (offline_store sv) (filter (\<lambda>u. by_user sv u = None) us)\<rparr>"
proof (induction us arbitrary: sv)
  case (Cons u us)
  have same: "online_members exclude us (sv\<lparr>sent := a\<rparr>) = online_members exclude us sv"
    "online_members exclude us (sv\<lparr>offline_store := b\<rparr>) = online_members exclude us sv" for a b
    by (simp_all add: online_members_def)
  show ?case
  proof (cases "by_user sv u")
    case None
    then have "online_members exclude (u # us) sv = online_members exclude us sv"
      by (simp add: online_members_def)
    with None Cons show ?thesis
      by (simp add: find_session_def save_offline_def same split: prod.splits)
  next
    case (Some i)
    then have "online_members exclude (u # us) sv =
        (if Some i = exclude then [] else [i]) @ online_members exclude us sv"
      by (simp add: online_members_def)
    with Some Cons show ?thesis
      by (simp add: find_session_def send_env_def same)
  qed
qed (simp add: online_members_def)



section \<open>Temporary bans\<close>

lemma violations_counted:
  assumes "ts \<noteq> []" "sorted ts" "last ts - hd ts \<le> kViolationWindow"
  shows "foldl (\<lambda>a t. Some (record_violation t a)) None ts =
    Some \<lparr>ab_violations = int (length ts), ab_first_violation = hd ts, ab_last_violation = last ts,
          ab_banned = (length ts \<ge> 5)\<rparr>"
  using assms
proof (induction ts rule: rev_induct)
  case (snoc t ts)
  show ?case
  proof (cases "ts = []")
    case True
    then show ?thesis by (simp add: record_violation_def kViolationWindow_def kMaxViolations_def minutes_def seconds_def)
  next
    case False
    have "last ts \<le> t" using snoc.prems(2) False by (simp add: sorted_append)
    moreover have "t - hd ts \<le> kViolationWindow" using snoc.prems(3) False by simp
    ultimately have "foldl (\<lambda>a t. Some (record_violation t a)) None ts =
        Some \<lparr>ab_violations = int (length ts), ab_first_violation = hd ts, ab_last_violation = last ts,
          ab_banned = (length ts \<ge> 5)\<rparr>"
      using snoc False by (simp add: sorted_append)
    with False \<open>t - hd ts \<le> kViolationWindow\<close> show ?thesis
      by (auto simp: record_violation_def kMaxViolations_def Let_def)
  qed
qed simp

lemma track_abuse_record:
  "abuse_records (commands (foldl (\<lambda>sv t. snd (track_abuse t u sv)) sv ts)) u =
    foldl (\<lambda>a t. Some (record_violation t a)) (abuse_records (commands sv) u) ts"
  by (induction ts arbitrary: sv) (simp_all add: track_abuse_def set_abuse_def frame_simps Let_def)

text \<open>
  C33: A user without a record who breaks a rate limit five times or more within ten minutes is banned:
  for the next thirty minutes every command of theirs is refused and changes nothing; after that the ban
  is lifted.
\<close>

theorem abuse_is_banned:
  assumes none: "abuse_records (commands sv) u = None"
    and five: "5 \<le> length ts" "sorted ts" "last ts - hd ts \<le> minutes 10"
    and who: "session_user i (foldl (\<lambda>sv t. snd (track_abuse t u sv)) sv ts) = u"
    and cmd: "ic_command cmd \<noteq> []"
  shows "let sv' = foldl (\<lambda>sv t. snd (track_abuse t u sv)) sv ts
    in if steady r - last ts \<le> minutes 30
       then \<not> cr_success (fst (handle_command w r cmd i sv')) \<and> snd (handle_command w r cmd i sv') = sv'
       else \<not> fst (is_abuser (steady r) u sv') \<and>
            abuse_records (commands (snd (is_abuser (steady r) u sv'))) u = None"
proof -
  define sv' where "sv' = foldl (\<lambda>sv t. snd (track_abuse t u sv)) sv ts"
  have "ts \<noteq> []" using five(1) by auto
  then have a: "abuse_records (commands sv') u = Some \<lparr>ab_violations = int (length ts),
      ab_first_violation = hd ts, ab_last_violation = last ts, ab_banned = True\<rparr>"
    using violations_counted [of ts] five none
    by (simp add: sv'_def track_abuse_record kViolationWindow_def)
  show ?thesis
  proof (cases "steady r - last ts \<le> minutes 30")
    case True
    then have "is_abuser (steady r) u sv' = (True, sv')"
      using a by (simp add: is_abuser_def kBanDuration_def)
    then show ?thesis
      using True who cmd by (simp add: handle_command_def make_response_def Let_def flip: sv'_def)
  next
    case False
    then show ?thesis
      using a by (simp add: is_abuser_def kBanDuration_def set_abuse_def frame_simps Let_def flip: sv'_def)
  qed
qed

theorem abuse_is_banned_witness:
  "\<not> cr_success (fst (handle_command demo_world demo_readings \<lparr>ic_command = ''me'', ic_args = [''x'']\<rparr> 0
     (foldl (\<lambda>sv t. snd (track_abuse t ''al'' sv)) demo_server [0, 0, 0, 0, 0])))"
proof -
  have "abuse_records (commands demo_server) ''al'' = None"
    by (simp add: demo_server_def initial_server_def empty_commands_def)
  moreover have "session_user 0 (foldl (\<lambda>sv t. snd (track_abuse t ''al'' sv)) demo_server [0, 0, 0, 0, 0]) = ''al''"
    by (simp add: track_abuse_def Let_def)
  ultimately show ?thesis
    using abuse_is_banned [of demo_server "''al''" "[0, 0, 0, 0, 0]" 0 "\<lparr>ic_command = ''me'', ic_args = [''x'']\<rparr>"
        demo_readings demo_world]
    by (simp add: Let_def demo_readings_def minutes_def seconds_def)
qed

end
