(* ===== verification/Session.thy ===== *)
theory Session
  imports Channel_Safety
begin

text \<open>
  \<open>src/net/session.cpp\<close>: the protocol of one connection.  The greeting and the authentication, the
  dispatch of envelopes and every message handler, the ping timer, and what ends a connection.  A handler
  that can let a database exception through returns an \<open>outcome\<close>; \<open>on_frame_received\<close> catches it and
  keeps what was done so far.
\<close>

section \<open>Helpers\<close>

definition kProtocolVersion :: "32 word" where
  "kProtocolVersion = 1"

definition is_valid_user_id :: "string \<Rightarrow> bool" where
  "is_valid_user_id s =
     (if s = [] \<or> length s > 64 then False
      else \<not> list_ex (\<lambda>c. of_char c = (0 :: nat) \<or> c = CHR '' '' \<or> of_char c < (32 :: nat)) s)"

text \<open>\<open>std::getline\<close> over a string stream.\<close>

function getlines :: "string \<Rightarrow> string list" where
  "getlines s =
     (if s = [] then []
      else takeWhile (\<lambda>c. c \<noteq> CHR 0x0A) s # getlines (tl (dropWhile (\<lambda>c. c \<noteq> CHR 0x0A) s)))"
  by pat_completeness auto
termination
proof (relation "measure length")
  fix s :: string assume "s \<noteq> []"
  moreover have "length (dropWhile (\<lambda>c. c \<noteq> CHR 0x0A) s) \<le> length s" by (rule length_dropWhile_le)
  ultimately show "(tl (dropWhile (\<lambda>c. c \<noteq> CHR 0x0A) s), s) \<in> measure length"
    by (cases s) auto
qed simp

declare getlines.simps [simp del]

definition state_of_session :: "session_id \<Rightarrow> server \<Rightarrow> session_state" where
  "state_of_session i sv = (case sessions sv i of None \<Rightarrow> Dead | Some s \<Rightarrow> s_state s)"

definition set_state :: "session_state \<Rightarrow> session_id \<Rightarrow> server \<Rightarrow> server" where
  "set_state st i = upd_session i (\<lambda>s. s\<lparr>s_state := st\<rparr>)"

definition reset_ping_timer :: "session_id \<Rightarrow> server \<Rightarrow> server" where
  "reset_ping_timer i = upd_session i (\<lambda>s. s\<lparr>s_timer := Interval_Timer\<rparr>)"

definition start_ping_timer :: "session_id \<Rightarrow> server \<Rightarrow> server" where
  "start_ping_timer i sv = reset_ping_timer i (upd_session i (\<lambda>s. s\<lparr>s_ping_sent := False\<rparr>) sv)"

text \<open>The guard \<open>msg_rate_limiter_ && !msg_rate_limiter_->allow()\<close>; true is passing.\<close>

definition msg_allowed :: "readings \<Rightarrow> session_id \<Rightarrow> server \<Rightarrow> bool \<times> server" where
  "msg_allowed r i sv =
     (case sessions sv i of
        None \<Rightarrow> (True, sv)
      | Some s \<Rightarrow>
          (case s_limiter s of
             None \<Rightarrow> (True, sv)
           | Some rl \<Rightarrow>
               (case allow (steady r) rl of
                  (ok, rl) \<Rightarrow> (ok, upd_session i (\<lambda>s. s\<lparr>s_limiter := Some rl\<rparr>) sv))))"

section \<open>Greeting and authentication\<close>

definition handle_hello :: "world \<Rightarrow> readings \<Rightarrow> session_id \<Rightarrow> hello \<Rightarrow> server \<Rightarrow> server" where
  "handle_hello w r i h sv =
     (if protocol_version h \<noteq> kProtocolVersion
      then disconnect i (send_error w r i 4005 ''Protocol version mismatch'' sv)
      else
        let sv = upd_session i (\<lambda>s. s\<lparr>s_nonce := nonce r\<rparr>) sv;
            sv = send_envelope w r i MT_AUTH_CHALLENGE (Auth_Challenge (nonce r)) sv
        in set_state Auth_Pending i sv)"

text \<open>
  The database part of \<open>handle_auth_response\<close>: the account is new, known with this key, or recovered
  with its password.
\<close>

datatype account_result =
    Account_Ok
  | Internal_Error
  | Auth_Refused "32 word" string
  | Account_Threw

definition store_offered_spk :: "readings \<Rightarrow> auth_response \<Rightarrow> user_db \<Rightarrow> user_db outcome" where
  "store_offered_spk r auth db =
     (if ar_signed_prekey auth \<noteq> [] \<and> ar_spk_sig auth \<noteq> []
      then upsert_signed_prekey (db_fails r 2) (unix_time r) (ar_user_id auth) (ar_signed_prekey auth)
             (ar_spk_sig auth) db
      else Returned db)"

definition auth_account :: "world \<Rightarrow> readings \<Rightarrow> auth_response \<Rightarrow> user_db \<Rightarrow> account_result \<times> user_db" where
  "auth_account w r auth db =
     (let u = ar_user_id auth; key = ar_identity_pub auth; pw = ar_password auth
      in case find_by_id (db_fails r 0) u db of
           None \<Rightarrow>
             (case insert_user (db_fails r 1) u key (unix_time r) db of
                Threw db \<Rightarrow> (Internal_Error, db)
              | Returned db \<Rightarrow>
                  (case store_offered_spk r auth db of
                     Threw db \<Rightarrow> (Account_Threw, db)
                   | Returned db \<Rightarrow>
                       (Account_Ok, if pw \<noteq> [] then snd (set_password (pw_hash w) (db_fails r 3) u pw db) else db)))
         | Some existing \<Rightarrow>
             if identity_pub existing \<noteq> key
             then
               if pw \<noteq> [] \<and> has_password (db_fails r 4) u db
               then
                 if verify_password (pw_check w) (db_fails r 5) u pw db
                 then
                   (case clear_key_material (db_fails r 6) (db_fails r 7) u db of
                      Threw db \<Rightarrow> (Account_Threw, db)
                    | Returned db \<Rightarrow>
                        (case update_identity_key (db_fails r 8) u key db of
                           Threw db \<Rightarrow> (Account_Threw, db)
                         | Returned db \<Rightarrow>
                             (case store_offered_spk r auth db of
                                Threw db \<Rightarrow> (Account_Threw, db)
                              | Returned db \<Rightarrow> (Account_Ok, db))))
                 else (Auth_Refused 4012 ''Identity key mismatch and password incorrect'', db)
               else (Auth_Refused 4010
                       ''Identity key mismatch. Set a password with /password to enable key recovery.'', db)
             else if pw \<noteq> [] \<and> \<not> has_password (db_fails r 4) u db
             then (Account_Ok, snd (set_password (pw_hash w) (db_fails r 3) u pw db))
             else (Account_Ok, db))"

fun send_offline :: "world \<Rightarrow> session_id \<Rightarrow> bytes list \<Rightarrow> server \<Rightarrow> server" where
  "send_offline w i [] sv = sv"
| "send_offline w i (p # ps) sv =
     send_offline w i ps
       (case parse_envelope (codec w) p of None \<Rightarrow> sv | Some env \<Rightarrow> send_env i env sv)"

text \<open>From \<open>--- Auth success ---\<close> to the end.\<close>

definition auth_success :: "world \<Rightarrow> readings \<Rightarrow> session_id \<Rightarrow> user_id \<Rightarrow> server \<Rightarrow> server" where
  "auth_success w r i u sv =
     (let sv = upd_session i (\<lambda>s. s\<lparr>s_user := u\<rparr>) sv;
          sv = send_envelope w r i MT_AUTH_OK Empty sv;
          sv = set_state Established i sv;
          sv = (if motd sv \<noteq> [] then send_envelope w r i MT_MOTD (Motd (getlines (motd sv))) sv else sv);
          sv = on_session_authenticated w r i sv;
          sv = start_ping_timer i sv;
          sv = upd_session i (\<lambda>s. s\<lparr>s_limiter :=
                 Some (new_rate_limiter (msg_rate_per_sec sv) (seconds 1) (steady r))\<rparr>) sv
      in case fetch_and_delete (fetch_fault_at r) (unix_time r) u (offline_store sv) of
           (msgs, db) \<Rightarrow>
             broadcast_presence w r u ONLINE (Some i) (send_offline w i msgs (sv\<lparr>offline_store := db\<rparr>)))"

definition auth_fail :: "world \<Rightarrow> readings \<Rightarrow> session_id \<Rightarrow> 32 word \<Rightarrow> string \<Rightarrow> server \<Rightarrow> server" where
  "auth_fail w r i code msg sv = disconnect i (send_envelope w r i MT_AUTH_FAIL (Error_Message code msg) sv)"

definition auth_error :: "world \<Rightarrow> readings \<Rightarrow> session_id \<Rightarrow> 32 word \<Rightarrow> string \<Rightarrow> server \<Rightarrow> server" where
  "auth_error w r i code msg sv = disconnect i (send_error w r i code msg sv)"

definition session_nonce :: "session_id \<Rightarrow> server \<Rightarrow> bytes" where
  "session_nonce i sv = (case sessions sv i of None \<Rightarrow> [] | Some s \<Rightarrow> s_nonce s)"

text \<open>What the client has to sign.\<close>

definition auth_message :: "bytes \<Rightarrow> user_id \<Rightarrow> bytes" where
  "auth_message n u = n @ map of_char u"

definition handle_auth_response ::
  "world \<Rightarrow> readings \<Rightarrow> session_id \<Rightarrow> auth_response \<Rightarrow> server \<Rightarrow> server outcome"
where
  "handle_auth_response w r i auth sv =
     (let u = ar_user_id auth
      in if \<not> is_valid_user_id u
         then Returned (auth_error w r i 4006 ''Invalid user_id (1-64 printable chars, no spaces)'' sv)
         else if \<not> is_nickname_available w u [] sv
         then Returned (auth_fail w r i 4011
                (''Nickname '' @ [CHR 0x27] @ u @ [CHR 0x27] @ '' is already in use.'' @
                 format_nick_suggestions (generate_nick_suggestions u 3)) sv)
         else if length (ar_identity_pub auth) \<noteq> 32
         then Returned (auth_error w r i 4007 ''Invalid identity_pub length'' sv)
         else if length (ar_signature auth) \<noteq> 64
         then Returned (auth_error w r i 4008 ''Invalid signature length'' sv)
         else if \<not> verify_signature w (ar_signature auth) (auth_message (session_nonce i sv) u)
                      (ar_identity_pub auth)
         then Returned (auth_fail w r i 4009 ''Signature verification failed'' sv)
         else case auth_account w r auth (user_store sv) of
                (res, db) \<Rightarrow>
                  let sv = sv\<lparr>user_store := db\<rparr>
                  in case res of
                       Account_Threw \<Rightarrow> Threw sv
                     | Internal_Error \<Rightarrow> Returned (auth_error w r i 5001 ''Internal error'' sv)
                     | Auth_Refused code msg \<Rightarrow> Returned (auth_fail w r i code msg sv)
                     | Account_Ok \<Rightarrow> Returned (auth_success w r i u sv))"

section \<open>Messages\<close>

definition handle_ping :: "world \<Rightarrow> readings \<Rightarrow> session_id \<Rightarrow> envelope \<Rightarrow> server \<Rightarrow> server" where
  "handle_ping w r i env sv =
     (case sessions sv i of
        None \<Rightarrow> sv
      | Some s \<Rightarrow>
          send_env i \<lparr>env_seq = s_next_seq s, env_timestamp_ms = now_ms r, env_type = MT_PONG,
                      env_payload = env_payload env\<rparr>
            (upd_session i (\<lambda>s. s\<lparr>s_next_seq := s_next_seq s + 1\<rparr>) sv))"

definition is_channel_recipient :: "string \<Rightarrow> bool" where
  "is_channel_recipient s \<longleftrightarrow> s \<noteq> [] \<and> hd s = CHR ''#''"

definition handle_chat ::
  "world \<Rightarrow> readings \<Rightarrow> session_id \<Rightarrow> chat_envelope \<Rightarrow> envelope \<Rightarrow> server \<Rightarrow> server"
where
  "handle_chat w r i chat raw sv =
     (if ch_sender_id chat \<noteq> session_user i sv
      then disconnect i (send_error w r i 4032 ''Sender ID mismatch'' sv)
      else if ch_recipient_id chat = [] then send_error w r i 4033 ''Empty recipient_id'' sv
      else if is_channel_recipient (ch_recipient_id chat) then broadcast w raw (Some i) sv
      else case find_session (ch_recipient_id chat) sv of
             Some j \<Rightarrow> send_env j raw sv
           | None \<Rightarrow>
               (case save_offline r [] (ch_recipient_id chat) (ser_envelope (codec w) raw) sv of
                  (True, sv) \<Rightarrow> sv
                | (False, sv) \<Rightarrow> send_error w r i 4034 ''Recipient offline queue full'' sv))"

definition handle_voice_signal ::
  "world \<Rightarrow> readings \<Rightarrow> session_id \<Rightarrow> voice_signal \<Rightarrow> envelope \<Rightarrow> server \<Rightarrow> server"
where
  "handle_voice_signal w r i vs raw sv =
     (if vs_from_user vs \<noteq> session_user i sv
      then disconnect i (send_error w r i 4072 ''from_user mismatch'' sv)
      else if vs_to_user vs = [] then send_error w r i 4073 ''Empty to_user'' sv
      else case find_session (vs_to_user vs) sv of
             Some j \<Rightarrow> send_env j raw sv
           | None \<Rightarrow>
               if vs_signal_type vs = CALL_INVITE
               then send_envelope w r i MT_ERROR (Error_Message 4074 ''Recipient is offline'') sv
               else sv)"

definition handle_voice_room_join :: "world \<Rightarrow> readings \<Rightarrow> session_id \<Rightarrow> string \<Rightarrow> server \<Rightarrow> server" where
  "handle_voice_room_join w r i c sv =
     (case voice_join c (session_user i sv) (voice_rooms sv) of
        (err, ns, v) \<Rightarrow>
          let sv = send_notices w ns (sv\<lparr>voice_rooms := v\<rparr>)
          in if err \<noteq> [] then send_error w r i 4077 err sv else sv)"

definition handle_voice_room_leave :: "world \<Rightarrow> session_id \<Rightarrow> string \<Rightarrow> server \<Rightarrow> server" where
  "handle_voice_room_leave w i c sv =
     (case voice_leave c (session_user i sv) (voice_rooms sv) of
        (ns, v) \<Rightarrow> send_notices w ns (sv\<lparr>voice_rooms := v\<rparr>))"

text \<open>The loop over the one-time keys: the first insertion that throws ends it.\<close>

fun store_opks :: "(nat \<Rightarrow> bool) \<Rightarrow> nat \<Rightarrow> user_id \<Rightarrow> bytes list \<Rightarrow> user_db \<Rightarrow> user_db outcome" where
  "store_opks fails n u [] db = Returned db"
| "store_opks fails n u (k # ks) db =
     (case store_opk (fails n) u k db of
        Threw db \<Rightarrow> Threw db
      | Returned db \<Rightarrow> store_opks fails (Suc n) u ks db)"

definition handle_key_upload :: "readings \<Rightarrow> session_id \<Rightarrow> key_upload \<Rightarrow> server \<Rightarrow> server outcome" where
  "handle_key_upload r i ku sv =
     (let u = session_user i sv;
          spk = (if ku_signed_prekey ku \<noteq> [] \<and> ku_spk_signature ku \<noteq> []
                 then upsert_signed_prekey (db_fails r 0) (unix_time r) u (ku_signed_prekey ku)
                        (ku_spk_signature ku) (user_store sv)
                 else Returned (user_store sv))
      in case spk of
           Threw db \<Rightarrow> Threw (sv\<lparr>user_store := db\<rparr>)
         | Returned db \<Rightarrow>
             (case store_opks (db_fails r) 1 u (ku_one_time_prekeys ku) db of
                Threw db \<Rightarrow> Threw (sv\<lparr>user_store := db\<rparr>)
              | Returned db \<Rightarrow> Returned (sv\<lparr>user_store := db\<rparr>)))"

definition handle_key_request :: "world \<Rightarrow> readings \<Rightarrow> session_id \<Rightarrow> user_id \<Rightarrow> server \<Rightarrow> server" where
  "handle_key_request w r i u sv =
     (case find_by_id (db_fails r 0) u (user_store sv) of
        None \<Rightarrow> send_error w r i 4060 ''User not found'' sv
      | Some target \<Rightarrow>
          let spk = get_signed_prekey (db_fails r 1) u (user_store sv)
          in case consume_opk (opk_choice r) (db_fails r 2) (db_fails r 3) u (user_store sv) of
               (opk, db) \<Rightarrow>
                 send_envelope w r i MT_KEY_BUNDLE
                   (Key_Bundle
                      \<lparr>kb_identity_pub = identity_pub target,
                       kb_signed_prekey = (case spk of None \<Rightarrow> [] | Some k \<Rightarrow> spk_pub k),
                       kb_spk_signature = (case spk of None \<Rightarrow> [] | Some k \<Rightarrow> spk_sig k),
                       kb_one_time_prekey = opk, kb_recipient_for = u\<rparr>)
                   (sv\<lparr>user_store := db\<rparr>))"

definition session_command :: "world \<Rightarrow> readings \<Rightarrow> session_id \<Rightarrow> irc_command \<Rightarrow> server \<Rightarrow> server" where
  "session_command w r i cmd sv =
     (if \<not> running_handlers sv then send_error w r i 4062 ''Command handler not available'' sv
      else case handle_command w r cmd i sv of
             (resp, sv) \<Rightarrow> send_env i (response_envelope w resp) sv)"

section \<open>File transfer\<close>

definition send_file_error :: "world \<Rightarrow> readings \<Rightarrow> session_id \<Rightarrow> string \<Rightarrow> 32 word \<Rightarrow> string \<Rightarrow> server \<Rightarrow> server"
where
  "send_file_error w r i fid code msg = send_envelope w r i MT_FILE_ERROR (File_Error fid code msg)"

text \<open>\<open>static_cast<float>(a) / b * 100.0f\<close>, every operation rounded.\<close>

definition percent :: "world \<Rightarrow> 64 word \<Rightarrow> 64 word \<Rightarrow> rat" where
  "percent w a b =
     (let fl = round_float w in fl (fl (fl (of_nat (unat a)) / fl (of_nat (unat b))) * 100))"

definition max_file_size :: "64 word" where
  "max_file_size = 100 * 1024 * 1024"

text \<open>\<open>std::vector<bool>::resize (n, false)\<close>.\<close>

definition resize_bits :: "nat \<Rightarrow> bool list \<Rightarrow> bool list" where
  "resize_bits n bs = take n bs @ replicate (n - length bs) False"

definition requested_metadata :: "user_id \<Rightarrow> file_upload_request \<Rightarrow> file_metadata" where
  "requested_metadata u req =
     \<lparr>fm_file_id = fr_file_id req, fm_filename = fr_filename req, fm_file_size = fr_file_size req,
      fm_mime_type = fr_mime_type req, fm_sender_id = u, fm_recipient_id = fr_recipient_id req,
      fm_channel_id = fr_channel_id req, fm_uploaded_at = 0, fm_expires_at = 0, fm_checksum = [],
      fm_storage_path = [], fm_is_complete = False, fm_is_encrypted = False, fm_encrypted_key = []\<rparr>"

text \<open>\<open>active_uploads_[file_id]\<close> finds the old entry or a fresh one; the bits it has stay.\<close>

definition start_upload :: "file_upload_request \<Rightarrow> upload_state option \<Rightarrow> upload_state" where
  "start_upload req old =
     (let size = fr_file_size req;
          chunk_size = (if fr_chunk_size req > 0 then fr_chunk_size req else 65536);
          total_chunks = ucast ((size + ucast chunk_size - 1) div ucast chunk_size :: 64 word)
      in \<lparr>up_file_size = size, up_chunk_size = chunk_size, up_total_chunks = total_chunks,
          up_received = resize_bits (unat total_chunks) (case old of None \<Rightarrow> [] | Some st \<Rightarrow> up_received st),
          up_bytes_received = 0\<rparr>)"

definition upload_of :: "session_id \<Rightarrow> string \<Rightarrow> server \<Rightarrow> upload_state option" where
  "upload_of i fid sv = (case sessions sv i of None \<Rightarrow> None | Some s \<Rightarrow> s_uploads s fid)"

definition set_upload :: "session_id \<Rightarrow> string \<Rightarrow> upload_state option \<Rightarrow> server \<Rightarrow> server" where
  "set_upload i fid st = upd_session i (\<lambda>s. s\<lparr>s_uploads := (s_uploads s)(fid := st)\<rparr>)"

definition handle_file_request :: "world \<Rightarrow> readings \<Rightarrow> session_id \<Rightarrow> file_upload_request \<Rightarrow> server \<Rightarrow> server"
where
  "handle_file_request w r i req sv =
     (let fid = fr_file_id req
      in if fr_file_size req = 0
         then send_file_error w r i fid 4080 ''File size must be greater than 0'' sv
         else if fr_file_size req > max_file_size
         then send_file_error w r i fid 4085 ''File too large (max 100 MB)'' sv
         else case create_file (db_fails r 0) (unix_time r) (requested_metadata (session_user i sv) req)
                     (file_store sv) of
                (False, db) \<Rightarrow> send_file_error w r i fid 4081 ''Failed to create file entry'' (sv\<lparr>file_store := db\<rparr>)
              | (True, db) \<Rightarrow>
                  let sv = set_upload i fid (Some (start_upload req (upload_of i fid sv))) (sv\<lparr>file_store := db\<rparr>)
                  in send_envelope w r i MT_FILE_PROGRESS
                       (File_Progress \<lparr>fp_file_id = fid, fp_bytes_transferred = 0,
                          fp_total_bytes = fr_file_size req, fp_percent = 0, fp_status = ''uploading''\<rparr>) sv)"

text \<open>The chunks read back for the scanner; a missing one is skipped.\<close>

definition assemble :: "readings \<Rightarrow> string \<Rightarrow> 32 word \<Rightarrow> file_db \<Rightarrow> bytes" where
  "assemble r fid total_chunks db =
     concat (map (\<lambda>k. case get_chunk (db_fails r (10 + k)) fid (of_nat k) db of None \<Rightarrow> [] | Some d \<Rightarrow> d)
       [0..<unat total_chunks])"

text \<open>The last chunk: scan, then mark the file complete.\<close>

definition finish_upload :: "world \<Rightarrow> readings \<Rightarrow> session_id \<Rightarrow> string \<Rightarrow> upload_state \<Rightarrow> server \<Rightarrow> server" where
  "finish_upload w r i fid st sv =
     (let data = assemble r fid (up_total_chunks st) (file_store sv);
          (verdict, m) = (if vm_enabled (scanner sv) then manager_scan data (scanner sv)
                          else (default_scan_result\<lparr>sr_clean := True\<rparr>, scanner sv));
          sv = sv\<lparr>scanner := m\<rparr>
      in if \<not> sr_error verdict \<and> \<not> sr_clean verdict
         then
           let sv = sv\<lparr>file_store := snd (delete_file (db_fails r 2) fid (file_store sv))\<rparr>
           in set_upload i fid None
                (send_file_error w r i fid 4090 (''Threat detected: '' @ sr_virus_name verdict) sv)
         else
           let sv = sv\<lparr>file_store := snd (mark_complete (db_fails r 1) fid [] (file_store sv))\<rparr>
           in set_upload i fid None
                (send_envelope w r i MT_FILE_COMPLETE (File_Complete fid (up_bytes_received st)) sv))"

definition handle_file_upload :: "world \<Rightarrow> readings \<Rightarrow> session_id \<Rightarrow> file_upload_chunk \<Rightarrow> server \<Rightarrow> server" where
  "handle_file_upload w r i chunk sv =
     (let fid = uc_file_id chunk
      in case msg_allowed r i sv of
           (False, sv) \<Rightarrow> send_file_error w r i fid 4290 ''Rate limit exceeded'' sv
         | (True, sv) \<Rightarrow>
             (case upload_of i fid sv of
                None \<Rightarrow>
                  send_file_error w r i fid 4082 ''Upload not started - send FileUploadRequest first'' sv
              | Some st \<Rightarrow>
                  if uc_chunk_index chunk \<ge> up_total_chunks st
                  then send_file_error w r i fid 4083 ''Invalid chunk index'' sv
                  else case store_chunk (db_fails r 0) fid (uc_chunk_index chunk) (uc_data chunk) (file_store sv) of
                         (False, db) \<Rightarrow>
                           send_file_error w r i fid 4084 ''Failed to store chunk'' (sv\<lparr>file_store := db\<rparr>)
                       | (True, db) \<Rightarrow>
                           let st = st\<lparr>up_received := (up_received st)[unat (uc_chunk_index chunk) := True],
                                       up_bytes_received := up_bytes_received st + of_nat (length (uc_data chunk))\<rparr>;
                               sv = set_upload i fid (Some st) (sv\<lparr>file_store := db\<rparr>);
                               sv = send_envelope w r i MT_FILE_PROGRESS
                                      (File_Progress \<lparr>fp_file_id = fid,
                                         fp_bytes_transferred = up_bytes_received st,
                                         fp_total_bytes = up_file_size st,
                                         fp_percent = percent w (up_bytes_received st) (up_file_size st),
                                         fp_status = ''uploading''\<rparr>) sv
                           in if uc_is_last chunk then finish_upload w r i fid st sv else sv))"

text \<open>The sending loop of \<open>handle_file_download\<close>, over the chunk numbers that remain.\<close>

fun download_loop ::
  "world \<Rightarrow> readings \<Rightarrow> session_id \<Rightarrow> string \<Rightarrow> 64 word \<Rightarrow> nat \<Rightarrow> nat list \<Rightarrow> server \<Rightarrow> server"
where
  "download_loop w r i fid fsize total_chunks [] sv = sv"
| "download_loop w r i fid fsize total_chunks (k # ks) sv =
     (case get_chunk (db_fails r (10 + k)) fid (of_nat k) (file_store sv) of
        None \<Rightarrow> send_file_error w r i fid 4084 (''Chunk not found: '' @ show_nat k) sv
      | Some d \<Rightarrow>
          let sv = send_envelope w r i MT_FILE_CHUNK (File_Chunk fid (of_nat k) d (k = total_chunks - 1)) sv;
              done_bytes = of_nat ((k + 1) * 65536);
              sv = send_envelope w r i MT_FILE_PROGRESS
                     (File_Progress \<lparr>fp_file_id = fid, fp_bytes_transferred = done_bytes,
                        fp_total_bytes = fsize, fp_percent = percent w done_bytes fsize,
                        fp_status = ''downloading''\<rparr>) sv
          in download_loop w r i fid fsize total_chunks ks sv)"

definition handle_file_download ::
  "world \<Rightarrow> readings \<Rightarrow> session_id \<Rightarrow> file_download_request \<Rightarrow> server \<Rightarrow> server"
where
  "handle_file_download w r i req sv =
     (let fid = dr_file_id req
      in case get_file (db_fails r 0) fid (file_store sv) of
           None \<Rightarrow> send_file_error w r i fid 4083 ''File not found'' sv
         | Some m \<Rightarrow>
             let total_chunks = unat ((fm_file_size m + 65536 - 1) div 65536)
             in download_loop w r i fid (fm_file_size m) total_chunks
                  [unat (dr_chunk_index req)..<total_chunks] sv)"

section \<open>Dispatch\<close>

text \<open>\<open>!payload.empty() && message.ParseFromArray (payload)\<close>.\<close>

definition parse_payload :: "(bytes \<Rightarrow> 'm option) \<Rightarrow> envelope \<Rightarrow> 'm option" where
  "parse_payload parse env = (if env_payload env = [] then None else parse (env_payload env))"

text \<open>An upload frame holds a chunk, if it parses as one with data, or else a request.\<close>

definition file_upload_frame :: "world \<Rightarrow> readings \<Rightarrow> session_id \<Rightarrow> envelope \<Rightarrow> server \<Rightarrow> server outcome" where
  [simp]: "file_upload_frame w r i env sv =
     (let c = codec w
      in if state_of_session i sv = Established
         then
           if env_payload env = [] then Returned (send_error w r i 4080 ''Empty FILE_UPLOAD'' sv)
           else (case parse_upload_chunk c (env_payload env) of
                   Some chunk \<Rightarrow>
                     if uc_data chunk \<noteq> [] then Returned (handle_file_upload w r i chunk sv)
                     else (case parse_upload_request c (env_payload env) of
                             Some req \<Rightarrow> Returned (handle_file_request w r i req sv)
                           | None \<Rightarrow> Returned (send_error w r i 4082 ''Invalid FILE_UPLOAD'' sv))
                 | None \<Rightarrow>
                     (case parse_upload_request c (env_payload env) of
                        Some req \<Rightarrow> Returned (handle_file_request w r i req sv)
                      | None \<Rightarrow> Returned (send_error w r i 4082 ''Invalid FILE_UPLOAD'' sv)))
         else Returned (send_error w r i 4081 ''Not authenticated'' sv))"

definition file_download_frame :: "world \<Rightarrow> readings \<Rightarrow> session_id \<Rightarrow> envelope \<Rightarrow> server \<Rightarrow> server outcome" where
  [simp]: "file_download_frame w r i env sv =
     (if state_of_session i sv = Established
      then (case parse_payload (parse_download (codec w)) env of
              None \<Rightarrow> Returned (send_error w r i 4086 ''Invalid FILE_DOWNLOAD'' sv)
            | Some req \<Rightarrow> Returned (handle_file_download w r i req sv))
      else Returned (send_error w r i 4087 ''Not authenticated'' sv))"

definition handle_envelope :: "world \<Rightarrow> readings \<Rightarrow> session_id \<Rightarrow> envelope \<Rightarrow> server \<Rightarrow> server outcome" where
  "handle_envelope w r i env sv =
     (let st = state_of_session i sv; c = codec w
      in case env_type env of
           MT_HELLO \<Rightarrow>
             if st = Hello
             then (case parse_payload (parse_hello c) env of
                     None \<Rightarrow> Returned (auth_error w r i 4003 ''Invalid HELLO message'' sv)
                   | Some h \<Rightarrow> Returned (handle_hello w r i h sv))
             else Returned sv
         | MT_AUTH_RESPONSE \<Rightarrow>
             if st = Auth_Pending
             then (case parse_payload (parse_auth c) env of
                     None \<Rightarrow> Returned (auth_error w r i 4004 ''Invalid AUTH_RESPONSE'' sv)
                   | Some auth \<Rightarrow> handle_auth_response w r i auth sv)
             else Returned sv
         | MT_PING \<Rightarrow> Returned (if st = Established then handle_ping w r i env sv else sv)
         | MT_PONG \<Rightarrow> Returned (upd_session i (\<lambda>s. s\<lparr>s_ping_sent := False\<rparr>) (reset_ping_timer i sv))
         | MT_CHAT_ENVELOPE \<Rightarrow>
             if st = Established
             then (case msg_allowed r i sv of
                     (False, sv) \<Rightarrow> Returned (send_error w r i 4290 ''Rate limit exceeded'' sv)
                   | (True, sv) \<Rightarrow>
                       (case parse_payload (parse_chat c) env of
                          None \<Rightarrow> Returned (send_error w r i 4030 ''Invalid CHAT_ENVELOPE'' sv)
                        | Some chat \<Rightarrow> Returned (handle_chat w r i chat env sv)))
             else Returned (send_error w r i 4031 ''Not authenticated'' sv)
         | MT_VOICE_SIGNAL \<Rightarrow>
             if st = Established
             then (case msg_allowed r i sv of
                     (False, sv) \<Rightarrow> Returned (send_error w r i 4290 ''Rate limit exceeded'' sv)
                   | (True, sv) \<Rightarrow>
                       (case parse_payload (parse_voice_signal c) env of
                          None \<Rightarrow> Returned (send_error w r i 4070 ''Invalid VOICE_SIGNAL'' sv)
                        | Some vs \<Rightarrow> Returned (handle_voice_signal w r i vs env sv)))
             else Returned (send_error w r i 4071 ''Not authenticated'' sv)
         | MT_VOICE_ROOM_JOIN \<Rightarrow>
             if st = Established
             then (case parse_payload (parse_voice_join c) env of
                     None \<Rightarrow> Returned (send_error w r i 4075 ''Invalid VOICE_ROOM_JOIN'' sv)
                   | Some room \<Rightarrow> Returned (handle_voice_room_join w r i room sv))
             else Returned sv
         | MT_VOICE_ROOM_LEAVE \<Rightarrow>
             if st = Established
             then (case parse_payload (parse_voice_leave c) env of
                     None \<Rightarrow> Returned (send_error w r i 4076 ''Invalid VOICE_ROOM_LEAVE'' sv)
                   | Some room \<Rightarrow> Returned (handle_voice_room_leave w i room sv))
             else Returned sv
         | MT_KEY_UPLOAD \<Rightarrow>
             if st = Established
             then (case parse_payload (parse_key_upload c) env of
                     None \<Rightarrow> Returned (send_error w r i 4040 ''Invalid KEY_UPLOAD'' sv)
                   | Some ku \<Rightarrow> handle_key_upload r i ku sv)
             else Returned (send_error w r i 4041 ''Not authenticated'' sv)
         | MT_KEY_REQUEST \<Rightarrow>
             if st = Established
             then (case parse_payload (parse_key_request c) env of
                     None \<Rightarrow> Returned (send_error w r i 4050 ''Invalid KEY_REQUEST'' sv)
                   | Some u \<Rightarrow> Returned (handle_key_request w r i u sv))
             else Returned (send_error w r i 4051 ''Not authenticated'' sv)
         | MT_COMMAND \<Rightarrow>
             if st = Established
             then (case parse_payload (parse_command c) env of
                     None \<Rightarrow> Returned (send_error w r i 4060 ''Invalid COMMAND'' sv)
                   | Some cmd \<Rightarrow> Returned (session_command w r i cmd sv))
             else Returned (send_error w r i 4061 ''Not authenticated'' sv)
         | MT_FILE_UPLOAD \<Rightarrow>
             file_upload_frame w r i env sv
         | MT_FILE_DOWNLOAD \<Rightarrow>
             file_download_frame w r i env sv
         | _ \<Rightarrow> Returned sv)"

definition on_frame_received :: "world \<Rightarrow> readings \<Rightarrow> session_id \<Rightarrow> bytes \<Rightarrow> server \<Rightarrow> server" where
  "on_frame_received w r i data sv =
     (case parse_envelope (codec w) data of
        None \<Rightarrow> send_error w r i 4002 ''Invalid protobuf'' sv
      | Some env \<Rightarrow> state_of (handle_envelope w r i env sv))"

section \<open>The events of a connection\<close>

definition set_reading :: "bool \<Rightarrow> session_id \<Rightarrow> server \<Rightarrow> server" where
  "set_reading b i = upd_session i (\<lambda>s. s\<lparr>s_reading := b\<rparr>)"

text \<open>\<open>do_read_frame_header\<close> starts a read, except in a dead session.\<close>

definition next_read :: "session_id \<Rightarrow> server \<Rightarrow> server" where
  "next_read i sv = set_reading (state_of_session i sv \<noteq> Dead) i sv"

text \<open>The completion of the TLS handshake.\<close>

definition on_handshake :: "world \<Rightarrow> readings \<Rightarrow> session_id \<Rightarrow> bool \<Rightarrow> server \<Rightarrow> server" where
  "on_handshake w r i ok sv =
     (let sv = set_reading False i sv
      in if \<not> ok then on_session_disconnected w r i sv else next_read i (set_state Hello i sv))"

text \<open>The ways a read can complete: a frame, a header that is refused, an error.\<close>

datatype read_result = Frame bytes | Bad_Header nat | Read_Error

definition on_read :: "world \<Rightarrow> readings \<Rightarrow> session_id \<Rightarrow> read_result \<Rightarrow> server \<Rightarrow> server" where
  "on_read w r i res sv =
     (let sv = set_reading False i sv
      in case res of
           Frame data \<Rightarrow> next_read i (on_frame_received w r i data sv)
         | Bad_Header n \<Rightarrow>
             if n > kMaxMessageSize
             then on_session_disconnected w r i (send_error w r i 4001 ''Message too large'' sv)
             else on_session_disconnected w r i sv
         | Read_Error \<Rightarrow> on_session_disconnected w r i sv)"

definition on_write_error :: "world \<Rightarrow> readings \<Rightarrow> session_id \<Rightarrow> server \<Rightarrow> server" where
  "on_write_error w r i = on_session_disconnected w r i"

text \<open>The ping timer fires.\<close>

definition on_ping_timer :: "world \<Rightarrow> readings \<Rightarrow> session_id \<Rightarrow> server \<Rightarrow> server" where
  "on_ping_timer w r i sv =
     (case sessions sv i of
        None \<Rightarrow> sv
      | Some s \<Rightarrow>
          let sv = upd_session i (\<lambda>s. s\<lparr>s_timer := No_Timer\<rparr>) sv
          in case s_timer s of
               No_Timer \<Rightarrow> sv
             | Interval_Timer \<Rightarrow>
                 if s_state s \<noteq> Established then sv
                 else if s_ping_sent s then on_session_disconnected w r i sv
                 else
                   send_env i \<lparr>env_seq = s_next_seq s, env_timestamp_ms = now_ms r, env_type = MT_PING,
                               env_payload = []\<rparr>
                     (upd_session i (\<lambda>s. s\<lparr>s_next_seq := s_next_seq s + 1, s_ping_sent := True,
                                            s_timer := Timeout_Timer\<rparr>) sv)
             | Timeout_Timer \<Rightarrow>
                 if s_state s = Established then on_session_disconnected w r i sv else sv)"

text \<open>The closure that \<open>disconnect\<close> posted runs.\<close>

definition run_disconnect :: "session_id \<Rightarrow> server \<Rightarrow> server" where
  "run_disconnect i sv =
     (upd_session i (\<lambda>s. s\<lparr>s_state := Dead, s_timer := No_Timer\<rparr>) sv)\<lparr>closing := closing sv - {i}\<rparr>"

end
