(* ===== verification/Session_Safety.thy ===== *)
theory Session_Safety
  imports Session
begin

text \<open>
  What the handlers of \<open>Session\<close> write, and what follows: the registry and the stores keep their
  invariants, a session becomes established only by a verified signature, and a message reaches another
  user only under the name of its sender.
\<close>

section \<open>Two views of the server\<close>

text \<open>Who is connected as whom, and everything that is stored.\<close>

definition registry :: "server \<Rightarrow> (user_id \<rightharpoonup> session_id) \<times> (session_id \<rightharpoonup> user_id) \<times> session_id \<times>
    (session_id \<rightharpoonup> session_state \<times> user_id)" where
  "registry sv = (by_user sv, by_session sv, next_session sv,
     \<lambda>i. map_option (\<lambda>s. (s_state s, s_user s)) (sessions sv i))"

definition stores :: "server \<Rightarrow> user_db \<times> offline_db \<times> file_db \<times> voice_state \<times> command_state" where
  "stores sv = (user_store sv, offline_store sv, file_store sv, voice_rooms sv, commands sv)"

definition registry_good :: "(user_id \<rightharpoonup> session_id) \<times> (session_id \<rightharpoonup> user_id) \<times> session_id \<times>
    (session_id \<rightharpoonup> session_state \<times> user_id) \<Rightarrow> bool" where
  "registry_good g \<longleftrightarrow> (case g of (bu, bs, n, ss) \<Rightarrow>
     (\<forall>u i. bu u = Some i \<longleftrightarrow> bs i = Some u) \<and>
     (\<forall>i u. bs i = Some u \<longrightarrow> (\<exists>st. ss i = Some (st, u) \<and> Established \<le> st)) \<and>
     (\<forall>i. ss i \<noteq> None \<longrightarrow> i < n) \<and> finite (dom bu))"

lemma registry_ok_iff: "registry_ok sv \<longleftrightarrow> registry_good (registry sv)"
proof -
  have "(\<exists>s. sessions sv i = Some s \<and> s_user s = u \<and> Established \<le> s_state s) \<longleftrightarrow>
      (\<exists>st. map_option (\<lambda>s. (s_state s, s_user s)) (sessions sv i) = Some (st, u) \<and> Established \<le> st)" for i u
    by (cases "sessions sv i") auto
  then show ?thesis by (simp add: registry_ok_def registry_good_def registry_def)
qed

definition stores_ok :: "server \<Rightarrow> bool" where
  "stores_ok sv \<longleftrightarrow> keys_ok (user_store sv) \<and> ids_ok (offline_store sv) \<and> files_ok (file_store sv) \<and> voice_ok (voice_rooms sv) \<and> channels_ok sv \<and> nicks_ok sv"

lemma stores_ok_same: "stores_ok sv \<Longrightarrow> stores sv' = stores sv \<Longrightarrow> stores_ok sv'"
  by (simp add: stores_ok_def stores_def channels_ok_def channel_of_def nicks_ok_def)

section \<open>What the primitives leave alone\<close>

lemma upd_session_fields [frame_simps]:
  "by_user (upd_session i f sv) = by_user sv" "by_session (upd_session i f sv) = by_session sv"
  "next_session (upd_session i f sv) = next_session sv" "user_store (upd_session i f sv) = user_store sv"
  "offline_store (upd_session i f sv) = offline_store sv" "file_store (upd_session i f sv) = file_store sv"
  "voice_rooms (upd_session i f sv) = voice_rooms sv" "commands (upd_session i f sv) = commands sv"
  "scanner (upd_session i f sv) = scanner sv" "sent (upd_session i f sv) = sent sv"
  "closing (upd_session i f sv) = closing sv" "motd (upd_session i f sv) = motd sv"
  "running_handlers (upd_session i f sv) = running_handlers sv"
  "active_connections (upd_session i f sv) = active_connections sv"
  "msg_rate_per_sec (upd_session i f sv) = msg_rate_per_sec sv"
  by (simp_all add: upd_session_def split: option.split)

lemma sessions_upd:
  "sessions (upd_session i f sv) j = (if j = i then map_option f (sessions sv i) else sessions sv j)"
  by (auto simp: upd_session_def split: option.split)

lemma stores_upd_session [simp]: "stores (upd_session i f sv) = stores sv"
  by (simp add: stores_def frame_simps)

lemma registry_upd_session [simp]:
  assumes "\<And>s. s_state (f s) = s_state s" "\<And>s. s_user (f s) = s_user s"
  shows "registry (upd_session i f sv) = registry sv"
  by (simp add: registry_def frame_simps fun_eq_iff sessions_upd assms comp_def option.map_comp)

lemma stores_primitives [simp]:
  "stores (send_env i e sv) = stores sv" "stores (disconnect i sv) = stores sv"
  "stores (sv\<lparr>sent := x\<rparr>) = stores sv" "stores (sv\<lparr>closing := c\<rparr>) = stores sv"
  "stores (sv\<lparr>scanner := m\<rparr>) = stores sv" "stores (sv\<lparr>active_connections := n\<rparr>) = stores sv"
  by (simp_all add: stores_def send_env_def disconnect_def)

lemma registry_primitives [simp]:
  "registry (send_env i e sv) = registry sv" "registry (disconnect i sv) = registry sv"
  "registry (sv\<lparr>sent := x\<rparr>) = registry sv" "registry (sv\<lparr>closing := c\<rparr>) = registry sv"
  "registry (sv\<lparr>scanner := m\<rparr>) = registry sv" "registry (sv\<lparr>user_store := a\<rparr>) = registry sv"
  "registry (sv\<lparr>offline_store := b\<rparr>) = registry sv" "registry (sv\<lparr>file_store := f\<rparr>) = registry sv"
  "registry (sv\<lparr>voice_rooms := v\<rparr>) = registry sv" "registry (sv\<lparr>active_connections := n\<rparr>) = registry sv"
  "registry (sv\<lparr>user_store := a, offline_store := b\<rparr>) = registry sv"
  by (simp_all add: registry_def send_env_def disconnect_def)

lemma send_envelope_same [simp]:
  "registry (send_envelope w r i t m sv) = registry sv" "stores (send_envelope w r i t m sv) = stores sv"
  by (simp_all add: send_envelope_def split: option.split)

lemma send_error_same [simp]:
  "registry (send_error w r i code msg sv) = registry sv" "stores (send_error w r i code msg sv) = stores sv"
  by (simp_all add: send_error_def)

lemma send_file_error_same [simp]:
  "registry (send_file_error w r i fid code msg sv) = registry sv"
  "stores (send_file_error w r i fid code msg sv) = stores sv"
  by (simp_all add: send_file_error_def)

lemma auth_refusals_same [simp]:
  "registry (auth_error w r i code msg sv) = registry sv" "stores (auth_error w r i code msg sv) = stores sv"
  "registry (auth_fail w r i code msg sv) = registry sv" "stores (auth_fail w r i code msg sv) = stores sv"
  by (simp_all add: auth_error_def auth_fail_def)

lemma broadcast_same [simp]:
  "registry (broadcast w e ex sv) = registry sv" "stores (broadcast w e ex sv) = stores sv"
  "registry (broadcast_presence w r u st ex sv) = registry sv"
  "stores (broadcast_presence w r u st ex sv) = stores sv"
  by (simp_all add: broadcast_presence_def broadcast_eq)

lemma send_notices_same [simp]:
  "registry (send_notices w ns sv) = registry sv" "stores (send_notices w ns sv) = stores sv"
  by (simp_all add: send_notices_eq)

lemma send_offline_same [simp]:
  "registry (send_offline w i ps sv) = registry sv" "stores (send_offline w i ps sv) = stores sv"
  by (induction ps arbitrary: sv) (simp_all split: option.split)

lemma msg_allowed_same [simp]:
  "registry (snd (msg_allowed r i sv)) = registry sv" "stores (snd (msg_allowed r i sv)) = stores sv"
  by (simp_all add: msg_allowed_def split: option.split prod.split)

lemma set_upload_same [simp]:
  "registry (set_upload i fid st sv) = registry sv" "stores (set_upload i fid st sv) = stores sv"
  by (simp_all add: set_upload_def)

lemma timers_same [simp]:
  "registry (reset_ping_timer i sv) = registry sv" "stores (reset_ping_timer i sv) = stores sv"
  "registry (start_ping_timer i sv) = registry sv" "stores (start_ping_timer i sv) = stores sv"
  "registry (set_reading b i sv) = registry sv" "stores (set_reading b i sv) = stores sv"
  "registry (next_read i sv) = registry sv" "stores (next_read i sv) = stores sv"
  "stores (set_state st i sv) = stores sv"
  by (simp_all add: reset_ping_timer_def start_ping_timer_def set_reading_def next_read_def set_state_def)

section \<open>The handlers and the registry\<close>

text \<open>No handler but the two that advance the session's state touches the registry.\<close>

lemma handle_ping_same [simp]:
  "registry (handle_ping w r i env sv) = registry sv" "stores (handle_ping w r i env sv) = stores sv"
  by (simp_all add: handle_ping_def split: option.split)

lemma save_offline_registry [simp]: "registry (snd (save_offline r c u p sv)) = registry sv"
  by (simp add: save_offline_def split: prod.split)

lemma handle_chat_registry [simp]: "registry (handle_chat w r i chat raw sv) = registry sv"
proof -
  have "registry sv1 = registry sv" if "save_offline r c u p sv = (b, sv1)" for b sv1 c u p
    using save_offline_registry [of r c u p sv] that by simp
  then show ?thesis by (auto simp: handle_chat_def split: option.split prod.split bool.split)
qed

lemma handle_voice_signal_same [simp]:
  "registry (handle_voice_signal w r i vs raw sv) = registry sv"
  "stores (handle_voice_signal w r i vs raw sv) = stores sv"
  by (simp_all add: handle_voice_signal_def split: option.split)

lemma handle_voice_room_registry [simp]:
  "registry (handle_voice_room_join w r i c sv) = registry sv"
  "registry (handle_voice_room_leave w i c sv) = registry sv"
  by (simp_all add: handle_voice_room_join_def handle_voice_room_leave_def Let_def split: prod.split)

lemma handle_key_upload_registry [simp]: "registry (state_of (handle_key_upload r i ku sv)) = registry sv"
  by (simp add: handle_key_upload_def Let_def split: outcome.split)

lemma handle_key_request_registry [simp]: "registry (handle_key_request w r i u sv) = registry sv"
  by (simp add: handle_key_request_def Let_def split: option.split prod.split)

lemma handle_file_request_registry [simp]: "registry (handle_file_request w r i req sv) = registry sv"
  by (simp add: handle_file_request_def Let_def split: prod.split bool.split)

lemma finish_upload_registry [simp]: "registry (finish_upload w r i fid st sv) = registry sv"
  by (simp add: finish_upload_def Let_def split: prod.split)

lemma handle_file_upload_registry [simp]: "registry (handle_file_upload w r i chunk sv) = registry sv"
proof -
  have "registry sv1 = registry sv" if "msg_allowed r i sv = (b, sv1)" for b sv1
    using msg_allowed_same(1) [of r i sv] that by simp
  then show ?thesis
    by (auto simp: handle_file_upload_def Let_def split: prod.split bool.split option.split)
qed

lemma download_loop_same [simp]:
  "registry (download_loop w r i fid n k ks sv) = registry sv"
  "stores (download_loop w r i fid n k ks sv) = stores sv"
  by (induction ks arbitrary: sv) (simp_all add: Let_def split: option.split)

lemma handle_file_download_same [simp]:
  "registry (handle_file_download w r i req sv) = registry sv"
  "stores (handle_file_download w r i req sv) = stores sv"
  by (simp_all add: handle_file_download_def Let_def split: option.split)

text \<open>The commands send, store and change channels, but never the registry.\<close>

lemma command_primitives_registry [simp]:
  "registry (upd_commands f sv) = registry sv" "registry (set_channel c x sv) = registry sv"
  "registry (set_limits u l sv) = registry sv" "registry (set_abuse u a sv) = registry sv"
  "registry (send_to_online e us sv) = registry sv" "registry (broadcast_user_list w c sv) = registry sv"
  "registry (send_user_list w c i sv) = registry sv" "registry (deliver_to_members w r c e ex us sv) = registry sv"
  "registry (announce_nick w r u e cs sv) = registry sv" "registry (part_channel c u sv) = registry sv"
  by (simp_all add: registry_def frame_simps set_channel_def set_limits_def set_abuse_def send_to_online_eq
      part_channel_def Let_def split: option.split)

lemma gates_registry [simp]:
  "registry (snd (is_abuser now u sv)) = registry sv" "registry (snd (track_abuse now u sv)) = registry sv"
  "registry (snd (allow_command now u sv)) = registry sv" "registry (snd (allow_join now u sv)) = registry sv"
  by (simp_all add: is_abuser_def track_abuse_def allow_command_def allow_join_def Let_def
      split: option.split prod.split)

lemma quit_channels_registry [simp]: "registry (quit_channels w u reason cs sv) = registry sv"
proof (induction cs arbitrary: sv)
  case (Cons c cs)
  have "quit_channels w u reason (c # cs) sv =
      quit_channels w u reason cs (broadcast_user_list w c (part_channel c u sv))"
    by (simp add: quit_channels_def notify_channel_part_def)
  then show ?case by (simp add: Cons)
qed (simp add: quit_channels_def)

lemma cmd_join_registry [simp]: "registry (snd (cmd_join w r args i sv)) = registry sv"
proof -
  have "registry sv1 = registry sv" if "allow_join now u sv = (b, sv1)" for b sv1 now u
    using gates_registry(4) [of now u sv] that by simp
  then show ?thesis
    by (auto simp: cmd_join_def get_or_create_eq notify_channel_join_def Let_def split: prod.split bool.split)
qed

lemma commands_registry [simp]:
  "registry (snd (cmd_part w args i sv)) = registry sv" "registry (snd (cmd_nick w r args i sv)) = registry sv"
  "registry (snd (cmd_topic w args i sv)) = registry sv" "registry (snd (cmd_kick w args i sv)) = registry sv"
  "registry (snd (cmd_ban w args i sv)) = registry sv" "registry (snd (cmd_invite w args i sv)) = registry sv"
  "registry (snd (cmd_set args i sv)) = registry sv" "registry (snd (cmd_mode args i sv)) = registry sv"
  "registry (snd (cmd_password w r args i sv)) = registry sv" "registry (snd (cmd_quit w args i sv)) = registry sv"
  "registry (snd (cmd_resetdb r i sv)) = registry sv"
  by (simp_all add: cmd_part_def cmd_nick_def cmd_topic_def cmd_kick_def cmd_ban_def cmd_invite_def cmd_set_def
      cmd_mode_def cmd_password_def cmd_quit_def cmd_resetdb_def notify_channel_part_def
      notify_channel_join_def Let_def del: send_to_online.simps
      split: option.split outcome.split prod.split bool.split)

lemma handle_command_registry [simp]: "registry (snd (handle_command w r cmd i sv)) = registry sv"
proof -
  have adm: "registry (admitted r i sv) = registry sv" by (simp add: admitted_def Let_def)
  show ?thesis
  proof (cases rule: handle_command_states [of w r cmd i sv])
    case (5 res)
    from 5(1) have "registry (snd res) = registry sv"
      by (cases rule: run_command_states) (simp_all add: adm)
    with 5(2) show ?thesis by simp
  qed (simp_all add: adm)
qed

lemma session_command_registry [simp]: "registry (session_command w r i cmd sv) = registry sv"
proof -
  have "registry sv1 = registry sv" if "handle_command w r cmd i sv = (resp, sv1)" for resp sv1
    using handle_command_registry [of w r cmd i sv] that by simp
  then show ?thesis by (auto simp: session_command_def split: prod.split)
qed

section \<open>The handlers and the stores\<close>

lemma stores_okE:
  assumes "stores_ok sv"
  shows "keys_ok (user_store sv)" "ids_ok (offline_store sv)"
    "files_ok (file_store sv)" "voice_ok (voice_rooms sv)" "channels_ok sv" "nicks_ok sv"
  using assms by (simp_all add: stores_ok_def)

text \<open>Replacing one store by a good one.\<close>

lemma stores_ok_upd [inv_intros]:
  "stores_ok sv \<Longrightarrow> keys_ok db \<Longrightarrow> stores_ok (sv\<lparr>user_store := db\<rparr>)"
  "stores_ok sv \<Longrightarrow> ids_ok od \<Longrightarrow> stores_ok (sv\<lparr>offline_store := od\<rparr>)"
  "stores_ok sv \<Longrightarrow> files_ok fd \<Longrightarrow> stores_ok (sv\<lparr>file_store := fd\<rparr>)"
  "stores_ok sv \<Longrightarrow> voice_ok v \<Longrightarrow> stores_ok (sv\<lparr>voice_rooms := v\<rparr>)"
  by (simp_all add: stores_ok_def channels_ok_def channel_of_def nicks_ok_def)

lemma stores_ok_frames [simp]:
  "stores_ok (send_envelope w r i t m sv) = stores_ok sv" "stores_ok (send_error w r i code msg sv) = stores_ok sv"
  "stores_ok (send_file_error w r i fid code msg sv) = stores_ok sv" "stores_ok (set_upload i fid st sv) = stores_ok sv"
  "stores_ok (disconnect i sv) = stores_ok sv" "stores_ok (send_env i e sv) = stores_ok sv"
  "stores_ok (upd_session i g sv) = stores_ok sv" "stores_ok (broadcast w e ex sv) = stores_ok sv"
  "stores_ok (broadcast_presence w r u ps ex sv) = stores_ok sv" "stores_ok (send_notices w ns sv) = stores_ok sv"
  "stores_ok (send_offline w i bs sv) = stores_ok sv" "stores_ok (auth_error w r i code msg sv) = stores_ok sv"
  "stores_ok (auth_fail w r i code msg sv) = stores_ok sv" "stores_ok (set_state s i sv) = stores_ok sv"
  "stores_ok (start_ping_timer i sv) = stores_ok sv" "stores_ok (reset_ping_timer i sv) = stores_ok sv"
  "stores_ok (set_reading b i sv) = stores_ok sv" "stores_ok (next_read i sv) = stores_ok sv"
  "stores_ok (sv\<lparr>scanner := sm\<rparr>) = stores_ok sv" "stores_ok (sv\<lparr>sent := x\<rparr>) = stores_ok sv"
  "stores_ok (sv\<lparr>closing := d\<rparr>) = stores_ok sv" "stores_ok (sv\<lparr>active_connections := n\<rparr>) = stores_ok sv"
  by (rule iffI; erule stores_ok_same; simp)+

lemma save_offline_stores [inv_intros]:
  assumes ok: "stores_ok sv"
  shows "stores_ok (snd (save_offline r c u p sv))"
proof -
  obtain b db where s: "save (save_faults_at r c u) (unix_time r) u p (offline_store sv) = (b, db)" by fastforce
  have "ids_ok db" using ids_ok_save [OF stores_okE(2) [OF ok], of "save_faults_at r c u" "unix_time r" u p] s by simp
  with ok show ?thesis by (simp add: save_offline_def s stores_ok_upd)
qed

lemma delete_users_empty:
  assumes ok: "keys_ok db" and del: "delete_all_users f db = Returned db'"
  shows "db' = db\<lparr>users := Map.empty\<rparr>" "signed_prekeys db = Map.empty" "one_time_prekeys db = []"
proof -
  have free: "signed_prekeys db u = None" "u \<notin> opk_user ` set (one_time_prekeys db)" if "u \<in> dom (users db)" for u
    using del that by (auto simp: delete_all_users_def split: if_splits)
  show "db' = db\<lparr>users := Map.empty\<rparr>" using del by (simp add: delete_all_users_def split: if_splits)
  have sub: "dom (signed_prekeys db) \<subseteq> dom (users db)" "opk_user ` set (one_time_prekeys db) \<subseteq> dom (users db)"
    using ok by (simp_all add: keys_ok_def)
  show "signed_prekeys db = Map.empty"
  proof
    fix u
    have "u \<in> dom (users db) \<or> signed_prekeys db u = None" using sub(1) by blast
    then show "signed_prekeys db u = None" using free(1) [of u] by (elim disjE)
  qed
  have "opk_user ` set (one_time_prekeys db) = {}" using free(2) sub(2) by (meson all_not_in_conv in_mono)
  then show "one_time_prekeys db = []" by (simp only: image_is_empty set_empty)
qed

lemma keys_ok_delete [inv_intros]:
  "keys_ok db \<Longrightarrow> keys_ok (state_of (delete_all_users f db))"
  "keys_ok db \<Longrightarrow> keys_ok (state_of (delete_all_spks f db))"
  "keys_ok db \<Longrightarrow> keys_ok (state_of (delete_all_opks f db))"
proof -
  assume ok: "keys_ok db"
  show "keys_ok (state_of (delete_all_users f db))"
  proof (cases "delete_all_users f db")
    case (Returned db')
    with delete_users_empty [OF ok Returned] show ?thesis by (simp add: keys_ok_def)
  next
    case (Threw db')
    with ok show ?thesis by (simp add: delete_all_users_def split: if_splits)
  qed
  show "keys_ok (state_of (delete_all_spks f db))" "keys_ok (state_of (delete_all_opks f db))"
    using ok by (simp_all add: keys_ok_def delete_all_spks_def delete_all_opks_def)
qed

lemma keys_ok_store_opks [inv_intros]: "keys_ok db \<Longrightarrow> keys_ok (state_of (store_opks f n u ks db))"
proof (induction ks arbitrary: n db)
  case (Cons k ks)
  then show ?case using keys_ok_store [of db "f n" u k] by (auto split: outcome.split)
qed simp

lemma handle_chat_stores [inv_intros]:
  assumes "stores_ok sv"
  shows "stores_ok (handle_chat w r i chat raw sv)"
proof -
  have "stores_ok sv1" if "save_offline r c u p sv = (b, sv1)" for b sv1 c u p
    using save_offline_stores [OF assms, of r c u p] that by simp
  then show ?thesis using assms
    by (auto simp: handle_chat_def split: option.split prod.split bool.split
        intro: stores_ok_same [where sv = sv] stores_ok_same [OF _ send_error_same(2)])
qed

lemma handle_voice_room_stores [inv_intros]:
  "stores_ok sv \<Longrightarrow> stores_ok (handle_voice_room_join w r i c sv)"
  "stores_ok sv \<Longrightarrow> stores_ok (handle_voice_room_leave w i c sv)"
proof -
  assume ok: "stores_ok sv"
  obtain err ns v where j: "voice_join c (session_user i sv) (voice_rooms sv) = (err, ns, v)"
    by (metis prod_cases3)
  have "voice_ok v" using voice_join_ok [OF stores_okE(4) [OF ok], of c "session_user i sv"] by (simp add: j)
  then have "stores_ok (sv\<lparr>voice_rooms := v\<rparr>)" using ok by (rule stores_ok_upd(4) [rotated])
  then show "stores_ok (handle_voice_room_join w r i c sv)"
    by (rule stores_ok_same) (simp add: handle_voice_room_join_def j Let_def)
  obtain ns v where l: "voice_leave c (session_user i sv) (voice_rooms sv) = (ns, v)" by fastforce
  have "voice_ok v" using voice_leave_ok [OF stores_okE(4) [OF ok], of c "session_user i sv"] by (simp add: l)
  then have "stores_ok (sv\<lparr>voice_rooms := v\<rparr>)" using ok by (rule stores_ok_upd(4) [rotated])
  then show "stores_ok (handle_voice_room_leave w i c sv)"
    by (rule stores_ok_same) (simp add: handle_voice_room_leave_def l)
qed

lemma handle_key_upload_stores [inv_intros]:
  assumes ok: "stores_ok sv"
  shows "stores_ok (state_of (handle_key_upload r i ku sv))"
proof -
  define spk where "spk = (if ku_signed_prekey ku \<noteq> [] \<and> ku_spk_signature ku \<noteq> []
    then upsert_signed_prekey (db_fails r 0) (unix_time r) (session_user i sv) (ku_signed_prekey ku)
      (ku_spk_signature ku) (user_store sv) else Returned (user_store sv))"
  have spk: "keys_ok (state_of spk)" using stores_okE(1) [OF ok] by (simp add: spk_def keys_ok_upsert)
  let ?opks = "store_opks (db_fails r) 1 (session_user i sv) (ku_one_time_prekeys ku) (state_of spk)"
  have "keys_ok (state_of ?opks)" using spk by (rule keys_ok_store_opks)
  moreover have "state_of (handle_key_upload r i ku sv) = sv\<lparr>user_store := state_of spk\<rparr> \<or>
      state_of (handle_key_upload r i ku sv) = sv\<lparr>user_store := state_of ?opks\<rparr>"
    unfolding handle_key_upload_def Let_def spk_def [symmetric] by (cases spk) (auto split: outcome.split)
  ultimately show ?thesis using ok spk stores_ok_upd(1) by metis
qed

lemma handle_key_request_stores [inv_intros]:
  assumes ok: "stores_ok sv"
  shows "stores_ok (handle_key_request w r i u sv)"
proof -
  obtain opk db where c: "consume_opk (opk_choice r) (db_fails r 2) (db_fails r 3) u (user_store sv) = (opk, db)"
    by fastforce
  have "keys_ok db"
    using keys_ok_consume [OF stores_okE(1) [OF ok]] snd_consume_opk [of "opk_choice r"] c by (metis snd_conv)
  then have "stores_ok (sv\<lparr>user_store := db\<rparr>)" using ok by (rule stores_ok_upd(1) [rotated])
  with ok show ?thesis
    by (cases "find_by_id (db_fails r 0) u (user_store sv)")
       (auto simp: handle_key_request_def c Let_def elim: stores_ok_same)
qed

lemma delete_file_ok [inv_intros]: "files_ok db \<Longrightarrow> files_ok (snd (delete_file f fid db))"
  by (simp add: delete_file_def delete_files_ok)

lemma finish_upload_stores [inv_intros]:
  assumes ok: "stores_ok sv"
  shows "stores_ok (finish_upload w r i fid st sv)"
proof -
  have "stores_ok (sv\<lparr>scanner := m, file_store := snd (delete_file f fid (file_store sv))\<rparr>)"
    "stores_ok (sv\<lparr>scanner := m, file_store := snd (mark_complete f fid [] (file_store sv))\<rparr>)"
    "stores_ok (sv\<lparr>file_store := snd (mark_complete f fid [] (file_store sv))\<rparr>)" for f m
    using ok stores_okE(3) [OF ok] by (intro stores_ok_upd; simp add: inv_intros)+
  then show ?thesis
    by (simp add: finish_upload_def Let_def split: prod.split)
qed

lemma handle_file_request_stores [inv_intros]:
  assumes ok: "stores_ok sv"
  shows "stores_ok (handle_file_request w r i req sv)"
proof -
  have "stores_ok (sv\<lparr>file_store := db\<rparr>)" if "create_file f t m (file_store sv) = (b, db)" for b db f t m
    using create_file_ok [OF stores_okE(3) [OF ok], of f t m] that ok by (intro stores_ok_upd) simp_all
  with ok show ?thesis
    by (auto simp: handle_file_request_def Let_def split: prod.split bool.split)
qed

lemma handle_file_upload_stores [inv_intros]:
  assumes ok: "stores_ok sv"
  shows "stores_ok (handle_file_upload w r i chunk sv)"
proof -
  have allowed: "stores_ok sv1" if "msg_allowed r i sv = (b, sv1)" for b sv1
    using msg_allowed_same(2) [of r i sv] that stores_ok_same [OF ok] by simp
  have chunk: "stores_ok (sv1\<lparr>file_store := db\<rparr>)"
    if "store_chunk f fid k d (file_store sv1) = (b, db)" "stores_ok sv1" for b db f fid k d sv1
    using store_chunk_ok [OF stores_okE(3) [OF that(2)], of f fid k d] that by (intro stores_ok_upd) simp_all
  show ?thesis
    by (auto simp: handle_file_upload_def Let_def split: prod.split bool.split option.split
        intro!: finish_upload_stores dest!: allowed intro: chunk)
qed

text \<open>Among the commands, the nickname change stores messages and two write the accounts.\<close>

definition tables :: "server \<Rightarrow> user_db \<times> offline_db \<times> file_db \<times> voice_state" where
  "tables sv = (user_store sv, offline_store sv, file_store sv, voice_rooms sv)"

definition tables_ok :: "server \<Rightarrow> bool" where
  "tables_ok sv \<longleftrightarrow> keys_ok (user_store sv) \<and> ids_ok (offline_store sv) \<and> files_ok (file_store sv) \<and>
     voice_ok (voice_rooms sv)"

lemma stores_ok_tables: "stores_ok sv \<longleftrightarrow> tables_ok sv \<and> channels_ok sv \<and> nicks_ok sv"
  by (auto simp: stores_ok_def tables_ok_def)

lemma tables_ok_same: "tables_ok sv \<Longrightarrow> tables sv' = tables sv \<Longrightarrow> tables_ok sv'"
  by (simp add: tables_ok_def tables_def)

lemma command_primitives_tables [simp]:
  "tables (upd_commands f sv) = tables sv" "tables (set_channel c x sv) = tables sv"
  "tables (set_limits u l sv) = tables sv" "tables (set_abuse u a sv) = tables sv"
  "tables (send_to_online e us sv) = tables sv" "tables (broadcast_user_list w c sv) = tables sv"
  "tables (send_user_list w c i sv) = tables sv" "tables (part_channel c u sv) = tables sv"
  "tables (disconnect i sv) = tables sv" "tables (send_env i e sv) = tables sv"
  by (simp_all add: tables_def frame_simps set_channel_def set_limits_def set_abuse_def send_to_online_eq
      part_channel_def disconnect_def send_env_def Let_def split: option.split)

lemma gates_tables [simp]:
  "tables (snd (is_abuser now u sv)) = tables sv" "tables (snd (track_abuse now u sv)) = tables sv"
  "tables (snd (allow_command now u sv)) = tables sv" "tables (snd (allow_join now u sv)) = tables sv"
  by (simp_all add: is_abuser_def track_abuse_def allow_command_def allow_join_def Let_def
      split: option.split prod.split)

lemma quit_channels_tables [simp]: "tables (quit_channels w u reason cs sv) = tables sv"
proof (induction cs arbitrary: sv)
  case (Cons c cs)
  have "quit_channels w u reason (c # cs) sv =
      quit_channels w u reason cs (broadcast_user_list w c (part_channel c u sv))"
    by (simp add: quit_channels_def notify_channel_part_def)
  then show ?case by (simp add: Cons)
qed (simp add: quit_channels_def)

lemma cmd_join_tables [simp]: "tables (snd (cmd_join w r args i sv)) = tables sv"
proof -
  have "tables sv1 = tables sv" if "allow_join now u sv = (b, sv1)" for b sv1 now u
    using gates_tables(4) [of now u sv] that by simp
  then show ?thesis
    by (auto simp: cmd_join_def get_or_create_eq notify_channel_join_def Let_def split: prod.split bool.split)
qed

lemma commands_tables [simp]:
  "tables (snd (cmd_part w args i sv)) = tables sv" "tables (snd (cmd_topic w args i sv)) = tables sv"
  "tables (snd (cmd_kick w args i sv)) = tables sv" "tables (snd (cmd_ban w args i sv)) = tables sv"
  "tables (snd (cmd_invite w args i sv)) = tables sv" "tables (snd (cmd_set args i sv)) = tables sv"
  "tables (snd (cmd_mode args i sv)) = tables sv" "tables (snd (cmd_quit w args i sv)) = tables sv"
  by (simp_all add: cmd_part_def cmd_topic_def cmd_kick_def cmd_ban_def cmd_invite_def cmd_set_def
      cmd_mode_def cmd_quit_def notify_channel_part_def notify_channel_join_def Let_def
      del: send_to_online.simps split: option.split)

lemma save_offline_tables_ok [inv_intros]: "tables_ok sv \<Longrightarrow> tables_ok (snd (save_offline r c u p sv))"
proof -
  assume ok: "tables_ok sv"
  obtain b db where s: "save (save_faults_at r c u) (unix_time r) u p (offline_store sv) = (b, db)" by fastforce
  have "ids_ok db" using ids_ok_save [of "offline_store sv"] ok s by (metis snd_conv tables_ok_def)
  with ok show ?thesis by (simp add: save_offline_def s tables_ok_def)
qed

lemma deliver_tables_ok [inv_intros]: "tables_ok sv \<Longrightarrow> tables_ok (deliver_to_members w r c e x us sv)"
proof (induction us arbitrary: sv)
  case (Cons u us)
  have "tables_ok (send_env j e sv)" for j using Cons.prems by (rule tables_ok_same) simp
  with Cons save_offline_tables_ok [OF Cons.prems] show ?case by (simp split: option.split)
qed simp

lemma announce_tables_ok [inv_intros]: "tables_ok sv \<Longrightarrow> tables_ok (announce_nick w r u e cs sv)"
proof (induction cs arbitrary: sv)
  case (Cons c cs)
  have "tables_ok (broadcast_to_channel w r c e None sv)"
    using Cons.prems deliver_tables_ok by (simp add: broadcast_to_channel_def split: option.split)
  with Cons show ?case by simp
qed simp

lemma nick_tables_ok [inv_intros]: "tables_ok sv \<Longrightarrow> tables_ok (snd (cmd_nick w r args i sv))"
  by (auto simp: cmd_nick_def Let_def intro!: announce_tables_ok intro: tables_ok_same)

lemma password_tables_ok [inv_intros]:
  assumes ok: "tables_ok sv"
  shows "tables_ok (snd (cmd_password w r args i sv))"
proof -
  have "tables_ok (sv\<lparr>user_store := db\<rparr>)"
    if "update_password h c f g u p q (user_store sv) = (b, db)" for h c f g u p q b db
    using keys_ok_update_password [of "user_store sv" h c f g u p q] that ok by (simp add: tables_ok_def)
  with ok show ?thesis by (auto simp: cmd_password_def Let_def split: prod.split bool.split)
qed

lemma resetdb_tables_ok [inv_intros]:
  assumes ok: "tables_ok sv"
  shows "tables_ok (snd (cmd_resetdb r i sv))"
proof -
  let ?u = "delete_all_users (db_fails r 0) (user_store sv)"
  let ?s = "delete_all_spks (db_fails r 1) (state_of ?u)"
  let ?o = "delete_all_opks (db_fails r 2) (state_of ?s)"
  have keys: "keys_ok (state_of ?u)" "keys_ok (state_of ?s)" "keys_ok (state_of ?o)"
    using ok by (simp_all add: tables_ok_def keys_ok_delete)
  have ids: "ids_ok (delete_offline_messages od)" for od by (simp add: ids_ok_def delete_offline_messages_def)
  show ?thesis
  proof (cases ?u)
    case (Threw db)
    with ok keys show ?thesis by (simp add: cmd_resetdb_def Let_def tables_ok_def)
  next
    case u: (Returned db1)
    show ?thesis
    proof (cases ?s)
      case (Threw db)
      with u ok keys show ?thesis by (simp add: cmd_resetdb_def Let_def tables_ok_def)
    next
      case s: (Returned db2)
      with u ok keys ids show ?thesis
        by (cases ?o) (simp_all add: cmd_resetdb_def Let_def tables_ok_def)
    qed
  qed
qed

lemma handle_command_stores [inv_intros]:
  assumes ok: "stores_ok sv"
  shows "stores_ok (snd (handle_command w r cmd i sv))"
proof -
  have tab: "tables_ok sv" using ok by (simp add: stores_ok_tables)
  have adm: "tables (admitted r i sv) = tables sv" by (simp add: admitted_def Let_def)
  have "tables_ok (snd (handle_command w r cmd i sv))"
  proof (cases rule: handle_command_states [of w r cmd i sv])
    case (5 res)
    have tab': "tables_ok (admitted r i sv)" using tab adm by (rule tables_ok_same)
    from 5(1) have "tables_ok (snd res)"
      by (cases rule: run_command_states) (simp_all add: tab' inv_intros tables_ok_same [OF tab'])
    with 5(2) show ?thesis by simp
  qed (simp_all add: tab adm tables_ok_same [OF tab])
  with ok show ?thesis
    by (simp add: stores_ok_tables handle_command_channels_ok handle_command_nicks_ok)
qed

lemma session_command_stores [inv_intros]:
  assumes "stores_ok sv"
  shows "stores_ok (session_command w r i cmd sv)"
  using handle_command_stores [OF assms, of w r cmd i] assms
  by (auto simp: session_command_def split: prod.split)

section \<open>Authentication\<close>

lemma auth_account_keys_ok [inv_intros]:
  assumes ok: "keys_ok db"
  shows "keys_ok (snd (auth_account w r auth db))"
proof -
  have spk: "keys_ok (state_of (store_offered_spk r auth d))" if "keys_ok d" for d
    using that by (simp add: store_offered_spk_def keys_ok_upsert)
  let ?u = "ar_user_id auth" and ?key = "ar_identity_pub auth"
  show ?thesis
  proof (cases "find_by_id (db_fails r 0) ?u db")
    case None
    let ?ins = "insert_user (db_fails r 1) ?u ?key (unix_time r) db"
    have "keys_ok (state_of ?ins)" "keys_ok (state_of (store_offered_spk r auth (state_of ?ins)))"
      using ok spk by (simp_all add: keys_ok_insert)
    with None show ?thesis
      by (cases ?ins; cases "store_offered_spk r auth (state_of ?ins)")
         (auto simp: auth_account_def Let_def keys_ok_set_password)
  next
    case (Some existing)
    let ?clr = "clear_key_material (db_fails r 6) (db_fails r 7) ?u db"
    let ?upd = "update_identity_key (db_fails r 8) ?u ?key (state_of ?clr)"
    have "keys_ok (state_of ?clr)" "keys_ok (state_of ?upd)"
      "keys_ok (state_of (store_offered_spk r auth (state_of ?upd)))"
      using ok spk by (simp_all add: keys_ok_clear keys_ok_update)
    with Some ok show ?thesis
      by (cases ?clr; cases ?upd; cases "store_offered_spk r auth (state_of ?upd)")
         (auto simp: auth_account_def Let_def keys_ok_set_password)
  qed
qed

text \<open>A session that is not established is not registered, and may change freely.\<close>

lemma unregistered:
  assumes "registry_ok sv" "state_of_session i sv < Established"
  shows "by_session sv i = None"
proof (rule ccontr)
  assume "by_session sv i \<noteq> None"
  then obtain u where "by_session sv i = Some u" by auto
  with assms(1) obtain s where "sessions sv i = Some s" "Established \<le> s_state s" by (rule registry_session)
  with assms(2) show False by (simp add: state_of_session_def)
qed

lemma upd_unregistered [inv_intros]:
  assumes "registry_ok sv" "by_session sv i = None"
  shows "registry_ok (upd_session i f sv)"
  using assms by (auto simp: registry_ok_def frame_simps sessions_upd split: if_splits)

lemma upd_registered [inv_intros]:
  assumes "registry_ok sv" "\<And>s. s_user (f s) = s_user s"
    "\<And>s. Established \<le> s_state s \<Longrightarrow> Established \<le> s_state (f s)"
  shows "registry_ok (upd_session i f sv)"
proof -
  have "\<exists>s. sessions (upd_session i f sv) j = Some s \<and> s_user s = u \<and> Established \<le> s_state s"
    if "by_session sv j = Some u" for j u
    using that by (rule registry_session [OF assms(1)]) (auto simp: sessions_upd assms)
  then show ?thesis
    using assms(1) by (auto simp: registry_ok_def frame_simps sessions_upd split: if_splits)
qed

lemma state_present: "state_of_session i sv \<noteq> Dead \<Longrightarrow> \<exists>s. sessions sv i = Some s \<and> s_state s = state_of_session i sv"
  by (auto simp: state_of_session_def split: option.splits)

lemma registry_eqD:
  assumes "registry sv' = registry sv"
  shows "by_session sv' = by_session sv" "by_user sv' = by_user sv" "next_session sv' = next_session sv"
    "map_option (\<lambda>s. (s_state s, s_user s)) (sessions sv' i) = map_option (\<lambda>s. (s_state s, s_user s)) (sessions sv i)"
  using assms by (auto simp: registry_def dest: fun_cong)

text \<open>The part of \<open>auth_success\<close> before the registration.\<close>

definition greeted :: "world \<Rightarrow> readings \<Rightarrow> session_id \<Rightarrow> user_id \<Rightarrow> server \<Rightarrow> server" where
  "greeted w r i u sv =
     (let sv = set_state Established i (send_envelope w r i MT_AUTH_OK Empty (upd_session i (\<lambda>s. s\<lparr>s_user := u\<rparr>) sv))
      in if motd sv \<noteq> [] then send_envelope w r i MT_MOTD (Motd (getlines (motd sv))) sv else sv)"

lemma auth_success_eq:
  "auth_success w r i u sv =
     (let sv = on_session_authenticated w r i (greeted w r i u sv);
          sv = upd_session i (\<lambda>s. s\<lparr>s_limiter :=
                 Some (new_rate_limiter (msg_rate_per_sec sv) (seconds 1) (steady r))\<rparr>) (start_ping_timer i sv)
      in case fetch_and_delete (fetch_fault_at r) (unix_time r) u (offline_store sv) of
           (msgs, db) \<Rightarrow>
             broadcast_presence w r u ONLINE (Some i) (send_offline w i msgs (sv\<lparr>offline_store := db\<rparr>)))"
proof -
  have rate: "msg_rate_per_sec (start_ping_timer i s) = msg_rate_per_sec s" for s
    by (simp add: start_ping_timer_def reset_ping_timer_def frame_simps)
  show ?thesis by (simp only: auth_success_def greeted_def Let_def rate)
qed

lemma registry_ok_frames [simp]:
  "registry_ok (send_envelope w r i t m sv) = registry_ok sv" "registry_ok (send_error w r i code msg sv) = registry_ok sv"
  "registry_ok (broadcast_presence w r u ps ex sv) = registry_ok sv" "registry_ok (send_offline w i bs sv) = registry_ok sv"
  "registry_ok (sv\<lparr>offline_store := od\<rparr>) = registry_ok sv" "registry_ok (sv\<lparr>user_store := db\<rparr>) = registry_ok sv"
  "registry_ok (auth_error w r i code msg sv) = registry_ok sv" "registry_ok (auth_fail w r i code msg sv) = registry_ok sv"
  "registry_ok (start_ping_timer i sv) = registry_ok sv" "registry_ok (disconnect i sv) = registry_ok sv"
  "registry_ok (reset_ping_timer i sv) = registry_ok sv" "registry_ok (send_env i e sv) = registry_ok sv"
  "registry_ok (set_reading b i sv) = registry_ok sv" "registry_ok (next_read i sv) = registry_ok sv"
  by (simp_all add: registry_ok_iff)

lemma send_envelope_fields [frame_simps]:
  "by_session (send_envelope w r i t m sv) = by_session sv" "by_user (send_envelope w r i t m sv) = by_user sv"
  "motd (send_envelope w r i t m sv) = motd sv" "user_store (send_envelope w r i t m sv) = user_store sv"
  "offline_store (send_envelope w r i t m sv) = offline_store sv"
  "closing (send_envelope w r i t m sv) = closing sv"
  by (simp_all add: send_envelope_def frame_simps send_env_def split: option.split)

lemma sessions_send_envelope:
  "sessions (send_envelope w r i t m sv) j =
     (if j = i then map_option (\<lambda>s. s\<lparr>s_next_seq := s_next_seq s + 1\<rparr>) (sessions sv i) else sessions sv j)"
  by (simp add: send_envelope_def frame_simps sessions_upd split: option.split)

lemma greeted_session:
  assumes "sessions sv i = Some s"
  obtains n where "sessions (greeted w r i u sv) i = Some (s\<lparr>s_user := u, s_state := Established, s_next_seq := n\<rparr>)"
  by (rule that [of "s_next_seq s + (if motd sv \<noteq> [] then 2 else 1)"])
     (simp add: assms frame_simps greeted_def Let_def sessions_send_envelope set_state_def sessions_upd)

lemma greeted_registry_ok:
  assumes "registry_ok sv" "by_session sv i = None"
  shows "registry_ok (greeted w r i u sv)" "by_session (greeted w r i u sv) i = None"
  using assms
  by (simp_all add: greeted_def Let_def set_state_def frame_simps upd_unregistered)

lemma auth_success_registry_ok [inv_intros]:
  assumes "registry_ok sv" "state_of_session i sv = Auth_Pending"
  shows "registry_ok (auth_success w r i u sv)"
proof -
  obtain s where "sessions sv i = Some s" using assms(2) state_present [of i sv] by auto
  from this obtain n where s': "sessions (greeted w r i u sv) i =
      Some (s\<lparr>s_user := u, s_state := Established, s_next_seq := n\<rparr>)"
    by (rule greeted_session)
  have "by_session sv i = None" using assms by (intro unregistered) (simp_all add: less_session_state_def)
  note g = greeted_registry_ok [OF assms(1) this, of w r u]
  have "registry_ok (on_session_authenticated w r i (greeted w r i u sv))"
    using on_session_authenticated_registry [OF g(1) s' _ g(2)] by simp
  then have "registry_ok (upd_session i (\<lambda>s. s\<lparr>s_limiter := l\<rparr>)
      (start_ping_timer i (on_session_authenticated w r i (greeted w r i u sv))))" for l
    by (intro upd_registered) simp_all
  then show ?thesis by (simp add: auth_success_eq Let_def split: prod.split)
qed

lemma auth_success_stores [inv_intros]:
  assumes ok: "stores_ok sv"
  shows "stores_ok (auth_success w r i u sv)"
proof -
  have reg: "stores (on_session_authenticated w r i sv') = stores sv'" for sv'
    by (simp add: stores_def on_session_authenticated_def register_session_def snapshot_eq disconnect_def Let_def
        split: option.split)
  have greet: "stores (greeted w r i u sv) = stores sv" by (simp add: greeted_def Let_def)
  have "stores_ok (on_session_authenticated w r i (greeted w r i u sv))"
    by (rule stores_ok_same [OF ok]) (simp add: reg greet)
  then have pre: "stores_ok (upd_session i (\<lambda>s. s\<lparr>s_limiter := l\<rparr>)
      (start_ping_timer i (on_session_authenticated w r i (greeted w r i u sv))))" (is "stores_ok (?sv l)") for l
    by simp
  have "stores_ok ((?sv l)\<lparr>offline_store := db\<rparr>)"
    if "fetch_and_delete f t u (offline_store (?sv l)) = (msgs, db)" for l f t msgs db
    using ids_ok_fetch [OF stores_okE(2) [OF pre], of f t u l] that by (intro stores_ok_upd pre) simp
  then show ?thesis by (simp add: auth_success_eq Let_def split: prod.split)
qed

lemma handle_auth_response_ok [inv_intros]:
  "registry_ok sv \<Longrightarrow> state_of_session i sv = Auth_Pending \<Longrightarrow> registry_ok (state_of (handle_auth_response w r i auth sv))"
  "stores_ok sv \<Longrightarrow> stores_ok (state_of (handle_auth_response w r i auth sv))"
proof -
  have st: "state_of_session i (sv\<lparr>user_store := db\<rparr>) = state_of_session i sv" for db
    by (simp add: state_of_session_def)
  assume "registry_ok sv" "state_of_session i sv = Auth_Pending"
  then show "registry_ok (state_of (handle_auth_response w r i auth sv))"
    by (auto simp: handle_auth_response_def Let_def st intro!: auth_success_registry_ok
        split: prod.split account_result.split)
next
  assume ok: "stores_ok sv"
  have "stores_ok (sv\<lparr>user_store := db\<rparr>)" if "auth_account w r auth (user_store sv) = (res, db)" for res db
    using auth_account_keys_ok [OF stores_okE(1) [OF ok], of w r auth] that ok by (intro stores_ok_upd) simp_all
  with ok show "stores_ok (state_of (handle_auth_response w r i auth sv))"
    by (auto simp: handle_auth_response_def Let_def intro!: auth_success_stores
        split: prod.split account_result.split)
qed

lemma handle_hello_ok [inv_intros]:
  "registry_ok sv \<Longrightarrow> state_of_session i sv = Hello \<Longrightarrow> registry_ok (handle_hello w r i h sv)"
  "stores_ok sv \<Longrightarrow> stores_ok (handle_hello w r i h sv)"
proof -
  assume "registry_ok sv" "state_of_session i sv = Hello"
  moreover from this have "by_session sv i = None" by (intro unregistered) (simp_all add: less_session_state_def)
  ultimately show "registry_ok (handle_hello w r i h sv)"
    by (simp add: handle_hello_def Let_def set_state_def upd_unregistered frame_simps)
qed (simp add: handle_hello_def Let_def)

section \<open>Every event\<close>

lemma allowed_ok:
  "registry_ok sv \<Longrightarrow> msg_allowed r i sv = (b, sv') \<Longrightarrow> registry_ok sv'"
  "stores_ok sv \<Longrightarrow> msg_allowed r i sv = (b, sv') \<Longrightarrow> stores_ok sv'"
  using msg_allowed_same [of r i sv] by (auto simp: registry_ok_iff elim: stores_ok_same)

lemma registry_ok_handlers [simp]:
  "registry_ok (handle_ping w r i env sv) = registry_ok sv" "registry_ok (handle_chat w r i chat env sv) = registry_ok sv"
  "registry_ok (handle_voice_signal w r i vs env sv) = registry_ok sv"
  "registry_ok (handle_voice_room_join w r i c sv) = registry_ok sv"
  "registry_ok (handle_voice_room_leave w i c sv) = registry_ok sv"
  "registry_ok (state_of (handle_key_upload r i ku sv)) = registry_ok sv"
  "registry_ok (handle_key_request w r i u sv) = registry_ok sv"
  "registry_ok (session_command w r i cmd sv) = registry_ok sv"
  "registry_ok (handle_file_request w r i req sv) = registry_ok sv"
  "registry_ok (handle_file_upload w r i chunk sv) = registry_ok sv"
  "registry_ok (handle_file_download w r i dl sv) = registry_ok sv"
  by (simp_all add: registry_ok_iff)

lemma handle_envelope_registry [inv_intros]:
  assumes ok: "registry_ok sv"
  shows "registry_ok (state_of (handle_envelope w r i env sv))"
proof -
  have pong: "registry_ok (upd_session i (\<lambda>s. s\<lparr>s_ping_sent := False\<rparr>) (reset_ping_timer i sv))"
    using ok by (intro upd_registered) simp_all
  show ?thesis
  proof (cases "env_type env")
    case MT_HELLO
    with ok show ?thesis by (simp add: handle_envelope_def Let_def handle_hello_ok split: option.split)
  next
    case MT_AUTH_RESPONSE
    with ok show ?thesis by (simp add: handle_envelope_def Let_def handle_auth_response_ok split: option.split)
  next
    case MT_CHAT_ENVELOPE
    with ok show ?thesis
      by (auto simp: handle_envelope_def Let_def dest: allowed_ok split: option.split prod.split bool.split)
  next
    case MT_VOICE_SIGNAL
    with ok show ?thesis
      by (auto simp: handle_envelope_def Let_def dest: allowed_ok split: option.split prod.split bool.split)
  qed (use ok pong in \<open>auto simp: handle_envelope_def Let_def split: option.split\<close>)
qed

lemma handle_envelope_stores [inv_intros]:
  assumes ok: "stores_ok sv"
  shows "stores_ok (state_of (handle_envelope w r i env sv))"
proof (cases "env_type env")
  case MT_CHAT_ENVELOPE
  with ok show ?thesis
    by (auto simp: handle_envelope_def Let_def intro: handle_chat_stores dest: allowed_ok
        split: option.split prod.split bool.split)
next
  case MT_VOICE_SIGNAL
  have "stores_ok sv1 \<Longrightarrow> stores_ok (handle_voice_signal w r i vs env sv1)" for vs sv1
    by (rule stores_ok_same) simp_all
  with MT_VOICE_SIGNAL ok show ?thesis
    by (auto simp: handle_envelope_def Let_def dest: allowed_ok split: option.split prod.split bool.split)
next
  case MT_PING
  with ok show ?thesis by (auto simp: handle_envelope_def Let_def elim: stores_ok_same)
next
  case MT_FILE_DOWNLOAD
  with ok show ?thesis by (auto simp: handle_envelope_def Let_def elim: stores_ok_same split: option.split)
next
  case MT_HELLO
  with ok show ?thesis by (simp add: handle_envelope_def Let_def handle_hello_ok split: option.split)
next
  case MT_AUTH_RESPONSE
  with ok show ?thesis by (simp add: handle_envelope_def Let_def handle_auth_response_ok split: option.split)
qed (use ok in \<open>auto simp: handle_envelope_def Let_def intro: inv_intros split: option.split\<close>)

lemma disconnected_stores [inv_intros]:
  assumes ok: "stores_ok sv"
  shows "stores_ok (on_session_disconnected w r i sv)"
proof -
  have voice: "voice_ok (voice_rooms (on_session_disconnected w r i sv))"
  proof -
    have "voice_ok (snd (voice_disconnect u (voice_rooms sv)))" for u
      using stores_okE(4) [OF ok] by (rule voice_disconnect_ok)
    then have "voice_ok v" if "voice_disconnect u (voice_rooms sv) = (ns, v)" for u ns v
      using that by (metis snd_conv)
    then show ?thesis using stores_okE(4) [OF ok]
      by (auto simp: on_session_disconnected_def unregister_def broadcast_presence_def broadcast_eq
          send_notices_eq Let_def split: option.split prod.split)
  qed
  have "stores (on_session_disconnected w r i sv) =
      stores (sv\<lparr>voice_rooms := voice_rooms (on_session_disconnected w r i sv)\<rparr>)"
    by (simp add: stores_def frame_simps)
  with voice ok show ?thesis by (metis stores_ok_same stores_ok_upd(4))
qed

lemma on_frame_received_ok [inv_intros]:
  "registry_ok sv \<Longrightarrow> registry_ok (on_frame_received w r i data sv)"
  "stores_ok sv \<Longrightarrow> stores_ok (on_frame_received w r i data sv)"
  by (simp_all add: on_frame_received_def handle_envelope_registry handle_envelope_stores split: option.split)

lemma on_read_ok [inv_intros]:
  "registry_ok sv \<Longrightarrow> registry_ok (on_read w r i res sv)" "stores_ok sv \<Longrightarrow> stores_ok (on_read w r i res sv)"
  by (simp_all add: on_read_def Let_def on_frame_received_ok on_session_disconnected_registry disconnected_stores
      split: read_result.split)

lemma on_handshake_ok [inv_intros]:
  "registry_ok sv \<Longrightarrow> state_of_session i sv = Handshake \<Longrightarrow> registry_ok (on_handshake w r i ok sv)"
  "stores_ok sv \<Longrightarrow> stores_ok (on_handshake w r i ok sv)"
proof -
  assume "registry_ok sv" "state_of_session i sv = Handshake"
  moreover from this have "by_session sv i = None" by (intro unregistered) (simp_all add: less_session_state_def)
  ultimately show "registry_ok (on_handshake w r i ok sv)"
    by (simp add: on_handshake_def Let_def set_state_def upd_unregistered on_session_disconnected_registry
        set_reading_def frame_simps)
qed (simp add: on_handshake_def Let_def disconnected_stores)

lemma on_ping_timer_ok [inv_intros]:
  "registry_ok sv \<Longrightarrow> registry_ok (on_ping_timer w r i sv)" "stores_ok sv \<Longrightarrow> stores_ok (on_ping_timer w r i sv)"
  by (simp_all add: on_ping_timer_def Let_def upd_registered on_session_disconnected_registry disconnected_stores
      split: option.split ping_timer.split)

lemma run_disconnect_ok [inv_intros]:
  "registry_ok sv \<Longrightarrow> registry_ok (run_disconnect i sv)" "stores_ok sv \<Longrightarrow> stores_ok (run_disconnect i sv)"
proof -
  assume "registry_ok sv"
  then have "registry_ok (upd_session i (\<lambda>s. s\<lparr>s_state := Dead, s_timer := No_Timer\<rparr>) sv)"
    by (intro upd_registered) simp_all
  then show "registry_ok (run_disconnect i sv)" by (simp add: run_disconnect_def registry_ok_iff)
qed (simp add: run_disconnect_def)

end
