(* ===== verification/Server_Config.thy ===== *)
theory Server_Config
  imports Prelude
begin

text \<open>
  The configuration record of \<open>src/config.hpp\<close> with its defaults and the checks of
  \<open>ConfigLoader::validate\<close>, and the reading of numbers in text that the configuration, the admin commands
  and the directory client share.
\<close>

section \<open>Configuration\<close>

record server_config =
  cf_host :: string
  cf_port :: "16 word"
  cf_log_level :: string
  cf_max_connections :: int
  cf_headless :: bool
  cf_tls_cert_file :: string
  cf_tls_key_file :: string
  cf_db_path :: string
  cf_max_message_bytes :: nat
  cf_ping_interval_sec :: int
  cf_ping_timeout_sec :: int
  cf_msg_rate_per_sec :: int
  cf_conn_rate_per_min :: int
  cf_commands_per_min :: int
  cf_joins_per_min :: int
  cf_abuse_threshold :: int
  cf_abuse_window_min :: int
  cf_ban_duration_min :: int
  cf_file_encryption_key :: string
  cf_clamav_socket :: string
  cf_clamav_host :: string
  cf_clamav_port :: "16 word"
  cf_motd :: string
  cf_is_public :: bool
  cf_directory_enabled :: bool
  cf_directory_url :: string
  cf_directory_ping_interval_sec :: int
  cf_server_name :: string
  cf_server_description :: string
  cf_http_api_enabled :: bool
  cf_http_api_port :: "16 word"
  cf_http_api_bind :: string
  cf_http_api_keys :: "string list"
  cf_http_api_cors :: bool
  cf_http_api_rate_limit :: bool
  cf_http_api_rate_limit_requests :: int
  cf_admin_enabled :: bool
  cf_admin_key_file :: string
  cf_admin_auto_join :: "string list"
  cf_admin_additional_reserved :: "string list"
  cf_admin_tui_socket :: string

definition default_config :: server_config where
  "default_config =
    \<lparr>cf_host = ''0.0.0.0'', cf_port = 6697, cf_log_level = ''info'', cf_max_connections = 100,
     cf_headless = False, cf_tls_cert_file = [], cf_tls_key_file = [], cf_db_path = ''./ircord.db'',
     cf_max_message_bytes = 65536, cf_ping_interval_sec = 30, cf_ping_timeout_sec = 60,
     cf_msg_rate_per_sec = 20, cf_conn_rate_per_min = 10, cf_commands_per_min = 30, cf_joins_per_min = 5,
     cf_abuse_threshold = 5, cf_abuse_window_min = 10, cf_ban_duration_min = 30,
     cf_file_encryption_key = [], cf_clamav_socket = [], cf_clamav_host = ''127.0.0.1'', cf_clamav_port = 0,
     cf_motd = [], cf_is_public = False, cf_directory_enabled = False,
     cf_directory_url = ''https://directory.ircord.dev'', cf_directory_ping_interval_sec = 300,
     cf_server_name = [], cf_server_description = [], cf_http_api_enabled = False, cf_http_api_port = 8080,
     cf_http_api_bind = ''127.0.0.1'', cf_http_api_keys = [], cf_http_api_cors = True,
     cf_http_api_rate_limit = True, cf_http_api_rate_limit_requests = 60, cf_admin_enabled = True,
     cf_admin_key_file = ''./keys/admin.ed25519'', cf_admin_auto_join = [], cf_admin_additional_reserved = [],
     cf_admin_tui_socket = ''/run/ircord/admin.sock''\<rparr>"

text \<open>\<open>ConfigLoader::validate\<close>: the message of the exception, if it throws.\<close>

definition validate_config :: "server_config \<Rightarrow> string option" where
  "validate_config cf =
     (if cf_host cf = [] then Some ''Invalid config: host cannot be empty''
      else if cf_port cf = 0 then Some ''Invalid config: port cannot be zero''
      else if cf_tls_cert_file cf = [] then Some ''Invalid config: tls.cert_file cannot be empty''
      else if cf_tls_key_file cf = [] then Some ''Invalid config: tls.key_file cannot be empty''
      else if cf_max_message_bytes cf = 0 \<or> cf_max_message_bytes cf > 1024 * 1024
      then Some ''Invalid config: max_message_bytes must be between 1 and 1MB''
      else if cf_ping_interval_sec cf \<le> 0 \<or> cf_ping_interval_sec cf > 300
      then Some ''Invalid config: ping_interval_sec must be between 1 and 300''
      else if cf_ping_timeout_sec cf \<le> 0 \<or> cf_ping_timeout_sec cf > 600
      then Some ''Invalid config: ping_timeout_sec must be between 1 and 600''
      else None)"

section \<open>Numbers in text\<close>

text \<open>\<open>std::stoi\<close>: white space, a sign, digits; it throws without digits or out of range.\<close>

definition stoi :: "string \<Rightarrow> int option" where
  "stoi s =
     (let s = dropWhile is_space s;
          (neg, s) = (if s \<noteq> [] \<and> hd s = CHR ''-'' then (True, tl s)
                      else if s \<noteq> [] \<and> hd s = CHR ''+'' then (False, tl s) else (False, s));
          ds = takeWhile is_digit s;
          v = (if neg then - int (digits_val ds) else int (digits_val ds))
      in if ds = [] \<or> v < - (2 ^ 31) \<or> v \<ge> 2 ^ 31 then None else Some v)"

lemma is_digit_digit_char: "d < 10 \<Longrightarrow> is_digit (digit_char d)"
  by (simp add: is_digit_code of_char_digit_char)

lemma show_nat_all_digits: "show_nat n \<noteq> [] \<and> list_all is_digit (show_nat n)"
proof (induction n rule: show_nat.induct)
  case (1 n)
  show ?case
  proof (cases "n < 10")
    case True
    then have "show_nat n = [digit_char n]" by (subst show_nat.simps) simp
    with True show ?thesis by (simp add: is_digit_digit_char)
  next
    case False
    then have "show_nat n = show_nat (n div 10) @ [digit_char (n mod 10)]" by (subst show_nat.simps) simp
    with 1 [OF False] show ?thesis by (simp add: is_digit_digit_char)
  qed
qed

lemmas show_nat_digits = show_nat_all_digits [THEN conjunct1] show_nat_all_digits [THEN conjunct2]

lemma digit_not_other: "is_digit c \<Longrightarrow> \<not> is_space c" "is_digit c \<Longrightarrow> c \<noteq> CHR ''-''" "is_digit c \<Longrightarrow> c \<noteq> CHR ''+''"
  by (auto simp: ctype_simps char_le_iff)

lemma stoi_digits:
  assumes "s \<noteq> []" "list_all is_digit s"
  shows "int (digits_val s) < 2 ^ 31 \<Longrightarrow> stoi s = Some (int (digits_val s))"
    and "int (digits_val s) \<le> 2 ^ 31 \<Longrightarrow> stoi (CHR ''-'' # s) = Some (- int (digits_val s))"
proof -
  obtain c t where s: "s = c # t" using assms(1) by (cases s) auto
  have ds: "takeWhile is_digit s = s" using assms(2) by (simp add: takeWhile_eq_all_conv list_all_iff)
  have c: "\<not> is_space c" "c \<noteq> CHR ''-''" "c \<noteq> CHR ''+''" using assms(2) digit_not_other by (simp_all add: s)
  have "\<not> is_space (CHR ''-'')" by (simp add: ctype_simps)
  then show "stoi (CHR ''-'' # s) = Some (- int (digits_val s))" if "int (digits_val s) \<le> 2 ^ 31"
    using assms(1) that by (simp add: stoi_def Let_def ds)
  have "dropWhile is_space s = s" using c(1) by (simp add: s)
  moreover have "(if s \<noteq> [] \<and> hd s = CHR ''-'' then (True, tl s)
      else if s \<noteq> [] \<and> hd s = CHR ''+'' then (False, tl s) else (False, s)) = (False, s)"
    using c(2,3) by (simp add: s)
  ultimately show "stoi s = Some (int (digits_val s))" if "int (digits_val s) < 2 ^ 31"
    using assms(1) that unfolding stoi_def by (simp add: Let_def ds)
qed

text \<open>
  \<open>std::stoi\<close> reads back every \<open>int\<close> as \<open>std::to_string\<close> prints it.
\<close>

theorem stoi_roundtrip:
  assumes "- (2 ^ 31) \<le> i" "i < 2 ^ 31"
  shows "stoi (show_int i) = Some i"
  using assms stoi_digits [OF show_nat_digits] by (auto simp: show_int_def)

theorem stoi_roundtrip_witness: "stoi (show_int (-42)) = Some (-42)"
  by (rule stoi_roundtrip) simp_all

end
