(* ===== verification/Server_Control.thy ===== *)
theory Server_Control
  imports Session_Safety Server_Config
begin

text \<open>
  \<open>src/server.cpp\<close>: how the server is put together from its configuration and the stored tables, the
  hourly cleanup, and the commands of the admin socket.
\<close>

section \<open>Construction and run\<close>

text \<open>
  The constructor, with the tables the database holds: encryption and the scanner as configured, the
  listener with its limits.
\<close>

definition new_server :: "server_config \<Rightarrow> user_db \<Rightarrow> offline_db \<Rightarrow> file_db \<Rightarrow> server" where
  "new_server cf udb odb fdb =
     (let fdb = (if cf_file_encryption_key cf \<noteq> [] then init_encryption (cf_file_encryption_key cf) fdb
                 else fdb);
          m = (if cf_clamav_socket cf \<noteq> [] then snd (initialize_scanner (Unix_Scanner (cf_clamav_socket cf)) new_scanner_manager)
               else if cf_clamav_port cf > 0
               then snd (initialize_scanner (Tcp_Scanner (cf_clamav_host cf) (cf_clamav_port cf)) new_scanner_manager)
               else new_scanner_manager);
          sv = initial_server\<lparr>user_store := udb, offline_store := odb, file_store := fdb, scanner := m\<rparr>;
          sv = set_ping_intervals (cf_ping_interval_sec cf) (cf_ping_timeout_sec cf) sv;
          sv = set_rate_limits (cf_msg_rate_per_sec cf) (cf_conn_rate_per_min cf) sv;
          sv = set_max_connections (cf_max_connections cf) sv
      in set_motd (cf_motd cf) sv)"

definition start_server :: "server_config \<Rightarrow> user_db \<Rightarrow> offline_db \<Rightarrow> file_db \<Rightarrow> server" where
  "start_server cf udb odb fdb = run_listener (new_server cf udb odb fdb)"

text \<open>The handler of the hourly timer.\<close>

definition run_cleanup :: "readings \<Rightarrow> server \<Rightarrow> server" where
  "run_cleanup r sv =
     sv\<lparr>offline_store := snd (cleanup_expired (db_fails r 0) (unix_time r) (offline_store sv)),
        file_store := snd (cleanup_expired_files (db_fails r 1) (unix_time r) (file_store sv))\<rparr>"

section \<open>The admin socket\<close>

datatype admin_data =
    No_Data
  | User_Data string
  | Config_Data string string
  | Status_Data int int
  | Users_Data "(user_id \<times> string) list"
  | Message_Data string

datatype admin_reply =
    Admin_Ok string admin_data
  | Admin_Failed string string
  | Admin_Threw

text \<open>
  One command with its string parameters.  The result tells the reply, whether a shutdown was posted,
  and the new state; \<open>started\<close> is the time the server started.
\<close>

definition param :: "(string \<rightharpoonup> string) \<Rightarrow> string \<Rightarrow> string \<Rightarrow> string" where
  "param ps k dflt = (case ps k of None \<Rightarrow> dflt | Some v \<Rightarrow> v)"

definition admin_set_config :: "string \<Rightarrow> string \<Rightarrow> server \<Rightarrow> admin_reply \<times> server" where
  "admin_set_config key value sv =
     (let done_reply = Admin_Ok ''set_config'' (Config_Data key value)
      in if key = ''max_connections''
         then (case stoi value of None \<Rightarrow> (Admin_Threw, sv) | Some v \<Rightarrow> (done_reply, set_max_connections v sv))
         else if key = ''msg_rate_per_sec''
         then (case stoi value of None \<Rightarrow> (Admin_Threw, sv) | Some v \<Rightarrow> (done_reply, set_rate_limits v (-1) sv))
         else if key = ''motd'' then (done_reply, set_motd value sv)
         else (Admin_Failed ''set_config'' (''Unknown key: '' @ key), sv))"

definition handle_admin_command ::
  "world \<Rightarrow> readings \<Rightarrow> time \<Rightarrow> string \<Rightarrow> (string \<rightharpoonup> string) \<Rightarrow> server \<Rightarrow> admin_reply \<times> bool \<times> server"
where
  "handle_admin_command w r started command ps sv =
     (if command = ''kick''
      then
        let u = param ps ''user_id'' []
        in if u = [] then (Admin_Failed ''kick'' ''Invalid user_id or no listener'', False, sv)
           else case find_session u sv of
                  Some i \<Rightarrow> (Admin_Ok ''kick'' (User_Data u), False, disconnect i sv)
                | None \<Rightarrow> (Admin_Failed ''kick'' (''User not found: '' @ u), False, sv)
      else if command = ''ban''
      then
        let u = param ps ''user_id'' []
        in if u = [] then (Admin_Failed ''ban'' ''Invalid user_id or no listener'', False, sv)
           else (Admin_Ok ''ban'' (User_Data u), False,
                 case find_session u sv of Some i \<Rightarrow> disconnect i sv | None \<Rightarrow> sv)
      else if command = ''set_config''
      then (case admin_set_config (param ps ''key'' []) (param ps ''value'' []) sv of
              (reply, sv) \<Rightarrow> (reply, False, sv))
      else if command = ''subscribe'' then (Admin_Ok ''subscribe'' No_Data, False, sv)
      else if command = ''status''
      then (Admin_Ok ''status'' (Status_Data ((steady r - started) div 1000000000) (active_connections sv)), False, sv)
      else if command = ''users'' then (Admin_Ok ''users'' (Users_Data (get_online_users w sv)), False, sv)
      else if command = ''shutdown'' then (Admin_Ok ''shutdown'' (Message_Data ''Shutting down...''), True, sv)
      else if command = ''restart'' then (Admin_Ok ''restart'' (Message_Data ''Restarting...''), True, sv)
      else if command = ''update'' then (Admin_Failed ''update'' ''Update not yet implemented server-side'', False, sv)
      else (Admin_Failed command (''Unknown command: '' @ command), False, sv))"

section \<open>The start and the controls keep the invariants\<close>

lemma start_server_ok:
  assumes "keys_ok udb" "ids_ok odb" "files_ok fdb"
  shows "registry_ok (start_server cf udb odb fdb)" "stores_ok (start_server cf udb odb fdb)"
proof -
  note unfold = start_server_def new_server_def run_listener_def set_ping_intervals_def set_rate_limits_def
    set_max_connections_def set_motd_def initial_server_def Let_def
  show "registry_ok (start_server cf udb odb fdb)" by (simp add: registry_ok_def unfold)
  show "stores_ok (start_server cf udb odb fdb)"
    using assms
    by (simp add: stores_ok_def unfold init_encryption_ok empty_voice_ok channels_ok_def nicks_ok_def channel_of_def
        empty_commands_def)
qed

lemma run_cleanup_ok [inv_intros]:
  "registry_ok sv \<Longrightarrow> registry_ok (run_cleanup r sv)" "stores_ok sv \<Longrightarrow> stores_ok (run_cleanup r sv)"
proof -
  show "registry_ok sv \<Longrightarrow> registry_ok (run_cleanup r sv)" by (simp add: run_cleanup_def registry_ok_def)
  assume ok: "stores_ok sv"
  have "files_ok (snd (cleanup_expired_files f now fdb))" if "files_ok fdb" for f now fdb
    using that by (simp add: cleanup_expired_files_def delete_files_ok)
  with ok have "stores_ok (sv\<lparr>offline_store := snd (cleanup_expired (db_fails r 0) (unix_time r) (offline_store sv)),
      file_store := snd (cleanup_expired_files (db_fails r 1) (unix_time r) (file_store sv))\<rparr>)"
    by (intro stores_ok_upd ids_ok_cleanup) (simp_all add: stores_okE)
  then show "stores_ok (run_cleanup r sv)" by (simp add: run_cleanup_def)
qed

text \<open>An admin command closes a session or sets a limit.\<close>

inductive admin_change :: "server \<Rightarrow> server \<Rightarrow> bool" where
  same: "admin_change sv sv"
| closes: "admin_change sv (disconnect i sv)"
| capped: "admin_change sv (set_max_connections v sv)"
| rated: "admin_change sv (set_rate_limits v (-1) sv)"
| worded: "admin_change sv (set_motd m sv)"

lemma admin_set_config_change: "admin_set_config k v sv = (reply, sv') \<Longrightarrow> admin_change sv sv'"
  by (auto simp: admin_set_config_def Let_def intro: admin_change.intros split: option.splits if_splits)

lemma admin_states: "admin_change sv (snd (snd (handle_admin_command w r t c ps sv)))"
proof (cases "c = ''set_config''")
  case True
  then show ?thesis by (auto simp: handle_admin_command_def dest: admin_set_config_change split: prod.split)
next
  case False
  then show ?thesis by (simp add: handle_admin_command_def Let_def admin_change.intros split: option.split)
qed

lemma admin_ok [inv_intros]:
  "registry_ok sv \<Longrightarrow> registry_ok (snd (snd (handle_admin_command w r t c ps sv)))"
  "stores_ok sv \<Longrightarrow> stores_ok (snd (snd (handle_admin_command w r t c ps sv)))"
proof -
  have limits: "registry_ok (set_max_connections v sv) = registry_ok sv" "registry_ok (set_rate_limits v u sv) = registry_ok sv"
    "registry_ok (set_motd m sv) = registry_ok sv" for v u m
    by (simp_all add: registry_ok_def set_max_connections_def set_rate_limits_def set_motd_def)
  have st: "stores (set_max_connections v sv) = stores sv" "stores (set_rate_limits v u sv) = stores sv"
    "stores (set_motd m sv) = stores sv" for v u m
    by (simp_all add: stores_def set_max_connections_def set_rate_limits_def set_motd_def)
  show "registry_ok sv \<Longrightarrow> registry_ok (snd (snd (handle_admin_command w r t c ps sv)))"
    using admin_states [of sv w r t c ps] by cases (simp_all add: limits)
  show "stores_ok sv \<Longrightarrow> stores_ok (snd (snd (handle_admin_command w r t c ps sv)))"
    using admin_states [of sv w r t c ps] by cases (simp_all add: stores_ok_same st)
qed

section \<open>Correctness\<close>

text \<open>
  The admin command that sets the message rate also sets the connection rate to -1, and a connection
  from an address that was not seen before is then refused, at any time.
\<close>

theorem rate_change_refuses_newcomers:
  assumes "stoi value = Some v" "ip_limiters sv ip = None"
  shows "let sv' = snd (snd (handle_admin_command w r t ''set_config''
            [''key'' \<mapsto> ''msg_rate_per_sec'', ''value'' \<mapsto> value] sv))
    in msg_rate_per_sec sv' = v \<and> fst (do_accept r' ip ep sv') = None"
proof -
  have "allow now (new_rate_limiter (-1) (minutes 1) now) \<noteq> (True, rl)" for now rl
    using negative_limiter_refuses [of "new_rate_limiter (-1) (minutes 1) now" now] by (auto simp: new_rate_limiter_def)
  then show ?thesis using assms
    by (auto simp: handle_admin_command_def admin_set_config_def param_def set_rate_limits_def do_accept_def
        Let_def split: prod.splits bool.splits)
qed

theorem rate_change_refuses_newcomers_witness:
  "fst (do_accept demo_readings ''10.0.0.1'' ''h'' (snd (snd (handle_admin_command demo_world demo_readings 0 ''set_config''
     [''key'' \<mapsto> ''msg_rate_per_sec'', ''value'' \<mapsto> ''50''] demo_server)))) = None"
proof -
  have "stoi ''50'' = Some 50" by (simp add: stoi_def Let_def ctype_simps digits_val_def)
  moreover have "ip_limiters demo_server ''10.0.0.1'' = None" by (simp add: demo_server_def initial_server_def)
  ultimately show ?thesis
    using rate_change_refuses_newcomers [of "''50''" 50 demo_server "''10.0.0.1''"] by (simp add: Let_def)
qed

text \<open>The admin's ban of an online user is exactly the kick: nothing remembers it.\<close>

lemma admin_ban_is_a_kick:
  assumes "find_session u sv \<noteq> None" "u \<noteq> []"
  shows "snd (snd (handle_admin_command w r t ''ban'' [''user_id'' \<mapsto> u] sv)) =
    snd (snd (handle_admin_command w r t ''kick'' [''user_id'' \<mapsto> u] sv))"
  using assms by (auto simp: handle_admin_command_def param_def Let_def)

end
