(* ===== verification/Sending.thy ===== *)
theory Sending
  imports Session_Safety
begin

text \<open>
  What the handlers send, and to whom: everything a step adds to the list of writes satisfies a predicate
  when the handler's calls of \<open>send\<close> do.  Used with the predicates "to this session" and "made by the
  server".
\<close>

section \<open>Tracking the writes\<close>

named_theorems sends_intros

definition sends :: "(session_id \<Rightarrow> envelope \<Rightarrow> bool) \<Rightarrow> server \<Rightarrow> server \<Rightarrow> bool" where
  "sends P sv sv' \<longleftrightarrow> (\<exists>xs. sent sv' = sent sv @ xs \<and> (\<forall>(j, e) \<in> set xs. P j e))"

lemma sends_refl [sends_intros]: "sends P sv sv"
  by (simp add: sends_def)

lemma sends_same: "sends P sv0 sv \<Longrightarrow> sent sv' = sent sv \<Longrightarrow> sends P sv0 sv'"
  by (simp add: sends_def)

lemma sends_append:
  assumes "sends P sv0 sv" "sent sv' = sent sv @ ys" "\<forall>(j, e) \<in> set ys. P j e"
  shows "sends P sv0 sv'"
proof -
  obtain xs where "sent sv = sent sv0 @ xs" "\<forall>(j, e) \<in> set xs. P j e" using assms(1) by (auto simp: sends_def)
  with assms(2,3) show ?thesis unfolding sends_def by (intro exI [of _ "xs @ ys"]) auto
qed

lemma sends_trans: "sends P a b \<Longrightarrow> sends P b c \<Longrightarrow> sends P a c"
  by (auto simp: sends_def)

lemma sends_mono: "sends P a b \<Longrightarrow> (\<And>j e. P j e \<Longrightarrow> Q j e) \<Longrightarrow> sends Q a b"
  unfolding sends_def by blast

text \<open>What sends nothing.\<close>

lemma sent_unchanged [simp]:
  "sent (upd_session i f sv) = sent sv" "sent (disconnect i sv) = sent sv"
  "sent (set_upload i fid st sv) = sent sv" "sent (reset_ping_timer i sv) = sent sv"
  "sent (start_ping_timer i sv) = sent sv" "sent (set_state s i sv) = sent sv"
  "sent (set_reading b i sv) = sent sv" "sent (next_read i sv) = sent sv"
  "sent (register_session i sv) = sent sv" "sent (unregister i u sv) = sent sv"
  "sent (set_channel c x sv) = sent sv" "sent (set_limits u l sv) = sent sv" "sent (set_abuse u a sv) = sent sv"
  "sent (upd_commands g sv) = sent sv" "sent (part_channel c u sv) = sent sv"
  by (simp_all add: frame_simps disconnect_def set_upload_def reset_ping_timer_def start_ping_timer_def set_state_def
      set_reading_def next_read_def register_session_def unregister_def set_channel_def set_limits_def set_abuse_def
      upd_commands_def part_channel_def Let_def split: option.split)

lemma sent_gates [simp]:
  "sent (snd (is_abuser now u sv)) = sent sv" "sent (snd (track_abuse now u sv)) = sent sv"
  "sent (snd (allow_command now u sv)) = sent sv" "sent (snd (allow_join now u sv)) = sent sv"
  "sent (snd (msg_allowed r i sv)) = sent sv" "sent (snd (save_offline r c u p sv)) = sent sv"
  "sent (admitted r i sv) = sent sv"
  by (simp_all add: is_abuser_def track_abuse_def allow_command_def allow_join_def msg_allowed_def save_offline_def
      admitted_def Let_def split: option.split prod.split)

lemma sends_quiet [simp]:
  "sends P sv0 (upd_session i f sv) = sends P sv0 sv" "sends P sv0 (disconnect i sv) = sends P sv0 sv"
  "sends P sv0 (set_upload i fid st sv) = sends P sv0 sv" "sends P sv0 (set_state s i sv) = sends P sv0 sv"
  "sends P sv0 (start_ping_timer i sv) = sends P sv0 sv" "sends P sv0 (reset_ping_timer i sv) = sends P sv0 sv"
  "sends P sv0 (set_reading b i sv) = sends P sv0 sv" "sends P sv0 (next_read i sv) = sends P sv0 sv"
  "sends P sv0 (register_session i sv) = sends P sv0 sv" "sends P sv0 (unregister i u sv) = sends P sv0 sv"
  "sends P sv0 (set_channel c x sv) = sends P sv0 sv" "sends P sv0 (upd_commands g sv) = sends P sv0 sv"
  "sends P sv0 (sv\<lparr>user_store := udb\<rparr>) = sends P sv0 sv" "sends P sv0 (sv\<lparr>offline_store := odb\<rparr>) = sends P sv0 sv"
  "sends P sv0 (sv\<lparr>file_store := fdb\<rparr>) = sends P sv0 sv" "sends P sv0 (sv\<lparr>voice_rooms := v\<rparr>) = sends P sv0 sv"
  "sends P sv0 (sv\<lparr>scanner := sm\<rparr>) = sends P sv0 sv"
  "sends P sv0 (sv\<lparr>active_connections := n\<rparr>) = sends P sv0 sv"
  by (simp_all add: sends_def)

text \<open>What sends: one rule for each primitive, to be applied from the outside in.\<close>

lemma sends_env [sends_intros]: "P i e \<Longrightarrow> sends P sv0 sv \<Longrightarrow> sends P sv0 (send_env i e sv)"
  by (rule sends_append [where ys = "[(i, e)]"]) (simp_all add: send_env_def)

lemma sends_envelope [sends_intros]:
  assumes "\<And>e. env_type e = t \<Longrightarrow> P i e" "sends P sv0 sv"
  shows "sends P sv0 (send_envelope w r i t m sv)"
proof (cases "sessions sv i")
  case None
  with assms(2) show ?thesis by (simp add: send_envelope_def)
next
  case (Some s)
  then show ?thesis
    by (intro sends_append [OF assms(2), where ys = "[(i, \<lparr>env_seq = s_next_seq s, env_timestamp_ms = now_ms r,
          env_type = t, env_payload = ser (codec w) m\<rparr>)]"])
       (simp_all add: send_envelope_def send_env_def frame_simps assms(1))
qed

lemma sends_error [sends_intros]:
  assumes "\<And>e. env_type e = MT_ERROR \<Longrightarrow> P i e" "sends P sv0 sv"
  shows "sends P sv0 (send_error w r i code msg sv)" "sends P sv0 (auth_error w r i code msg sv)"
proof -
  show "sends P sv0 (send_error w r i code msg sv)" unfolding send_error_def using assms by (rule sends_envelope)
  then show "sends P sv0 (auth_error w r i code msg sv)" by (rule sends_same) (simp add: auth_error_def)
qed

lemma sends_auth_fail [sends_intros]:
  assumes "\<And>e. env_type e = MT_AUTH_FAIL \<Longrightarrow> P i e" "sends P sv0 sv"
  shows "sends P sv0 (auth_fail w r i code msg sv)"
  by (rule sends_same [OF sends_envelope [OF assms]]) (simp_all add: auth_fail_def)

lemma sends_file_error [sends_intros]:
  assumes "\<And>e. env_type e = MT_FILE_ERROR \<Longrightarrow> P i e" "sends P sv0 sv"
  shows "sends P sv0 (send_file_error w r i fid code msg sv)"
  unfolding send_file_error_def using assms by (rule sends_envelope)

lemma sends_broadcast [sends_intros]:
  assumes "\<And>j. Some j \<noteq> ex \<Longrightarrow> j \<in> (\<lambda>u. the (by_user sv u)) ` set (order w (dom (by_user sv))) \<Longrightarrow> P j env"
    and "sends P sv0 sv"
  shows "sends P sv0 (broadcast w env ex sv)"
  by (rule sends_append [OF assms(2)]) (auto simp: broadcast_eq broadcast_targets_def intro!: assms(1))

lemma sends_presence [sends_intros]:
  assumes "\<And>j e. env_type e = MT_PRESENCE \<Longrightarrow> P j e" "sends P sv0 sv"
  shows "sends P sv0 (broadcast_presence w r u st ex sv)"
  unfolding broadcast_presence_def
  by (rule sends_broadcast) (simp_all add: assms presence_envelope_def)

lemma sends_snapshot [sends_intros]:
  assumes "\<And>e. env_type e = MT_PRESENCE \<Longrightarrow> P i e" "sends P sv0 sv"
  shows "sends P sv0 (send_presence_snapshot w r i us sv)"
  by (rule sends_append [OF assms(2)]) (auto simp: snapshot_eq presence_envelope_def assms(1))

lemma sends_notices [sends_intros]:
  assumes "\<And>j e u t m. (u, t, m) \<in> set ns \<Longrightarrow> env_type e = t \<Longrightarrow> P j e" "sends P sv0 sv"
  shows "sends P sv0 (send_notices w ns sv)"
  by (rule sends_append [OF assms(2)])
     (auto simp: send_notices_eq notice_sends_def plain_envelope_def split: option.splits, erule assms(1), simp)

lemma sends_online [sends_intros]:
  assumes "\<And>j. P j e" "sends P sv0 sv"
  shows "sends P sv0 (send_to_online e us sv)"
  by (rule sends_append [OF assms(2)]) (auto simp: send_to_online_eq online_sends_def assms(1) split: option.splits)

lemma sends_offline_messages [sends_intros]:
  assumes "\<And>e. P i e" "sends P sv0 sv"
  shows "sends P sv0 (send_offline w i ps sv)"
  using assms(2)
proof (induction ps arbitrary: sv)
  case (Cons p ps)
  then show ?case by (cases "parse_envelope (codec w) p") (simp_all add: assms(1) sends_env)
qed simp

lemma sends_deliver [sends_intros]:
  assumes "\<And>j. P j e" "sends P sv0 sv"
  shows "sends P sv0 (deliver_to_members w r c e ex us sv)"
  using assms(2)
proof (induction us arbitrary: sv)
  case (Cons u us)
  have "sends P sv0 (snd (save_offline r c u p sv))" for p using Cons.prems by (rule sends_same) simp
  with Cons show ?case by (simp add: assms(1) sends_env split: option.split)
qed simp

section \<open>What the server makes\<close>

text \<open>The envelopes that carry a client's message to another are those of these two types.\<close>

definition server_made :: "envelope \<Rightarrow> bool" where
  "server_made e \<longleftrightarrow> env_type e \<noteq> MT_CHAT_ENVELOPE \<and> env_type e \<noteq> MT_VOICE_SIGNAL"

lemma server_made_plain [simp]:
  "server_made (response_envelope w resp)" "server_made (plain_envelope MT_NICK_CHANGE p)"
  "env_type (response_envelope w resp) = MT_COMMAND_RESPONSE" "env_type (plain_envelope t p) = t"
  by (simp_all add: server_made_def response_envelope_def plain_envelope_def)

lemma notice_types:
  "(p, t, m) \<in> set (fst (voice_disconnect u v)) \<Longrightarrow> t = MT_VOICE_ROOM_LEAVE"
  "(p, t, m) \<in> set (fst (voice_leave c u v)) \<Longrightarrow> t = MT_VOICE_ROOM_LEAVE"
  "(p, t, m) \<in> set (fst (snd (voice_join c u v))) \<Longrightarrow>
     t = MT_VOICE_ROOM_LEAVE \<or> t = MT_VOICE_ROOM_JOIN \<or> t = MT_VOICE_ROOM_STATE"
  by (auto simp: voice_disconnect_def voice_leave_def voice_join_def auto_leave_def leave_notices_def Let_def
      split: option.splits if_splits)

text \<open>
  A policy on writes that lets the server's own envelopes through, to anybody; the presence updates, which
  only a login and a disconnection send, are the second part of it.
\<close>

locale talk_policy =
  fixes P :: "session_id \<Rightarrow> envelope \<Rightarrow> bool"
  assumes own: "server_made e \<Longrightarrow> env_type e \<noteq> MT_PRESENCE \<Longrightarrow> P j e"
begin

lemma talks:
  "env_type e = t \<Longrightarrow> t \<noteq> MT_CHAT_ENVELOPE \<Longrightarrow> t \<noteq> MT_VOICE_SIGNAL \<Longrightarrow> t \<noteq> MT_PRESENCE \<Longrightarrow> P j e"
  by (rule own) (simp_all add: server_made_def)

lemma user_lists:
  "sends P sv0 sv \<Longrightarrow> sends P sv0 (broadcast_user_list w c sv)"
  "sends P sv0 sv \<Longrightarrow> sends P sv0 (send_user_list w c i sv)"
  by (auto simp: broadcast_user_list_def send_user_list_def intro!: sends_intros own split: option.split)

lemma quits: "sends P sv0 sv \<Longrightarrow> sends P sv0 (quit_channels w u reason cs sv)"
proof (induction cs arbitrary: sv)
  case (Cons c cs)
  have "sends P sv0 (part_channel c u sv)" using Cons.prems by (rule sends_same) simp
  then have "sends P sv0 (broadcast_user_list w c (part_channel c u sv))" by (rule user_lists)
  then have "sends P sv0 (quit_channels w u reason cs (broadcast_user_list w c (part_channel c u sv)))"
    by (rule Cons.IH)
  then show ?case by (simp add: quit_channels_def notify_channel_part_def)
qed (simp add: quit_channels_def)

lemma announces:
  assumes "sends P sv0 sv" and made: "\<And>j. P j e"
  shows "sends P sv0 (announce_nick w r u e cs sv)"
  using assms(1)
proof (induction cs arbitrary: sv)
  case (Cons c cs)
  have "sends P sv0 (broadcast_to_channel w r c e None sv)"
    using Cons.prems by (auto simp: broadcast_to_channel_def intro!: sends_intros made split: option.split)
  with Cons show ?case by simp
qed simp

lemma join_sends: "sends P sv (snd (cmd_join w r args i sv))"
proof -
  have "sent sv1 = sent sv" if "allow_join now u sv = (b, sv1)" for b sv1 now u
    using sent_gates(4) [of now u sv] that by simp
  then have "sends P sv (set_channel c x (set_channel c y sv1))" "sends P sv (set_channel c x sv1)" "sends P sv sv1"
    "sends P sv (snd (track_abuse now u sv1))"
    if "allow_join now' u' sv = (b, sv1)" for b sv1 now u now' u' c x y
    using that by (simp_all add: sends_same [OF sends_refl])
  then show ?thesis
    by (auto simp: cmd_join_def get_or_create_eq notify_channel_join_def Let_def sends_refl
        intro!: user_lists split: prod.split bool.split)
qed

lemma nick_sends: "sends P sv (snd (cmd_nick w r args i sv))"
  by (auto simp: cmd_nick_def Let_def sends_refl own intro!: announces intro: sends_same [OF sends_refl])

lemma quit_sends: "sends P sv (snd (cmd_quit w args i sv))"
proof -
  have "sends P sv (quit_channels w u reason cs sv)" for u reason cs by (intro quits sends_refl)
  then show ?thesis by (simp add: cmd_quit_def Let_def)
qed

lemma channel_sends:
  "sends P sv (snd (cmd_part w args i sv))" "sends P sv (snd (cmd_topic w args i sv))"
  "sends P sv (snd (cmd_kick w args i sv))" "sends P sv (snd (cmd_ban w args i sv))"
  "sends P sv (snd (cmd_invite w args i sv))" "sends P sv (snd (cmd_set args i sv))"
  "sends P sv (snd (cmd_mode args i sv))"
proof -
  have same: "sends P sv (set_channel c x sv)" for c x by (simp add: sends_same [OF sends_refl])
  note unfold = notify_channel_part_def notify_channel_join_def Let_def sends_refl own same
  note rules = sends_online user_lists
  show "sends P sv (snd (cmd_part w args i sv))" by (auto simp: cmd_part_def unfold intro!: rules split: option.split)
  show "sends P sv (snd (cmd_topic w args i sv))" by (auto simp: cmd_topic_def unfold intro!: rules split: option.split)
  show "sends P sv (snd (cmd_kick w args i sv))"
    by (auto simp: cmd_kick_def unfold simp del: send_to_online.simps intro!: rules split: option.split)
  show "sends P sv (snd (cmd_ban w args i sv))" by (auto simp: cmd_ban_def unfold intro!: rules split: option.split)
  show "sends P sv (snd (cmd_invite w args i sv))"
    by (auto simp: cmd_invite_def unfold simp del: send_to_online.simps intro!: rules split: option.split)
  show "sends P sv (snd (cmd_set args i sv))" by (auto simp: cmd_set_def unfold split: option.split)
  show "sends P sv (snd (cmd_mode args i sv))" by (auto simp: cmd_mode_def unfold split: option.split)
qed

lemma account_sends: "sends P sv (snd (cmd_password w r args i sv))" "sends P sv (snd (cmd_resetdb r i sv))"
  by (auto simp: cmd_password_def cmd_resetdb_def Let_def intro!: sends_same [OF sends_refl]
      split: prod.split bool.split outcome.split)

lemma command_sends: "sends P sv (snd (handle_command w r cmd i sv))"
proof (cases rule: handle_command_states [of w r cmd i sv])
  case (5 res)
  let ?sv = "admitted r i sv"
  from 5(1) have "sends P ?sv (snd res)"
    by (cases rule: run_command_states)
       (simp_all add: sends_refl join_sends nick_sends quit_sends channel_sends account_sends)
  moreover have "sends P sv ?sv" by (rule sends_same [OF sends_refl]) simp
  ultimately show ?thesis using sends_trans 5(2) by blast
qed (simp_all add: sends_refl sends_same [OF sends_refl])

lemma voice_room_sends:
  "sends P sv (handle_voice_room_join w r i c sv)" "sends P sv (handle_voice_room_leave w i c sv)"
proof -
  have made: "P j e"
    if "voice_join c u v = (err, ns, v')" "(p, env_type e, m) \<in> set ns" for c u v err ns v' p m j e
    using notice_types(3) [of p "env_type e" m c u v] that by (auto intro: talks)
  show "sends P sv (handle_voice_room_join w r i c sv)"
    by (auto simp: handle_voice_room_join_def Let_def sends_refl intro!: sends_error sends_notices
        intro: made talks split: prod.split)
  have left: "P j e" if "voice_leave c u v = (ns, v')" "(p, env_type e, m) \<in> set ns" for c u v ns v' p m j e
    using notice_types(2) [of p "env_type e" m c u v] that by (simp add: talks)
  show "sends P sv (handle_voice_room_leave w i c sv)"
    by (auto simp: handle_voice_room_leave_def sends_refl intro!: sends_notices intro: left split: prod.split)
qed

lemma key_sends:
  "sends P sv (state_of (handle_key_upload r i ku sv))" "sends P sv (handle_key_request w r i u sv)"
  by (auto simp: handle_key_upload_def handle_key_request_def Let_def sends_refl intro!: sends_error sends_envelope
      intro: talks split: outcome.split option.split prod.split)

lemma session_command_sends: "sends P sv (session_command w r i cmd sv)"
proof -
  have "sends P sv sv1" if "handle_command w r cmd i sv = (resp, sv1)" for resp sv1
    using command_sends [of sv w r cmd i] that by simp
  then show ?thesis
    by (auto simp: session_command_def sends_refl own intro!: sends_error sends_env intro: talks split: prod.split)
qed

lemma download_sends: "sends P sv0 sv \<Longrightarrow> sends P sv0 (download_loop w r i fid n k ks sv)"
proof (induction ks arbitrary: sv)
  case (Cons k' ks)
  show ?case
    by (auto simp: Let_def intro!: Cons.IH sends_file_error sends_envelope Cons.prems intro: talks split: option.split)
qed simp

lemma file_sends:
  "sends P sv (handle_file_request w r i req sv)" "sends P sv (handle_file_upload w r i chunk sv)"
  "sends P sv (handle_file_download w r i dl sv)"
proof -
  show "sends P sv (handle_file_request w r i req sv)"
    by (auto simp: handle_file_request_def Let_def sends_refl intro!: sends_file_error sends_envelope
        intro: talks split: prod.split bool.split)
  have finish: "sends P sv0 (finish_upload w r i fid st sv')" if "sends P sv0 sv'" for sv0 sv' fid st
    using that by (auto simp: finish_upload_def Let_def intro!: sends_file_error sends_envelope
        intro: talks split: prod.split)
  have allowed: "sends P sv sv1" if "msg_allowed r i sv = (b, sv1)" for b sv1
    using sent_gates(5) [of r i sv] that sends_same [OF sends_refl] by simp
  then show "sends P sv (handle_file_upload w r i chunk sv)"
    by (auto simp: handle_file_upload_def Let_def intro!: finish sends_file_error sends_envelope
        intro: talks split: prod.split bool.split option.split)
  show "sends P sv (handle_file_download w r i dl sv)"
    by (auto simp: handle_file_download_def Let_def sends_refl intro!: download_sends sends_file_error
        intro: talks split: option.split)
qed

end

locale delivery_policy = talk_policy +
  assumes presence: "env_type e = MT_PRESENCE \<Longrightarrow> P j e"
begin

lemma typed: "env_type e = t \<Longrightarrow> t \<noteq> MT_CHAT_ENVELOPE \<Longrightarrow> t \<noteq> MT_VOICE_SIGNAL \<Longrightarrow> P j e"
  using talks presence by blast

lemma disconnected_sends: "sends P sv0 sv \<Longrightarrow> sends P sv0 (on_session_disconnected w r i sv)"
proof -
  have leave: "P j e" if "voice_disconnect u v = (ns, v')" "(p, env_type e, m) \<in> set ns" for u v ns v' p m j e
    using notice_types(1) [of p "env_type e" m u v] that by (simp add: typed)
  assume "sends P sv0 sv"
  then show ?thesis
    by (auto simp: on_session_disconnected_def Let_def intro!: sends_presence sends_notices
        intro: leave typed split: option.split prod.split)
qed

end

section \<open>Messages between clients\<close>

text \<open>
  A message of session \<open>i\<close> that is genuine for session \<open>j\<close>: it names the user of \<open>i\<close> as its sender, and
  \<open>j\<close> is who it is for, or registered and another when it is for a channel.
\<close>

definition genuine_chat :: "world \<Rightarrow> server \<Rightarrow> session_id \<Rightarrow> envelope \<Rightarrow> session_id \<Rightarrow> bool" where
  "genuine_chat w sv i env j \<longleftrightarrow> (case parse_payload (parse_chat (codec w)) env of
     None \<Rightarrow> False
   | Some chat \<Rightarrow> ch_sender_id chat = session_user i sv \<and>
       (if is_channel_recipient (ch_recipient_id chat) then j \<noteq> i \<and> (\<exists>u. find_session u sv = Some j)
        else find_session (ch_recipient_id chat) sv = Some j))"

definition genuine_signal :: "world \<Rightarrow> server \<Rightarrow> session_id \<Rightarrow> envelope \<Rightarrow> session_id \<Rightarrow> bool" where
  "genuine_signal w sv i env j \<longleftrightarrow> (case parse_payload (parse_voice_signal (codec w)) env of
     None \<Rightarrow> False
   | Some vs \<Rightarrow> vs_from_user vs = session_user i sv \<and> find_session (vs_to_user vs) sv = Some j)"

definition genuine :: "world \<Rightarrow> server \<Rightarrow> session_id \<Rightarrow> envelope \<Rightarrow> session_id \<Rightarrow> bool" where
  "genuine w sv i env j \<longleftrightarrow>
     env_type env = MT_CHAT_ENVELOPE \<and> genuine_chat w sv i env j \<or>
     env_type env = MT_VOICE_SIGNAL \<and> genuine_signal w sv i env j"

definition relayed :: "world \<Rightarrow> server \<Rightarrow> session_id \<Rightarrow> envelope \<Rightarrow> session_id \<Rightarrow> envelope \<Rightarrow> bool" where
  "relayed w sv i env j e \<longleftrightarrow> server_made e \<or> e = env \<and> genuine w sv i env j"

interpretation own: delivery_policy "\<lambda>j. server_made"
  by unfold_locales (simp_all add: server_made_def)

interpretation relay: delivery_policy "relayed w sv i env" for w sv i env
  by unfold_locales (simp_all add: relayed_def server_made_def)

lemma genuine_cong:
  assumes "registry sv1 = registry sv"
  shows "relayed w sv1 i env = relayed w sv i env"
proof -
  have "session_user i sv1 = session_user i sv"
    using registry_eqD(4) [OF assms, of i] by (auto simp: session_user_def split: option.splits)
  moreover have "find_session u sv1 = find_session u sv" for u
    using registry_eqD(2) [OF assms] by (simp add: find_session_def)
  ultimately show ?thesis
    by (intro ext) (simp add: relayed_def genuine_def genuine_chat_def genuine_signal_def split: option.split)
qed

lemma targets_registered:
  assumes "world_ok w" "registry_ok sv" "j \<in> (\<lambda>u. the (by_user sv u)) ` set (order w (dom (by_user sv)))"
  shows "\<exists>u. find_session u sv = Some j"
  using assms(3) order_dom [OF assms(1,2)] by (auto simp: find_session_def)

lemma chat_relays:
  assumes w: "world_ok w" "registry_ok sv" and env: "env_type env = MT_CHAT_ENVELOPE"
    and chat: "parse_payload (parse_chat (codec w)) env = Some chat"
  shows "sends (relayed w sv i env) sv (handle_chat w r i chat env sv)"
proof -
  let ?P = "relayed w sv i env"
  have err: "sends ?P sv (send_error w r i code msg sv')" if "sends ?P sv sv'" for code msg sv'
    using that by (auto intro!: sends_error intro: relay.typed)
  have saved: "sends ?P sv sv1" if "save_offline r c u p sv = (b, sv1)" for c u p b sv1
    using sent_gates(6) [of r c u p sv] that sends_same [OF sends_refl] by simp
  have direct: "?P j env" if "ch_sender_id chat = session_user i sv" "\<not> is_channel_recipient (ch_recipient_id chat)"
      "find_session (ch_recipient_id chat) sv = Some j" for j
    using that by (simp add: relayed_def genuine_def genuine_chat_def env chat)
  have channel: "sends ?P sv (broadcast w env (Some i) sv)"
    if "ch_sender_id chat = session_user i sv" "is_channel_recipient (ch_recipient_id chat)"
    using that targets_registered [OF w]
    by (intro sends_broadcast sends_refl) (auto simp: relayed_def genuine_def genuine_chat_def env chat)
  show ?thesis
    by (auto simp: handle_chat_def sends_refl err saved channel direct intro!: sends_env
        split: option.split prod.split bool.split)
qed

lemma signal_relays:
  assumes env: "env_type env = MT_VOICE_SIGNAL"
    and vs: "parse_payload (parse_voice_signal (codec w)) env = Some vs"
  shows "sends (relayed w sv i env) sv (handle_voice_signal w r i vs env sv)"
proof -
  let ?P = "relayed w sv i env"
  have err: "sends ?P sv (send_error w r i code msg sv)" "sends ?P sv (send_envelope w r i MT_ERROR m sv)" for code msg m
    by (auto intro!: sends_error sends_envelope sends_refl intro: relay.typed)
  have direct: "?P j env" if "vs_from_user vs = session_user i sv" "find_session (vs_to_user vs) sv = Some j" for j
    using that by (simp add: relayed_def genuine_def genuine_signal_def env vs)
  show ?thesis
    by (auto simp: handle_voice_signal_def sends_refl err direct intro!: sends_env split: option.split)
qed

text \<open>A login sends the mailbox to the session that logs in; everything else it sends is the server's.\<close>

definition own_or_to :: "session_id \<Rightarrow> session_id \<Rightarrow> envelope \<Rightarrow> bool" where
  "own_or_to i j e \<longleftrightarrow> server_made e \<or> j = i"

interpretation login: delivery_policy "own_or_to i" for i
  by unfold_locales (simp_all add: own_or_to_def server_made_def)

lemma auth_success_sends: "sends (own_or_to i) sv (auth_success w r i u sv)"
proof -
  let ?P = "own_or_to i"
  have greet: "sends ?P sv (greeted w r i u sv)"
    by (auto simp: greeted_def Let_def sends_refl intro!: sends_envelope intro: login.typed)
  have "sends ?P sv (on_session_authenticated w r i (greeted w r i u sv))"
    unfolding on_session_authenticated_def Let_def
    by (intro sends_snapshot) (simp_all add: greet own_or_to_def)
  then have "sends ?P sv (upd_session i f (start_ping_timer i (on_session_authenticated w r i (greeted w r i u sv))))" for f
    by simp
  then show ?thesis
    unfolding auth_success_eq Let_def
    by (auto intro!: sends_presence sends_offline_messages intro: login.typed simp: own_or_to_def split: prod.split)
qed

lemma auth_sends:
  "sends (own_or_to i) sv (state_of (handle_auth_response w r i auth sv))"
  "sends (own_or_to i) sv (handle_hello w r i h sv)"
proof -
  have own: "own_or_to i i e" for e by (simp add: own_or_to_def)
  have "sends (own_or_to i) sv (auth_success w r i u (sv\<lparr>user_store := db\<rparr>))" for u db
    using auth_success_sends [of i "sv\<lparr>user_store := db\<rparr>"] by (simp add: sends_def)
  then show "sends (own_or_to i) sv (state_of (handle_auth_response w r i auth sv))"
    by (auto simp: handle_auth_response_def Let_def own sends_refl intro!: sends_error sends_auth_fail
        split: prod.split account_result.split)
  show "sends (own_or_to i) sv (handle_hello w r i h sv)"
    by (auto simp: handle_hello_def Let_def own sends_refl intro!: sends_error sends_envelope)
qed

text \<open>What one envelope of session \<open>i\<close> makes the server write.\<close>

definition allowed_write ::
  "world \<Rightarrow> server \<Rightarrow> session_id \<Rightarrow> envelope \<Rightarrow> session_id \<Rightarrow> envelope \<Rightarrow> bool"
where
  "allowed_write w sv i env j e \<longleftrightarrow> server_made e \<or>
     (state_of_session i sv = Auth_Pending \<and> env_type env = MT_AUTH_RESPONSE \<and> j = i) \<or>
     (state_of_session i sv = Established \<and> e = env \<and> genuine w sv i env j)"

interpretation permit: delivery_policy "allowed_write w sv i env" for w sv i env
  by unfold_locales (simp_all add: allowed_write_def server_made_def)

lemma relayed_allowed:
  assumes "state_of_session i sv = Established" "registry sv1 = registry sv" "sent sv1 = sent sv"
    "sends (relayed w sv1 i env) sv1 sv'"
  shows "sends (allowed_write w sv i env) sv sv'"
proof -
  have "sends (relayed w sv i env) sv sv'"
    using assms(3,4) unfolding genuine_cong [OF assms(2)] by (simp add: sends_def)
  then show ?thesis by (rule sends_mono) (use assms(1) in \<open>auto simp: relayed_def allowed_write_def\<close>)
qed

lemma envelope_writes:
  assumes w: "world_ok w" and reg: "registry_ok sv"
  shows "sends (allowed_write w sv i env) sv (state_of (handle_envelope w r i env sv))"
proof -
  let ?P = "allowed_write w sv i env"
  have err: "sends ?P sv (send_error w r i code msg sv')" if "sends ?P sv sv'" for code msg sv'
    using that by (auto intro!: sends_error intro: permit.typed)
  have autherr: "sends ?P sv (auth_error w r i code msg sv)" for code msg
    by (auto intro!: sends_error sends_refl intro: permit.typed)
  have allowed: "sends ?P sv sv1" "registry sv1 = registry sv" "sent sv1 = sent sv"
    if "msg_allowed r i sv = (b, sv1)" for b sv1
    using sent_gates(5) [of r i sv] msg_allowed_same(1) [of r i sv] that sends_same [OF sends_refl] by simp_all
  show ?thesis
  proof (cases "env_type env")
    case MT_AUTH_RESPONSE
    have "sends ?P sv (state_of (handle_auth_response w r i auth sv))" if "state_of_session i sv = Auth_Pending" for auth
      by (rule sends_mono [OF auth_sends(1)]) (use that MT_AUTH_RESPONSE in \<open>auto simp: own_or_to_def allowed_write_def\<close>)
    with MT_AUTH_RESPONSE show ?thesis
      by (auto simp: handle_envelope_def Let_def sends_refl autherr split: option.split)
  next
    case MT_HELLO
    have "sends ?P sv (handle_hello w r i h sv)" for h
      by (auto simp: handle_hello_def Let_def sends_refl intro!: sends_error sends_envelope intro: permit.typed)
    with MT_HELLO show ?thesis
      by (auto simp: handle_envelope_def Let_def sends_refl autherr split: option.split)
  next
    case MT_CHAT_ENVELOPE
    have "sends ?P sv (handle_chat w r i chat env sv1)"
      if "msg_allowed r i sv = (b, sv1)" "parse_payload (parse_chat (codec w)) env = Some chat"
        "state_of_session i sv = Established" for b sv1 chat
    proof (rule relayed_allowed [OF that(3) allowed(2,3) [OF that(1)]])
      have "registry_ok sv1" using reg allowed(2) [OF that(1)] by (simp add: registry_ok_iff)
      then show "sends (relayed w sv1 i env) sv1 (handle_chat w r i chat env sv1)"
        using w MT_CHAT_ENVELOPE that(2) by (intro chat_relays)
    qed
    with MT_CHAT_ENVELOPE show ?thesis
      by (auto simp: handle_envelope_def Let_def sends_refl intro!: err dest: allowed
          split: option.split prod.split bool.split)
  next
    case MT_VOICE_SIGNAL
    have "sends ?P sv (handle_voice_signal w r i vs env sv1)"
      if "msg_allowed r i sv = (b, sv1)" "parse_payload (parse_voice_signal (codec w)) env = Some vs"
        "state_of_session i sv = Established" for b sv1 vs
      by (rule relayed_allowed [OF that(3) allowed(2,3) [OF that(1)]])
         (use MT_VOICE_SIGNAL that(2) in \<open>intro signal_relays\<close>)
    with MT_VOICE_SIGNAL show ?thesis
      by (auto simp: handle_envelope_def Let_def sends_refl intro!: err dest: allowed
          split: option.split prod.split bool.split)
  next
    case MT_PING
    then show ?thesis
      by (auto simp: handle_envelope_def handle_ping_def Let_def sends_refl intro!: sends_env
          intro: permit.typed split: option.split)
  qed (auto simp: handle_envelope_def Let_def sends_refl err permit.voice_room_sends permit.key_sends
        permit.session_command_sends permit.file_sends split: option.split)
qed

end
