(* ===== verification/System.thy ===== *)
theory System
  imports Server_Control Sending
begin

text \<open>
  The server as a machine: one step per handler that the I/O threads run, whatever their order, from any
  start.  What holds in every reachable state, how a session advances, and what one client's frame can
  reach.
\<close>

section \<open>Events and steps\<close>

datatype event =
    Accept string string
  | Handshake_Done session_id bool
  | Read_Done session_id read_result
  | Write_Failed session_id
  | Ping_Fires session_id
  | Close_Runs session_id
  | Signal bool
  | Shutdown
  | Cleanup_Due
  | Admin string "string \<rightharpoonup> string"

definition outstanding :: "session_id \<Rightarrow> server \<Rightarrow> bool" where
  "outstanding i sv = (case sessions sv i of None \<Rightarrow> False | Some s \<Rightarrow> s_reading s)"

definition timer_set :: "session_id \<Rightarrow> server \<Rightarrow> bool" where
  "timer_set i sv = (case sessions sv i of None \<Rightarrow> False | Some s \<Rightarrow> s_timer s \<noteq> No_Timer)"

text \<open>
  A handler runs when its operation was started and completed: the handshake and the reads one at a
  time, a write that was started, a timer that is set, a closure that was posted.
\<close>

inductive server_step :: "world \<Rightarrow> server \<Rightarrow> readings \<Rightarrow> event \<Rightarrow> server \<Rightarrow> bool" for w where
  accept: "\<not> shutting_down sv \<Longrightarrow> server_step w sv r (Accept ip ep) (snd (do_accept r ip ep sv))"
| handshake: "outstanding i sv \<Longrightarrow> state_of_session i sv = Handshake \<Longrightarrow>
    server_step w sv r (Handshake_Done i ok) (on_handshake w r i ok sv)"
| read: "outstanding i sv \<Longrightarrow> state_of_session i sv \<noteq> Handshake \<Longrightarrow>
    server_step w sv r (Read_Done i res) (on_read w r i res sv)"
| write_failed: "(i, env) \<in> set (sent sv) \<Longrightarrow>
    server_step w sv r (Write_Failed i) (on_write_error w r i sv)"
| ping: "timer_set i sv \<Longrightarrow> server_step w sv r (Ping_Fires i) (on_ping_timer w r i sv)"
| closes: "i \<in> closing sv \<Longrightarrow> server_step w sv r (Close_Runs i) (run_disconnect i sv)"
| signal: "server_step w sv r (Signal err) (on_signal err sv)"
| shutdown: "server_step w sv r Shutdown (shutdown sv)"
| cleanup: "server_step w sv r Cleanup_Due (run_cleanup r sv)"
| admin: "server_step w sv r (Admin c ps) (snd (snd (handle_admin_command w r started c ps sv)))"

inductive_cases step_cases: "server_step w sv r e sv'"
inductive_cases read_stepE: "server_step w sv r (Read_Done i res) sv'"

text \<open>The states the server can be in, started with any tables the database may hold.\<close>

inductive reachable :: "world \<Rightarrow> server \<Rightarrow> bool" for w where
  start: "keys_ok udb \<Longrightarrow> ids_ok odb \<Longrightarrow> files_ok fdb \<Longrightarrow> reachable w (start_server cf udb odb fdb)"
| step: "reachable w sv \<Longrightarrow> server_step w sv r e sv' \<Longrightarrow> reachable w sv'"

section \<open>The invariants\<close>

lemma step_registry: "registry_ok sv \<Longrightarrow> server_step w sv r e sv' \<Longrightarrow> registry_ok sv'"
  by (erule step_cases)
     (simp_all add: inv_intros on_write_error_def on_signal_def)

lemma do_accept_stores: "stores (snd (do_accept r ip ep sv)) = stores sv"
  by (simp add: do_accept_def stores_def Let_def split: prod.split bool.split)

lemma shutdown_stores: "stores (shutdown sv) = stores sv"
  by (simp add: shutdown_def stores_def)

lemma step_stores: "stores_ok sv \<Longrightarrow> server_step w sv r e sv' \<Longrightarrow> stores_ok sv'"
  by (erule step_cases)
     (simp_all add: inv_intros on_write_error_def on_signal_def stores_ok_same do_accept_stores shutdown_stores)

lemma reachable_registry: "reachable w sv \<Longrightarrow> registry_ok sv"
  by (induction rule: reachable.induct) (simp_all add: start_server_ok step_registry)

lemma reachable_stores: "reachable w sv \<Longrightarrow> stores_ok sv"
  by (induction rule: reachable.induct) (simp_all add: start_server_ok step_stores)

section \<open>How a session advances\<close>

definition session_view :: "server \<Rightarrow> session_id \<Rightarrow> (session_state \<times> user_id) option" where
  "session_view sv i = map_option (\<lambda>s. (s_state s, s_user s)) (sessions sv i)"

lemma view_state: "state_of_session i sv = (case session_view sv i of None \<Rightarrow> Dead | Some (st, u) \<Rightarrow> st)"
  by (simp add: session_view_def state_of_session_def split: option.split)

lemma view_user: "session_user i sv = (case session_view sv i of None \<Rightarrow> [] | Some (st, u) \<Rightarrow> u)"
  by (simp add: session_view_def session_user_def split: option.split)

lemma view_of_registry: "registry sv' = registry sv \<Longrightarrow> session_view sv' = session_view sv"
  by (simp add: registry_def session_view_def fun_eq_iff)

lemma view_upd_session:
  "session_view (upd_session i f sv) j =
     (if j = i then map_option (\<lambda>s. (s_state (f s), s_user (f s))) (sessions sv i) else session_view sv j)"
  by (simp add: session_view_def sessions_upd option.map_comp comp_def)

lemma view_set_state:
  "session_view (set_state st i sv) j =
     (if j = i then map_option (\<lambda>(_, u). (st, u)) (session_view sv i) else session_view sv j)"
  by (simp add: set_state_def view_upd_session) (simp add: session_view_def option.map_comp comp_def)

text \<open>What a client has to show to be let in.\<close>

definition login_ok :: "world \<Rightarrow> session_id \<Rightarrow> auth_response \<Rightarrow> server \<Rightarrow> bool" where
  "login_ok w i auth sv \<longleftrightarrow>
     is_valid_user_id (ar_user_id auth) \<and> is_nickname_available w (ar_user_id auth) [] sv \<and>
     length (ar_identity_pub auth) = 32 \<and> length (ar_signature auth) = 64 \<and>
     verify_signature w (ar_signature auth) (auth_message (session_nonce i sv) (ar_user_id auth))
       (ar_identity_pub auth)"

text \<open>
  The protocol, as one session sees it: the specification of what any handler may do to the state and
  the user of a session.
\<close>

inductive protocol ::
  "world \<Rightarrow> server \<Rightarrow> readings \<Rightarrow> event \<Rightarrow> session_id \<Rightarrow>
   (session_state \<times> user_id) option \<Rightarrow> (session_state \<times> user_id) option \<Rightarrow> bool"
  for w sv r where
  stays: "protocol w sv r e i v v"
| connects: "protocol w sv r (Accept ip ep) i None (Some (Handshake, []))"
| handshakes: "protocol w sv r (Handshake_Done i True) i (Some (Handshake, u)) (Some (Hello, u))"
| greets: "parse_envelope (codec w) data = Some env \<Longrightarrow> env_type env = MT_HELLO \<Longrightarrow>
    protocol w sv r (Read_Done i (Frame data)) i (Some (Hello, u)) (Some (Auth_Pending, u))"
| logs_in: "parse_envelope (codec w) data = Some env \<Longrightarrow> env_type env = MT_AUTH_RESPONSE \<Longrightarrow>
    parse_payload (parse_auth (codec w)) env = Some auth \<Longrightarrow> login_ok w i auth sv \<Longrightarrow>
    fst (auth_account w r auth (user_store sv)) = Account_Ok \<Longrightarrow>
    protocol w sv r (Read_Done i (Frame data)) i (Some (Auth_Pending, u)) (Some (Established, ar_user_id auth))"
| dies: "protocol w sv r (Close_Runs i) i (Some (st, u)) (Some (Dead, u))"

inductive_cases protocolE: "protocol w sv r e i v v'"

lemma on_session_authenticated_view:
  "session_view (on_session_authenticated w r i sv) = session_view sv"
  "by_user (on_session_authenticated w r i sv) = (by_user sv)(session_user i sv \<mapsto> i)"
  by (auto simp: on_session_authenticated_def register_session_def snapshot_eq disconnect_def session_view_def
      fun_eq_iff Let_def split: option.split)

lemma greeted_view:
  "session_view (greeted w r i u sv) j =
     (if j = i then map_option (\<lambda>_. (Established, u)) (session_view sv i) else session_view sv j)"
  "by_user (greeted w r i u sv) = by_user sv"
proof -
  let ?sv = "set_state Established i (send_envelope w r i MT_AUTH_OK Empty (upd_session i (\<lambda>s. s\<lparr>s_user := u\<rparr>) sv))"
  have same: "session_view (send_envelope w r i t m sv') = session_view sv'" for t m sv'
    by (rule view_of_registry) simp
  have "session_view (greeted w r i u sv) = session_view ?sv" by (simp add: greeted_def Let_def same)
  then show "session_view (greeted w r i u sv) j =
     (if j = i then map_option (\<lambda>_. (Established, u)) (session_view sv i) else session_view sv j)"
    by (simp add: view_set_state same view_upd_session) (simp add: session_view_def option.map_comp comp_def)
  show "by_user (greeted w r i u sv) = by_user sv"
    by (simp add: greeted_def Let_def set_state_def frame_simps)
qed

lemma auth_success_view:
  assumes "session_view sv i \<noteq> None"
  shows "session_view (auth_success w r i u sv) j =
      (if j = i then Some (Established, u) else session_view sv j)"
    and "by_user (auth_success w r i u sv) = (by_user sv)(u \<mapsto> i)"
proof -
  let ?sv = "on_session_authenticated w r i (greeted w r i u sv)"
  have reg: "registry (auth_success w r i u sv) = registry ?sv"
    by (simp add: auth_success_eq Let_def split: prod.split)
  have user: "session_user i (greeted w r i u sv) = u"
    using assms by (auto simp: view_user greeted_view)
  show "session_view (auth_success w r i u sv) j =
      (if j = i then Some (Established, u) else session_view sv j)"
    "by_user (auth_success w r i u sv) = (by_user sv)(u \<mapsto> i)"
    using assms
    by (auto simp: view_of_registry [OF reg] registry_eqD(2) [OF reg] on_session_authenticated_view greeted_view user)
qed

lemma view_user_store: "session_view (sv\<lparr>user_store := db\<rparr>) = session_view sv"
  by (rule view_of_registry) simp

text \<open>The three ways a frame can change the registry: not, by a greeting, by a login.\<close>

lemma auth_response_cases:
  obtains "registry (state_of (handle_auth_response w r i auth sv)) = registry sv"
  | db where "login_ok w i auth sv" "auth_account w r auth (user_store sv) = (Account_Ok, db)"
      "state_of (handle_auth_response w r i auth sv) =
        auth_success w r i (ar_user_id auth) (sv\<lparr>user_store := db\<rparr>)"
proof -
  obtain res db where a: "auth_account w r auth (user_store sv) = (res, db)" by fastforce
  show ?thesis
  proof (cases "login_ok w i auth sv \<and> res = Account_Ok")
    case True
    then have "auth_account w r auth (user_store sv) = (Account_Ok, db)" using a by simp
    with True show ?thesis
      by (intro that(2)) (auto simp: handle_auth_response_def login_ok_def Let_def)
  next
    case False
    then have "registry (state_of (handle_auth_response w r i auth sv)) = registry sv"
      by (auto simp: handle_auth_response_def login_ok_def a Let_def split: account_result.split)
    then show ?thesis by (rule that(1))
  qed
qed

lemma hello_cases:
  "registry (handle_hello w r i h sv) = registry sv \<or>
   (\<exists>sv1. registry sv1 = registry sv \<and> handle_hello w r i h sv = set_state Auth_Pending i sv1)"
proof (cases "protocol_version h = kProtocolVersion")
  case True
  then show ?thesis
    by (intro disjI2 exI [of _ "send_envelope w r i MT_AUTH_CHALLENGE (Auth_Challenge (nonce r))
        (upd_session i (\<lambda>s. s\<lparr>s_nonce := nonce r\<rparr>) sv)"])
       (simp add: handle_hello_def Let_def)
qed (simp add: handle_hello_def)

lemma allowed_registry: "msg_allowed r i sv = (b, sv') \<Longrightarrow> registry sv' = registry sv"
  using msg_allowed_same(1) [of r i sv] by simp

lemma other_envelopes_registry:
  assumes "env_type env \<noteq> MT_HELLO" "env_type env \<noteq> MT_AUTH_RESPONSE"
  shows "registry (state_of (handle_envelope w r i env sv)) = registry sv"
  using assms
  by (cases "env_type env")
     (auto simp: handle_envelope_def Let_def dest: allowed_registry split: option.split prod.split bool.split)

lemma envelope_cases:
  obtains "registry (state_of (handle_envelope w r i env sv)) = registry sv"
  | sv1 where "env_type env = MT_HELLO" "state_of_session i sv = Hello" "registry sv1 = registry sv"
      "state_of (handle_envelope w r i env sv) = set_state Auth_Pending i sv1"
  | auth db where "env_type env = MT_AUTH_RESPONSE" "state_of_session i sv = Auth_Pending"
      "parse_payload (parse_auth (codec w)) env = Some auth" "login_ok w i auth sv"
      "auth_account w r auth (user_store sv) = (Account_Ok, db)"
      "state_of (handle_envelope w r i env sv) = auth_success w r i (ar_user_id auth) (sv\<lparr>user_store := db\<rparr>)"
proof -
  consider "env_type env = MT_HELLO" | "env_type env = MT_AUTH_RESPONSE"
    | "env_type env \<noteq> MT_HELLO" "env_type env \<noteq> MT_AUTH_RESPONSE" by blast
  then show ?thesis
  proof cases
    case 1
    show ?thesis
    proof (cases "state_of_session i sv = Hello \<and> parse_payload (parse_hello (codec w)) env \<noteq> None")
      case True
      then obtain h where "parse_payload (parse_hello (codec w)) env = Some h" by auto
      with True 1 have eq: "state_of (handle_envelope w r i env sv) = handle_hello w r i h sv"
        by (simp add: handle_envelope_def Let_def)
      from hello_cases [of w r i h sv] show ?thesis
      proof
        assume "registry (handle_hello w r i h sv) = registry sv"
        with eq show ?thesis by (intro that(1)) simp
      next
        assume "\<exists>sv1. registry sv1 = registry sv \<and> handle_hello w r i h sv = set_state Auth_Pending i sv1"
        with 1 True eq show ?thesis by (elim exE conjE) (rule that(2), simp_all)
      qed
    next
      case False
      with 1 show ?thesis by (intro that(1)) (auto simp: handle_envelope_def Let_def split: option.split)
    qed
  next
    case 2
    show ?thesis
    proof (cases "state_of_session i sv = Auth_Pending \<and> parse_payload (parse_auth (codec w)) env \<noteq> None")
      case True
      then obtain auth where auth: "parse_payload (parse_auth (codec w)) env = Some auth" by auto
      with True 2 have eq: "state_of (handle_envelope w r i env sv) = state_of (handle_auth_response w r i auth sv)"
        by (simp add: handle_envelope_def Let_def)
      show ?thesis
      proof (cases rule: auth_response_cases [of w r i auth sv])
        case 1
        with eq show ?thesis by (intro that(1)) simp
      next
        case login: (2 db)
        with 2 True auth eq show ?thesis by (intro that(3)) simp_all
      qed
    next
      case False
      with 2 show ?thesis by (intro that(1)) (auto simp: handle_envelope_def Let_def split: option.split)
    qed
  next
    case 3
    then show ?thesis by (intro that(1) other_envelopes_registry)
  qed
qed

lemma disconnected_view: "session_view (on_session_disconnected w r i sv) = session_view sv"
  by (simp add: session_view_def fun_eq_iff frame_simps)

lemma frame_protocol:
  assumes "state_of_session i sv \<noteq> Handshake"
  shows "protocol w sv r (Read_Done i (Frame data)) j (session_view sv j)
    (session_view (on_frame_received w r i data sv) j)"
proof (cases "parse_envelope (codec w) data")
  case None
  then have "session_view (on_frame_received w r i data sv) = session_view sv"
    by (intro view_of_registry) (simp add: on_frame_received_def)
  then show ?thesis by (simp add: protocol.stays)
next
  case (Some env)
  then have eq: "on_frame_received w r i data sv = state_of (handle_envelope w r i env sv)"
    by (simp add: on_frame_received_def)
  show ?thesis
  proof (cases rule: envelope_cases [of w r i env sv])
    case 1
    then show ?thesis by (simp add: eq view_of_registry [OF 1] protocol.stays)
  next
    case (2 sv1)
    then have "session_view (on_frame_received w r i data sv) j =
        (if j = i then map_option (\<lambda>(_, u). (Auth_Pending, u)) (session_view sv i) else session_view sv j)"
      by (simp add: eq view_set_state view_of_registry [OF 2(3)])
    moreover obtain u where "session_view sv i = Some (Hello, u)"
      using 2(2) by (auto simp: view_state split: option.splits prod.splits)
    ultimately show ?thesis using Some 2(1) by (auto intro: protocol.intros)
  next
    case (3 auth db)
    obtain u where u: "session_view sv i = Some (Auth_Pending, u)"
      using 3(2) by (auto simp: view_state split: option.splits prod.splits)
    then have "session_view (sv\<lparr>user_store := db\<rparr>) i \<noteq> None" by (simp add: view_user_store)
    then have "session_view (on_frame_received w r i data sv) j =
        (if j = i then Some (Established, ar_user_id auth) else session_view sv j)"
      by (simp add: eq 3(6) auth_success_view view_user_store)
    moreover have "fst (auth_account w r auth (user_store sv)) = Account_Ok" using 3(5) by simp
    ultimately show ?thesis using u Some 3(1,3,4)
      by (auto intro: protocol.stays protocol.logs_in)
  qed
qed

lemma reading_view:
  "session_view (set_reading b i sv) = session_view sv" "session_view (next_read i sv) = session_view sv"
  "session_view (send_error w r i code msg sv) = session_view sv"
  by (intro view_of_registry; simp)+

text \<open>A frame is handled in the state before it, but for the read that is no longer outstanding.\<close>

lemma login_ok_reading: "login_ok w j auth (set_reading b i sv) = login_ok w j auth sv"
  by (simp add: login_ok_def set_reading_def is_nickname_available_def session_nonce_def frame_simps sessions_upd
      split: option.split)

lemma protocol_reading:
  "protocol w (set_reading b i sv) r (Read_Done i res) j v v' \<Longrightarrow> protocol w sv r (Read_Done i res) j v v'"
proof -
  have store: "user_store (set_reading b j sv) = user_store sv" for b j by (simp add: set_reading_def frame_simps)
  assume "protocol w (set_reading b i sv) r (Read_Done i res) j v v'"
  then show ?thesis by (rule protocolE) (auto simp: login_ok_reading store intro: protocol.intros)
qed

lemma read_protocol:
  assumes "state_of_session i sv \<noteq> Handshake"
  shows "protocol w sv r (Read_Done i res) j (session_view sv j) (session_view (on_read w r i res sv) j)"
proof (cases res)
  case (Frame data)
  have "state_of_session i (set_reading False i sv) \<noteq> Handshake" using assms by (simp add: view_state reading_view)
  from frame_protocol [OF this, of w r data j] have
    "protocol w (set_reading False i sv) r (Read_Done i res) j (session_view sv j) (session_view (on_read w r i res sv) j)"
    by (simp add: Frame on_read_def reading_view)
  then show ?thesis by (rule protocol_reading)
qed (simp_all add: on_read_def Let_def disconnected_view reading_view protocol.stays)

lemma handshake_protocol:
  assumes "state_of_session i sv = Handshake"
  shows "protocol w sv r (Handshake_Done i ok) j (session_view sv j) (session_view (on_handshake w r i ok sv) j)"
proof -
  obtain u where "session_view sv i = Some (Handshake, u)"
    using assms by (auto simp: view_state split: option.splits prod.splits)
  then show ?thesis
    by (cases ok) (auto simp: on_handshake_def Let_def disconnected_view reading_view view_set_state
        intro: protocol.intros)
qed

lemma ping_protocol: "session_view (on_ping_timer w r i sv) = session_view sv"
proof -
  have same: "session_view (upd_session i f sv') = session_view sv'"
    if "\<And>s. s_state (f s) = s_state s" "\<And>s. s_user (f s) = s_user s" for f sv'
    by (rule view_of_registry) (simp add: that)
  have "session_view (send_env i e sv') = session_view sv'" for e sv' by (rule view_of_registry) simp
  then show ?thesis
    by (simp add: on_ping_timer_def Let_def same disconnected_view split: option.split ping_timer.split)
qed

lemma close_protocol:
  "protocol w sv r (Close_Runs i) j (session_view sv j) (session_view (run_disconnect i sv) j)"
proof -
  have "session_view (run_disconnect i sv) j =
      (if j = i then map_option (\<lambda>(_, u). (Dead, u)) (session_view sv i) else session_view sv j)"
    by (simp add: run_disconnect_def session_view_def sessions_upd option.map_comp comp_def)
  then show ?thesis by (cases "session_view sv j") (auto intro: protocol.intros)
qed

lemma accept_protocol:
  assumes "registry_ok sv"
  shows "protocol w sv r (Accept ip ep) j (session_view sv j) (session_view (snd (do_accept r ip ep sv)) j)"
proof -
  have "sessions sv (next_session sv) = None" using assms by (auto simp: registry_ok_def)
  then show ?thesis
    by (auto simp: do_accept_def session_view_def new_session_def Let_def intro: protocol.intros
        split: prod.split bool.split)
qed

lemma admin_view: "session_view (snd (snd (handle_admin_command w r t c ps sv))) = session_view sv"
  using admin_states [of sv w r t c ps]
  by cases (simp_all add: session_view_def fun_eq_iff disconnect_def set_max_connections_def
      set_rate_limits_def set_motd_def)

lemma step_protocol:
  assumes ok: "registry_ok sv" and step: "server_step w sv r e sv'"
  shows "protocol w sv r e i (session_view sv i) (session_view sv' i)"
  using step
proof cases
  case (accept ip ep)
  then show ?thesis using accept_protocol [OF ok] by simp
next
  case (handshake j b)
  then show ?thesis using handshake_protocol by simp
next
  case (read j res)
  then show ?thesis using read_protocol by simp
next
  case (closes j)
  then show ?thesis using close_protocol by simp
next
  case (signal err)
  then show ?thesis by (simp add: on_signal_def shutdown_def session_view_def protocol.stays)
next
  case shutdown
  then show ?thesis by (simp add: shutdown_def session_view_def protocol.stays)
next
  case cleanup
  then show ?thesis by (simp add: run_cleanup_def session_view_def protocol.stays)
qed (simp_all add: on_write_error_def disconnected_view ping_protocol admin_view protocol.stays)

section \<open>The names of the users online\<close>

definition names_ok :: "server \<Rightarrow> bool" where
  "names_ok sv \<longleftrightarrow> (\<forall>u \<in> dom (by_user sv). is_valid_user_id u) \<and>
     (\<forall>u \<in> dom (by_user sv). \<forall>v \<in> dom (by_user sv). nicknames_equal u v \<longrightarrow> u = v)"

text \<open>A handler unregisters users, or registers the one who logs in.\<close>

definition users_change :: "world \<Rightarrow> server \<Rightarrow> server \<Rightarrow> bool" where
  "users_change w sv sv' \<longleftrightarrow> by_user sv' \<subseteq>\<^sub>m by_user sv \<or>
     (\<exists>i auth. login_ok w i auth sv \<and> by_user sv' = (by_user sv)(ar_user_id auth \<mapsto> i))"

lemma users_change_same: "by_user sv' = by_user sv \<Longrightarrow> users_change w sv sv'"
  by (simp add: users_change_def)

lemma disconnected_users: "by_user sv' = by_user sv \<Longrightarrow> users_change w sv (on_session_disconnected w' r i sv')"
  by (auto simp: users_change_def frame_simps map_le_def split: option.split)

lemma frame_users: "users_change w sv (on_frame_received w r i data sv)"
proof (cases "parse_envelope (codec w) data")
  case None
  then show ?thesis by (simp add: on_frame_received_def users_change_same send_error_def frame_simps)
next
  case (Some env)
  then have eq: "on_frame_received w r i data sv = state_of (handle_envelope w r i env sv)"
    by (simp add: on_frame_received_def)
  show ?thesis
  proof (cases rule: envelope_cases [of w r i env sv])
    case 1
    then show ?thesis by (simp add: eq users_change_same registry_eqD(2) [OF 1])
  next
    case (2 sv1)
    then show ?thesis by (simp add: eq users_change_same registry_eqD(2) [OF 2(3)] set_state_def frame_simps)
  next
    case (3 auth db)
    have "session_view sv i \<noteq> None" using 3(2) by (auto simp: view_state split: option.splits)
    then have "by_user (on_frame_received w r i data sv) = (by_user sv)(ar_user_id auth \<mapsto> i)"
      by (simp add: eq 3(6) auth_success_view view_user_store)
    with 3(4) show ?thesis by (auto simp: users_change_def)
  qed
qed

lemma reading_users: "by_user (set_reading b i sv) = by_user sv" "by_user (next_read i sv) = by_user sv"
  "by_user (send_error w r i code msg sv) = by_user sv"
  by (simp_all add: set_reading_def next_read_def send_error_def frame_simps)

lemma read_users: "users_change w sv (on_read w r i res sv)"
proof (cases res)
  case (Frame data)
  then have "by_user (on_read w r i res sv) = by_user (on_frame_received w r i data (set_reading False i sv))"
    by (simp add: on_read_def reading_users)
  moreover have "users_change w (set_reading False i sv) (on_frame_received w r i data (set_reading False i sv))"
    by (rule frame_users)
  ultimately show ?thesis by (auto simp: users_change_def reading_users login_ok_reading)
qed (simp_all add: on_read_def Let_def disconnected_users reading_users)

lemma step_users: "server_step w sv r e sv' \<Longrightarrow> users_change w sv sv'"
proof (erule step_cases)
  fix ip ep assume "sv' = snd (do_accept r ip ep sv)"
  then show ?thesis
    by (auto simp: do_accept_def Let_def intro: users_change_same split: prod.split bool.split)
next
  fix i ok assume "sv' = on_handshake w r i ok sv"
  then show ?thesis
    by (simp add: on_handshake_def Let_def disconnected_users users_change_same reading_users set_state_def frame_simps)
next
  fix i assume "sv' = on_ping_timer w r i sv"
  then show ?thesis
    by (simp add: on_ping_timer_def Let_def disconnected_users users_change_same frame_simps
        split: option.split ping_timer.split)
next
  fix c ps st assume "sv' = snd (snd (handle_admin_command w r st c ps sv))"
  with admin_states [of sv w r st c ps] show ?thesis
    by (auto elim!: admin_change.cases intro!: users_change_same
        simp: disconnect_def set_max_connections_def set_rate_limits_def set_motd_def)
qed (simp_all add: read_users on_write_error_def disconnected_users users_change_same run_disconnect_def
    on_signal_def run_cleanup_def frame_simps, simp_all add: users_change_def shutdown_def)

lemma names_ok_change:
  assumes w: "world_ok w" and reg: "registry_ok sv" and ok: "names_ok sv" and change: "users_change w sv sv'"
  shows "names_ok sv'"
  using change unfolding users_change_def
proof (elim disjE exE conjE)
  assume "by_user sv' \<subseteq>\<^sub>m by_user sv"
  then have "dom (by_user sv') \<subseteq> dom (by_user sv)" by (rule map_le_implies_dom_le)
  with ok show ?thesis unfolding names_ok_def by blast
next
  fix i auth assume login: "login_ok w i auth sv" and eq: "by_user sv' = (by_user sv)(ar_user_id auth \<mapsto> i)"
  let ?u = "ar_user_id auth"
  have "is_nickname_available w ?u [] sv" "is_valid_user_id ?u" using login by (simp_all add: login_ok_def)
  then have free: "normalize_nickname v \<noteq> normalize_nickname ?u" if "v \<in> dom (by_user sv)" for v
    using that order_dom [OF w reg] by (auto simp: is_nickname_available_def nickname_loop_iff)
  with ok \<open>is_valid_user_id ?u\<close> show ?thesis
    unfolding names_ok_def eq nicknames_equal_iff by (auto dest: free) (metis free domI)+
qed

lemma reachable_names: "reachable w sv \<Longrightarrow> world_ok w \<Longrightarrow> names_ok sv"
proof (induction rule: reachable.induct)
  case (start udb odb fdb cf)
  have "by_user (start_server cf udb odb fdb) = Map.empty"
    by (simp add: start_server_def new_server_def run_listener_def set_ping_intervals_def set_rate_limits_def
        set_max_connections_def set_motd_def initial_server_def Let_def)
  then show ?case by (simp add: names_ok_def)
next
  case (step sv r e sv')
  then show ?case using names_ok_change reachable_registry step_users by blast
qed

section \<open>What a step writes\<close>

text \<open>
  A write the server may add in a step: an envelope of its own, or the one that a frame of this step
  lets it relay or deliver.
\<close>

definition explained :: "world \<Rightarrow> server \<Rightarrow> event \<Rightarrow> session_id \<Rightarrow> envelope \<Rightarrow> bool" where
  "explained w sv e j env' \<longleftrightarrow> server_made env' \<or>
     (case e of
        Read_Done i (Frame data) \<Rightarrow>
          (case parse_envelope (codec w) data of
             None \<Rightarrow> False
           | Some env \<Rightarrow> allowed_write w sv i env j env')
      | _ \<Rightarrow> False)"

interpretation explain: delivery_policy "explained w sv e" for w sv e
  by unfold_locales (simp_all add: explained_def server_made_def)

lemma frame_writes:
  assumes "world_ok w" "registry_ok sv"
  shows "sends (explained w sv (Read_Done i (Frame data))) sv (on_frame_received w r i data sv)"
proof (cases "parse_envelope (codec w) data")
  case None
  then show ?thesis
    by (auto simp: on_frame_received_def intro!: sends_error sends_refl intro: explain.typed)
next
  case (Some env)
  have "sends (allowed_write w sv i env) sv (state_of (handle_envelope w r i env sv))"
    using assms by (rule envelope_writes)
  then show ?thesis
    by (simp add: on_frame_received_def Some) (erule sends_mono, simp add: explained_def Some)
qed

lemma explained_reading: "explained w (set_reading b i sv) e = explained w sv e"
proof -
  have "registry (set_reading b i sv) = registry sv" by simp
  then have "session_view (set_reading b i sv) = session_view sv" "by_user (set_reading b i sv) = by_user sv"
    by (rule view_of_registry, rule registry_eqD(2))
  then show ?thesis
    by (intro ext) (simp add: explained_def allowed_write_def genuine_def genuine_chat_def genuine_signal_def
        view_state view_user find_session_def cong: option.case_cong split: event.split read_result.split)
qed

lemma read_writes:
  assumes "world_ok w" "registry_ok sv"
  shows "sends (explained w sv (Read_Done i res)) sv (on_read w r i res sv)"
proof (cases res)
  case (Frame data)
  have "sends (explained w (set_reading False i sv) (Read_Done i (Frame data))) (set_reading False i sv)
      (on_frame_received w r i data (set_reading False i sv))"
    using assms by (intro frame_writes) simp_all
  then have "sends (explained w sv (Read_Done i res)) (set_reading False i sv) (on_read w r i res sv)"
    by (simp add: Frame on_read_def explained_reading)
  then show ?thesis by (simp add: sends_def)
next
  case (Bad_Header n)
  then show ?thesis
    by (auto simp: on_read_def Let_def intro!: explain.disconnected_sends sends_error sends_refl intro: explain.typed)
next
  case Read_Error
  then show ?thesis by (auto simp: on_read_def intro!: explain.disconnected_sends sends_refl)
qed

lemma step_writes:
  assumes "world_ok w" "registry_ok sv" "server_step w sv r e sv'"
  shows "sends (explained w sv e) sv sv'"
  using assms(3)
proof cases
  case (accept ip ep)
  then show ?thesis
    by (auto simp: do_accept_def Let_def intro: sends_same [OF sends_refl] split: prod.split bool.split)
next
  case (handshake i ok)
  then show ?thesis by (auto simp: on_handshake_def Let_def intro!: explain.disconnected_sends sends_refl)
next
  case (read i res)
  then show ?thesis using read_writes [OF assms(1,2)] by simp
next
  case (ping i)
  then show ?thesis
    by (auto simp: on_ping_timer_def Let_def sends_refl intro!: explain.disconnected_sends sends_env
        intro: explain.typed split: option.split ping_timer.split)
next
  case (admin c ps st)
  show ?thesis unfolding admin using admin_states [of sv w r st c ps]
    by cases (simp_all add: sends_same [OF sends_refl] set_max_connections_def set_rate_limits_def set_motd_def)
qed (auto simp: on_write_error_def run_disconnect_def on_signal_def shutdown_def run_cleanup_def
    intro!: explain.disconnected_sends intro: sends_same [OF sends_refl] sends_refl)

section \<open>Correctness\<close>

text \<open>A run: a client connects, greets and logs in; a frame's first byte tells which message it is.\<close>

definition run_codec :: codec where
  "run_codec = demo_codec\<lparr>
     ser_envelope := (\<lambda>e. []),
     ser := (\<lambda>m. case m of
         Presence u st \<Rightarrow> (case st of OFFLINE \<Rightarrow> 0 | ONLINE \<Rightarrow> 1 | AWAY \<Rightarrow> 2) # map of_char u
       | _ \<Rightarrow> []),
     parse_envelope := (\<lambda>b. case b of
         [] \<Rightarrow> None
       | c # p \<Rightarrow> Some (plain_envelope (if c = 1 then MT_HELLO else if c = 3 then MT_AUTH_RESPONSE
                                        else if c = 10 then MT_CHAT_ENVELOPE else MT_PING) p)),
     parse_hello := (\<lambda>b. Some \<lparr>protocol_version = 1, client_version = []\<rparr>),
     parse_auth := (\<lambda>b. Some \<lparr>ar_user_id = if b = [1] then ''AL'' else ''al'', ar_identity_pub = replicate 32 5,
         ar_signature = replicate 64 6, ar_signed_prekey = [], ar_spk_sig = [], ar_password = []\<rparr>),
     parse_chat := (\<lambda>b. Some \<lparr>ch_sender_id = ''al'', ch_recipient_id = ''al'', ch_ciphertext = b\<rparr>)\<rparr>"

definition run_world :: world where
  "run_world = demo_world\<lparr>codec := run_codec\<rparr>"

definition run_start :: server where
  "run_start = start_server default_config empty_user_db empty_offline empty_file_db"

definition run_accepted :: server where
  "run_accepted = snd (do_accept demo_readings ''10.0.0.1'' ''h'' run_start)"

definition run_secured :: server where
  "run_secured = on_handshake run_world demo_readings 0 True run_accepted"

definition run_greeted :: server where
  "run_greeted = on_read run_world demo_readings 0 (Frame [1, 0]) run_secured"

definition run_logged_in :: server where
  "run_logged_in = on_read run_world demo_readings 0 (Frame [3, 0]) run_greeted"

lemma run_world_ok: "world_ok run_world"
  by (simp add: world_ok_def run_world_def demo_world_def)

lemma run_start_reachable: "reachable run_world run_start"
  unfolding run_start_def by (rule reachable.start) (simp_all add: inv_intros)

lemma run_accepted_eq:
  "sessions run_accepted = [0 \<mapsto> new_session ''h'']" "by_user run_accepted = Map.empty"
  "user_store run_accepted = empty_user_db" "sent run_accepted = []" "motd run_accepted = []"
  by (simp_all add: run_accepted_def run_start_def start_server_def new_server_def run_listener_def default_config_def
      set_ping_intervals_def set_rate_limits_def set_max_connections_def set_motd_def initial_server_def
      do_accept_def new_rate_limiter_def allow_def demo_readings_def Let_def minutes_def)

lemma run_accept_step: "server_step run_world run_start demo_readings (Accept ''10.0.0.1'' ''h'') run_accepted"
  unfolding run_accepted_def
  by (rule server_step.accept) (simp add: run_start_def start_server_def new_server_def run_listener_def
      set_ping_intervals_def set_rate_limits_def set_max_connections_def set_motd_def initial_server_def Let_def)

lemma run_secure_step: "server_step run_world run_accepted demo_readings (Handshake_Done 0 True) run_secured"
  unfolding run_secured_def
  by (rule server_step.handshake) (simp_all add: outstanding_def state_of_session_def run_accepted_eq new_session_def)

lemma run_secured_eq:
  "sessions run_secured = [0 \<mapsto> (new_session ''h'')\<lparr>s_state := Hello\<rparr>]" "by_user run_secured = Map.empty"
  "user_store run_secured = empty_user_db" "motd run_secured = []"
  by (simp_all add: run_secured_def on_handshake_def next_read_def set_reading_def set_state_def upd_session_def
      run_accepted_eq state_of_session_def new_session_def Let_def)

lemma run_greet_step: "server_step run_world run_secured demo_readings (Read_Done 0 (Frame [1, 0])) run_greeted"
  unfolding run_greeted_def
  by (rule server_step.read) (simp_all add: outstanding_def state_of_session_def run_secured_eq new_session_def)

lemma run_greeted_eq:
  "sessions run_greeted = [0 \<mapsto> (new_session ''h'')\<lparr>s_state := Auth_Pending, s_next_seq := 2,
     s_nonce := replicate 32 7\<rparr>]"
  "by_user run_greeted = Map.empty" "user_store run_greeted = empty_user_db" "motd run_greeted = []"
  by (simp_all add: run_greeted_def on_read_def on_frame_received_def handle_envelope_def handle_hello_def
      parse_payload_def run_world_def demo_world_def run_codec_def plain_envelope_def kProtocolVersion_def
      send_envelope_def send_env_def next_read_def set_reading_def set_state_def upd_session_def demo_readings_def
      run_secured_eq state_of_session_def new_session_def Let_def)

lemma run_greeted_reachable: "reachable run_world run_greeted"
  using run_start_reachable run_accept_step run_secure_step run_greet_step by (blast intro: reachable.step)

lemma run_login_step: "server_step run_world run_greeted demo_readings (Read_Done 0 (Frame [3, 0])) run_logged_in"
  unfolding run_logged_in_def
  by (rule server_step.read) (simp_all add: outstanding_def state_of_session_def run_greeted_eq new_session_def)

lemma run_login_ok:
  assumes "ar_user_id auth = ''al''" "length (ar_identity_pub auth) = 32" "length (ar_signature auth) = 64"
    and "by_user sv = Map.empty"
  shows "login_ok run_world i auth sv"
  using assms
  by (simp add: login_ok_def is_valid_user_id_def is_nickname_available_def run_world_def demo_world_def)

lemma run_logged_in_view: "session_view run_logged_in 0 = Some (Established, ''al'')"
proof -
  let ?sv = "set_reading False 0 run_greeted"
  let ?env = "plain_envelope MT_AUTH_RESPONSE [0]"
  let ?auth = "\<lparr>ar_user_id = ''al'', ar_identity_pub = replicate 32 5, ar_signature = replicate 64 6,
    ar_signed_prekey = [], ar_spk_sig = [], ar_password = []\<rparr>"
  have st: "state_of_session 0 ?sv = Auth_Pending" and users: "by_user ?sv = Map.empty" "user_store ?sv = empty_user_db"
    by (simp_all add: set_reading_def upd_session_def state_of_session_def run_greeted_eq)
  have parse: "parse_envelope (codec run_world) [3, 0] = Some ?env" "parse_payload (parse_auth (codec run_world)) ?env = Some ?auth"
    by (simp_all add: run_world_def run_codec_def parse_payload_def plain_envelope_def)
  have "login_ok run_world 0 ?auth ?sv" using users by (intro run_login_ok) simp_all
  moreover obtain db where "auth_account run_world demo_readings ?auth (user_store ?sv) = (Account_Ok, db)"
    unfolding users
    by (simp add: auth_account_def find_by_id_def empty_user_db_def demo_readings_def insert_user_def
        store_offered_spk_def)
  ultimately have "handle_auth_response run_world demo_readings 0 ?auth ?sv =
      Returned (auth_success run_world demo_readings 0 ''al'' (?sv\<lparr>user_store := db\<rparr>))"
    by (simp add: handle_auth_response_def login_ok_def Let_def)
  with st parse have eq: "run_logged_in = next_read 0 (auth_success run_world demo_readings 0 ''al'' (?sv\<lparr>user_store := db\<rparr>))"
    by (simp add: run_logged_in_def on_read_def on_frame_received_def handle_envelope_def Let_def plain_envelope_def)
  have some: "session_view (?sv\<lparr>user_store := db\<rparr>) 0 \<noteq> None"
    using st by (auto simp: view_user_store view_state split: option.splits)
  show ?thesis unfolding eq reading_view by (simp add: auth_success_view [OF some])
qed

lemma run_greeted_view: "session_view run_greeted 0 = Some (Auth_Pending, [])"
  by (simp add: session_view_def run_greeted_eq new_session_def)

lemma run_logged_in_reachable: "reachable run_world run_logged_in"
  using run_greeted_reachable run_login_step by (rule reachable.step)

text \<open>
  C7: Every step the server can take from a reachable state moves every session along the protocol:
  nothing happens to it, or it is accepted, or completes its handshake, or greets, or logs in with a
  verified signature, or is closed.
\<close>

theorem protocol_followed:
  assumes "reachable w sv" "server_step w sv r e sv'"
  shows "protocol w sv r e i (session_view sv i) (session_view sv' i)"
  by (rule step_protocol [OF reachable_registry [OF assms(1)] assms(2)])

theorem protocol_followed_witness:
  "protocol run_world run_greeted demo_readings (Read_Done 0 (Frame [3, 0])) 0
     (Some (Auth_Pending, [])) (Some (Established, ''al''))"
  using protocol_followed [OF run_greeted_reachable run_login_step, of 0]
  by (simp add: run_greeted_view run_logged_in_view)

text \<open>
  C1: A session becomes established only while it waits for authentication, by an authentication
  response whose user name is valid and not in use, and which carries a signature of the session's own
  nonce and the user name that verifies under the presented key, after the account database accepted
  the account; and it then has that user name.
\<close>

theorem login_needs_signature:
  assumes "reachable w sv" "server_step w sv r e sv'"
    and "state_of_session i sv \<noteq> Established" "state_of_session i sv' = Established"
  shows "\<exists>data env auth. e = Read_Done i (Frame data) \<and> state_of_session i sv = Auth_Pending \<and>
    parse_envelope (codec w) data = Some env \<and> env_type env = MT_AUTH_RESPONSE \<and>
    parse_payload (parse_auth (codec w)) env = Some auth \<and> session_user i sv' = ar_user_id auth \<and>
    login_ok w i auth sv \<and> fst (auth_account w r auth (user_store sv)) = Account_Ok"
proof -
  from reachable_registry [OF assms(1)] assms(2)
  have "protocol w sv r e i (session_view sv i) (session_view sv' i)" by (rule step_protocol)
  then show ?thesis
    using assms(3,4) by (cases rule: protocolE) (auto simp: view_state view_user)
qed

theorem login_needs_signature_witness:
  "\<exists>auth. ar_user_id auth = ''al'' \<and> login_ok run_world 0 auth run_greeted"
  using login_needs_signature [OF run_greeted_reachable run_login_step, of 0]
  by (auto simp: view_state view_user run_greeted_view run_logged_in_view)

text \<open>
  The sessions only advance: once a session exists it never goes back to an earlier state, a dead one
  stays dead, and from its login on its user does not change.
\<close>

theorem sessions_advance:
  assumes "reachable w sv" "server_step w sv r e sv'" and "session_view sv i = Some (st, u)"
  shows "\<exists>st' u'. session_view sv' i = Some (st', u') \<and> st \<le> st' \<and> (Established \<le> st \<longrightarrow> u' = u)"
proof -
  from reachable_registry [OF assms(1)] assms(2)
  have "protocol w sv r e i (session_view sv i) (session_view sv' i)" by (rule step_protocol)
  then show ?thesis
    using assms(3) by (cases rule: protocolE) (auto, simp_all add: less_eq_session_state_def)
qed

theorem sessions_advance_witness:
  "\<exists>st' u'. session_view run_logged_in 0 = Some (st', u') \<and> Auth_Pending \<le> st'"
  using sessions_advance [OF run_greeted_reachable run_login_step run_greeted_view] by blast







end
