(* ===== verification/Onlooker.thy ===== *)
theory Onlooker
  imports System
begin

text \<open>
  What the handlers of a session leave alone.  A \<open>view\<close> of the server that the elementary updates of a handler
  do not change is not changed by the handler: the lemmas are proved once, for any view, and used for the
  accounts, for the other sessions and for the settings of the listener.
\<close>

section \<open>A view that updates leave alone\<close>

text \<open>What writing to sessions and changing the object of session \<open>i\<close> leave alone.\<close>

locale own_view =
  fixes view :: "server \<Rightarrow> 'v" and i :: session_id
  assumes view_session [simp]: "view (upd_session i f sv) = view sv"
    and view_sent [simp]: "view (sv\<lparr>sent := x\<rparr>) = view sv"
    and view_closing [simp]: "view (sv\<lparr>closing := cl\<rparr>) = view sv"
begin

lemma view_sending [simp]:
  "view (send_env j e sv) = view sv" "view (disconnect j sv) = view sv"
  "view (send_to_online e us sv) = view sv" "view (broadcast w e ex sv) = view sv"
  "view (broadcast_presence w r u st ex sv) = view sv" "view (send_notices w ns sv) = view sv"
  by (simp_all add: send_env_def disconnect_def send_to_online_eq broadcast_presence_def broadcast_eq send_notices_eq)

lemma view_user_list [simp]: "view (broadcast_user_list w c sv) = view sv"
  by (rule broadcast_user_list_frame [of w c sv]) simp

lemma view_writes [simp]:
  "view (send_envelope w r i t m sv) = view sv" "view (send_error w r i code msg sv) = view sv"
  "view (send_file_error w r i fid code msg sv) = view sv" "view (send_user_list w c j sv) = view sv"
  "view (auth_error w r i code msg sv) = view sv" "view (auth_fail w r i code msg sv) = view sv"
  "view (set_upload i fid st sv) = view sv" "view (set_state ss i sv) = view sv"
  "view (reset_ping_timer i sv) = view sv" "view (start_ping_timer i sv) = view sv"
  "view (set_reading b i sv) = view sv" "view (next_read i sv) = view sv"
  by (simp_all add: send_envelope_def send_error_def send_file_error_def send_user_list_def auth_error_def auth_fail_def
      set_upload_def set_state_def reset_ping_timer_def start_ping_timer_def set_reading_def next_read_def
      split: option.split)

lemma view_send_offline [simp]: "view (send_offline w j ps sv) = view sv"
  by (induction ps arbitrary: sv) (simp_all split: option.split)

lemma view_msg_allowed [simp]: "view (snd (msg_allowed r i sv)) = view sv"
  by (simp add: msg_allowed_def split: option.split prod.split)

lemma msg_allowed_view: "msg_allowed r i sv = (b, sv') \<Longrightarrow> view sv' = view sv"
  using view_msg_allowed [of r sv] by simp

lemma view_talk [simp]:
  "view (handle_ping w r i env sv) = view sv" "view (handle_voice_signal w r i vs raw sv) = view sv"
  "view (handle_hello w r i h sv) = view sv" "view (run_disconnect i sv) = view sv"
  by (simp_all add: handle_ping_def handle_voice_signal_def handle_hello_def run_disconnect_def Let_def
      split: option.split)

end

text \<open>The handlers of session \<open>i\<close>, without those that write the accounts and keys or the mailboxes.\<close>

locale bystander = own_view +
  assumes view_scanner [simp]: "view (sv\<lparr>scanner := m\<rparr>) = view sv"
    and view_file_db [simp]: "view (sv\<lparr>file_store := fd\<rparr>) = view sv"
    and view_voice [simp]: "view (sv\<lparr>voice_rooms := v\<rparr>) = view sv"
    and view_command_state [simp]: "view (sv\<lparr>commands := cm\<rparr>) = view sv"
    and view_users [simp]: "view (sv\<lparr>by_user := bu\<rparr>) = view sv"
    and view_registered [simp]: "view (sv\<lparr>by_session := bs\<rparr>) = view sv"
    and view_count [simp]: "view (sv\<lparr>active_connections := n\<rparr>) = view sv"
begin

lemma view_primitives [simp]:
  "view (upd_commands g sv) = view sv" "view (set_channel c ch sv) = view sv" "view (set_limits u l sv) = view sv"
  "view (set_abuse u ab sv) = view sv" "view (part_channel c u sv) = view sv"
  by (simp_all add: upd_commands_def set_channel_def set_limits_def set_abuse_def part_channel_def Let_def
      split: option.split)

lemma view_disconnected [simp]: "view (on_session_disconnected w r j sv) = view sv"
  by (auto simp: on_session_disconnected_def unregister_def Let_def split: option.split prod.split)

lemma view_rooms [simp]:
  "view (handle_voice_room_join w r i c sv) = view sv" "view (handle_voice_room_leave w i c sv) = view sv"
  by (auto simp: handle_voice_room_join_def handle_voice_room_leave_def Let_def split: prod.split)

lemma view_files [simp]:
  "view (handle_file_request w r i req sv) = view sv" "view (finish_upload w r i fid st sv) = view sv"
  by (simp_all add: handle_file_request_def finish_upload_def Let_def split: prod.split bool.split)

lemma view_upload [simp]: "view (handle_file_upload w r i chunk sv) = view sv"
  by (auto simp: handle_file_upload_def Let_def dest: msg_allowed_view split: prod.split bool.split option.split)

lemma view_download [simp]: "view (handle_file_download w r i dl sv) = view sv"
proof -
  have "view (download_loop w r i fid n k ks sv) = view sv" for fid n k ks
    by (induction ks arbitrary: sv) (simp_all add: Let_def split: option.split)
  then show ?thesis by (simp add: handle_file_download_def Let_def split: option.split)
qed

lemma view_gates [simp]:
  "view (snd (is_abuser now u sv)) = view sv" "view (snd (track_abuse now u sv)) = view sv"
  "view (snd (allow_command now u sv)) = view sv" "view (snd (allow_join now u sv)) = view sv"
  "view (admitted r j sv) = view sv"
  by (simp_all add: is_abuser_def track_abuse_def allow_command_def allow_join_def admitted_def Let_def
      split: option.split prod.split)

lemma allow_join_view: "allow_join now u sv = (b, sv') \<Longrightarrow> view sv' = view sv"
  using view_gates(4) [of now u sv] by simp

lemma view_quit_channels [simp]: "view (quit_channels w u reason cs sv) = view sv"
proof (induction cs arbitrary: sv)
  case (Cons c cs)
  have "quit_channels w u reason (c # cs) sv =
      quit_channels w u reason cs (broadcast_user_list w c (part_channel c u sv))"
    by (simp add: quit_channels_def notify_channel_part_def)
  then show ?case by (simp add: Cons)
qed (simp add: quit_channels_def)

lemma view_commands [simp]:
  "view (snd (cmd_part w args i sv)) = view sv" "view (snd (cmd_topic w args i sv)) = view sv" "view (snd (cmd_kick w args i sv)) = view sv"
  "view (snd (cmd_ban w args i sv)) = view sv" "view (snd (cmd_invite w args i sv)) = view sv"
  "view (snd (cmd_set args i sv)) = view sv" "view (snd (cmd_mode args i sv)) = view sv"
  "view (snd (cmd_quit w args i sv)) = view sv"
  by (simp_all add: cmd_part_def cmd_topic_def cmd_kick_def cmd_ban_def cmd_invite_def cmd_set_def
      cmd_mode_def cmd_quit_def notify_channel_part_def notify_channel_join_def Let_def del: send_to_online.simps
      split: option.split)

lemma view_join [simp]: "view (snd (cmd_join w r args i sv)) = view sv"
  by (auto simp: cmd_join_def get_or_create_eq notify_channel_join_def Let_def dest: allow_join_view
      split: prod.split bool.split)

lemma view_greeting [simp]:
  "view (on_session_authenticated w r i sv) = view sv" "view (greeted w r i u sv) = view sv"
  by (simp_all add: on_session_authenticated_def register_session_def snapshot_eq greeted_def Let_def
      split: option.split)

lemma view_events [simp]:
  "view (on_handshake w r i ok sv) = view sv" "view (on_write_error w r i sv) = view sv"
  "view (on_ping_timer w r i sv) = view sv"
  by (simp_all add: on_handshake_def on_write_error_def on_ping_timer_def Let_def
      split: option.split ping_timer.split)

text \<open>A read is a frame's handler and calls that the view does not see.\<close>

lemma view_read:
  "view (on_read w r i res sv) =
     (case res of
        Frame data \<Rightarrow>
          (case parse_envelope (codec w) data of
             None \<Rightarrow> view sv
           | Some env \<Rightarrow> view (state_of (handle_envelope w r i env (set_reading False i sv))))
      | _ \<Rightarrow> view sv)"
  by (simp add: on_read_def on_frame_received_def Let_def split: read_result.split option.split)

end

text \<open>A view that does not see the mailboxes.\<close>

locale onlooker = bystander +
  assumes view_offline [simp]: "view (sv\<lparr>offline_store := od\<rparr>) = view sv"
begin

lemma view_save_offline [simp]: "view (snd (save_offline r c u p sv)) = view sv"
  by (simp add: save_offline_def split: prod.split)

lemma save_offline_view: "save_offline r c u p sv = (b, sv') \<Longrightarrow> view sv' = view sv"
  using view_save_offline [of r c u p sv] by simp

lemma view_deliver [simp]: "view (deliver_to_members w r c e ex us sv) = view sv"
  by (induction us arbitrary: sv) (simp_all split: option.split)

lemma view_announce [simp]: "view (announce_nick w r u e cs sv) = view sv"
  by (induction cs arbitrary: sv) (simp_all add: broadcast_to_channel_def split: option.split)

lemma view_chat [simp]: "view (handle_chat w r i chat raw sv) = view sv"
  by (auto simp: handle_chat_def dest: save_offline_view split: option.split prod.split bool.split)

lemma view_nick [simp]: "view (snd (cmd_nick w r args i sv)) = view sv"
  by (simp add: cmd_nick_def Let_def)

text \<open>The commands but for the two that write accounts.\<close>

lemma view_handle_command:
  assumes "\<And>args sv. view (snd (cmd_password w r args i sv)) = view sv"
    and "view (snd (cmd_resetdb r i (admitted r i sv))) = view sv"
  shows "view (session_command w r i cmd sv) = view sv"
proof -
  have "view (snd (handle_command w r cmd i sv)) = view sv"
  proof (cases rule: handle_command_states [of w r cmd i sv])
    case (5 res)
    from 5(1) have "view (snd res) = view sv"
      by (cases rule: run_command_states) (simp_all add: assms)
    with 5(2) show ?thesis by simp
  qed simp_all
  then have "view sv1 = view sv" if "handle_command w r cmd i sv = (resp, sv1)" for resp sv1
    using that by simp
  then show ?thesis by (auto simp: session_command_def split: prod.split)
qed

lemma view_authenticated [simp]: "view (auth_success w r i u sv) = view sv"
  by (simp add: auth_success_eq Let_def split: prod.split)

lemma view_cleanup [simp]: "view (run_cleanup r sv) = view sv"
  by (simp add: run_cleanup_def Let_def)

end

text \<open>A view that does not see the accounts either.\<close>

locale detached = onlooker +
  assumes view_accounts [simp]: "view (sv\<lparr>user_store := ud\<rparr>) = view sv"
begin

lemma view_keys [simp]:
  "view (state_of (handle_key_upload r i ku sv)) = view sv" "view (handle_key_request w r i u sv) = view sv"
  by (simp_all add: handle_key_upload_def handle_key_request_def Let_def split: option.split prod.split outcome.split)

lemma view_command [simp]: "view (session_command w r i cmd sv) = view sv"
  by (rule view_handle_command)
     (simp_all add: cmd_password_def cmd_resetdb_def Let_def split: outcome.split prod.split bool.split)

lemma view_auth_response [simp]: "view (state_of (handle_auth_response w r i auth sv)) = view sv"
  by (simp add: handle_auth_response_def Let_def split: prod.split account_result.split)

lemma view_envelope [simp]: "view (state_of (handle_envelope w r i env sv)) = view sv"
  by (cases "env_type env")
     (auto simp: handle_envelope_def Let_def dest!: msg_allowed_view split: option.split prod.split bool.split)

lemma view_any_read [simp]: "view (on_read w r i res sv) = view sv"
  by (simp add: view_read split: read_result.split option.split)

end

end
