(* ===== verification/Accounts.thy ===== *)
theory Accounts
  imports Onlooker
begin

text \<open>
  What a step of the server can do to the accounts: the identity key of an account is replaced only by a
  client that has its password, and an account goes only when the user \<open>admin\<close> resets the database.
\<close>

definition accounts :: "server \<Rightarrow> user_id \<Rightarrow> bytes option" where
  "accounts sv u = map_option identity_pub (users (user_store sv) u)"

definition accounts_of :: "user_db \<Rightarrow> user_id \<Rightarrow> bytes option" where
  "accounts_of db u = map_option identity_pub (users db u)"

lemma accounts_store: "accounts sv = accounts_of (user_store sv)"
  by (simp add: accounts_def accounts_of_def fun_eq_iff)

section \<open>The operations on the tables\<close>

lemma accounts_of_keys [simp]:
  "accounts_of (state_of (upsert_signed_prekey f t u p s db)) = accounts_of db"
  "accounts_of (state_of (store_opk f u p db)) = accounts_of db"
  "accounts_of (snd (consume_opk c f g u db)) = accounts_of db"
  "accounts_of (state_of (clear_key_material f g u db)) = accounts_of db"
  "accounts_of (snd (set_password h f u pw db)) = accounts_of db"
  by (auto simp: accounts_of_def upsert_signed_prekey_def store_opk_def consume_opk_def consume_row_def mark_used_def
      clear_key_material_def set_password_def Let_def fun_eq_iff split: prod.split option.split)

lemma accounts_of_update_password [simp]:
  "accounts_of (snd (update_password h chk f g u old new db)) = accounts_of db"
  by (simp add: update_password_def)

lemma accounts_of_store_opks [simp]: "accounts_of (state_of (store_opks f n u ks db)) = accounts_of db"
proof (induction ks arbitrary: n db)
  case (Cons k ks)
  have "accounts_of (state_of (store_opk (f n) u k db)) = accounts_of db" by simp
  with Cons show ?case by (cases "store_opk (f n) u k db") auto
qed simp

lemma accounts_of_delete:
  "accounts_of (state_of (delete_all_users f db)) \<subseteq>\<^sub>m accounts_of db"
  "accounts_of (state_of (delete_all_spks f db)) = accounts_of db"
  "accounts_of (state_of (delete_all_opks f db)) = accounts_of db"
  by (auto simp: accounts_of_def delete_all_users_def delete_all_spks_def delete_all_opks_def map_le_def fun_eq_iff)

text \<open>What the database part of the authentication does to an account.\<close>

definition recovered :: "world \<Rightarrow> auth_response \<Rightarrow> user_db \<Rightarrow> bool" where
  "recovered w auth db \<longleftrightarrow>
     (\<exists>a h. users db (ar_user_id auth) = Some a \<and> password_hash a = Some h \<and> pw_check w h (ar_password auth))"

lemma auth_account_identity:
  "accounts_of (snd (auth_account w r auth db)) =
     (if accounts_of (snd (auth_account w r auth db)) (ar_user_id auth) = accounts_of db (ar_user_id auth)
      then accounts_of db
      else (accounts_of db)(ar_user_id auth \<mapsto> ar_identity_pub auth))"
  "accounts_of (snd (auth_account w r auth db)) (ar_user_id auth) = accounts_of db (ar_user_id auth) \<or>
   accounts_of db (ar_user_id auth) = None \<or> recovered w auth db"
proof -
  let ?u = "ar_user_id auth" and ?key = "ar_identity_pub auth"
  have spk: "accounts_of (state_of (store_offered_spk r auth d)) = accounts_of d" for d
    by (simp add: store_offered_spk_def)
  have "(accounts_of (snd (auth_account w r auth db)) = accounts_of db) \<or>
      (accounts_of (snd (auth_account w r auth db)) = (accounts_of db)(?u \<mapsto> ?key) \<and>
       (accounts_of db ?u = None \<or> recovered w auth db))"
  proof (cases "find_by_id (db_fails r 0) ?u db")
    case None
    let ?ins = "insert_user (db_fails r 1) ?u ?key (unix_time r) db"
    show ?thesis
    proof (cases ?ins)
      case (Threw d)
      then have "accounts_of d = accounts_of db" by (simp add: insert_user_def split: if_splits)
      with None Threw show ?thesis by (simp add: auth_account_def Let_def)
    next
      case (Returned d)
      then have d: "accounts_of d = (accounts_of db)(?u \<mapsto> ?key)" "accounts_of db ?u = None"
        by (auto simp: insert_user_def accounts_of_def fun_eq_iff split: if_splits)
      from spk [of d] have "accounts_of (snd (auth_account w r auth db)) = accounts_of d"
        using None Returned by (cases "store_offered_spk r auth d") (simp_all add: auth_account_def Let_def)
      with d show ?thesis by simp
    qed
  next
    case (Some existing)
    then have ex: "users db ?u = Some existing" by (simp add: find_by_id_def split: if_splits)
    let ?ok = "identity_pub existing \<noteq> ?key \<and> ar_password auth \<noteq> [] \<and> has_password (db_fails r 4) ?u db \<and>
      verify_password (pw_check w) (db_fails r 5) ?u (ar_password auth) db"
    show ?thesis
    proof (cases ?ok)
      case True
      then have rec: "recovered w auth db"
        using ex by (auto simp: recovered_def verify_password_def split: if_splits option.splits)
      let ?clr = "clear_key_material (db_fails r 6) (db_fails r 7) ?u db"
      have clr: "accounts_of (state_of ?clr) = accounts_of db" by simp
      show ?thesis
      proof (cases ?clr)
        case (Threw d)
        with clr Some True show ?thesis by (simp add: auth_account_def Let_def)
      next
        case c: (Returned d)
        then have ex': "users d ?u = Some existing" "accounts_of d = accounts_of db"
          using ex clr by (auto simp: clear_key_material_def Let_def split: if_splits)
        let ?upd = "update_identity_key (db_fails r 8) ?u ?key d"
        show ?thesis
        proof (cases ?upd)
          case (Threw e)
          then have "accounts_of e = accounts_of db"
            using ex' by (simp add: update_identity_key_def split: if_splits)
          with c ex' Threw Some True show ?thesis by (simp add: auth_account_def Let_def)
        next
          case (Returned e)
          then have e: "accounts_of e = (accounts_of db)(?u \<mapsto> ?key)"
            using ex'(2) by (auto simp: update_identity_key_def ex'(1) accounts_of_def fun_eq_iff split: if_splits)
          from spk [of e] have "accounts_of (snd (auth_account w r auth db)) = accounts_of e"
            using c Returned Some True by (cases "store_offered_spk r auth e") (simp_all add: auth_account_def Let_def)
          with e rec show ?thesis by simp
        qed
      qed
    next
      case False
      have "accounts_of (snd (auth_account w r auth db)) = accounts_of db"
      proof (cases "identity_pub existing \<noteq> ?key")
        case True
        with False Some show ?thesis by (auto simp: auth_account_def Let_def)
      next
        case same: False
        with Some show ?thesis by (simp add: auth_account_def Let_def)
      qed
      then show ?thesis by simp
    qed
  qed
  then show "accounts_of (snd (auth_account w r auth db)) =
     (if accounts_of (snd (auth_account w r auth db)) (ar_user_id auth) = accounts_of db (ar_user_id auth)
      then accounts_of db
      else (accounts_of db)(ar_user_id auth \<mapsto> ar_identity_pub auth))"
    "accounts_of (snd (auth_account w r auth db)) (ar_user_id auth) = accounts_of db (ar_user_id auth) \<or>
     accounts_of db (ar_user_id auth) = None \<or> recovered w auth db"
    by (auto simp: fun_upd_idem)
qed

section \<open>The handlers\<close>

lemma accounts_same: "stores sv' = stores sv \<Longrightarrow> accounts sv' = accounts sv"
  by (simp add: accounts_def stores_def fun_eq_iff)

lemma accounts_upd [simp]: "accounts (sv\<lparr>user_store := db\<rparr>) = accounts_of db"
  by (simp add: accounts_def accounts_of_def fun_eq_iff)

interpretation accounts: onlooker accounts i for i
  by unfold_locales (simp_all add: accounts_def fun_eq_iff frame_simps)

lemma accounts_keys [simp]:
  "accounts (state_of (handle_key_upload r i ku sv)) = accounts sv" "accounts (handle_key_request w r i u sv) = accounts sv"
proof -
  have opk: "accounts_of db = accounts sv"
    if "consume_opk c f g u (user_store sv) = (k, db)" for c f g k db
    using accounts_of_keys(3) [of c f g u "user_store sv"] that by (simp add: accounts_store)
  then show "accounts (handle_key_request w r i u sv) = accounts sv"
    by (auto simp: handle_key_request_def Let_def split: prod.split option.split)
  define spk where "spk = (if ku_signed_prekey ku \<noteq> [] \<and> ku_spk_signature ku \<noteq> []
    then upsert_signed_prekey (db_fails r 0) (unix_time r) (session_user i sv) (ku_signed_prekey ku)
      (ku_spk_signature ku) (user_store sv) else Returned (user_store sv))"
  have spk: "accounts_of (state_of spk) = accounts sv" by (simp add: spk_def accounts_store)
  have opks: "accounts_of (state_of (store_opks (db_fails r) 1 (session_user i sv) (ku_one_time_prekeys ku) (state_of spk)))
      = accounts sv" by (simp add: spk)
  show "accounts (state_of (handle_key_upload r i ku sv)) = accounts sv"
    unfolding handle_key_upload_def Let_def spk_def [symmetric]
    using spk opks
    by (cases "store_opks (db_fails r) 1 (session_user i sv) (ku_one_time_prekeys ku) (state_of spk)"; cases spk) simp_all
qed

section \<open>The commands\<close>

lemma accounts_password: "accounts (snd (cmd_password w r args i sv)) = accounts sv"
proof -
  have "accounts_of db = accounts_of (user_store sv)"
    if "update_password h c f g u old new (user_store sv) = (b, db)" for h c f g u old new b db
    using accounts_of_update_password [of h c f g u old new "user_store sv"] that by simp
  then show ?thesis
    by (auto simp: cmd_password_def accounts_store Let_def split: prod.split bool.split)
qed

lemma accounts_resetdb:
  "accounts (snd (cmd_resetdb r i sv)) = accounts sv \<or>
   (session_user i sv = ''admin'' \<and> accounts (snd (cmd_resetdb r i sv)) \<subseteq>\<^sub>m accounts sv)"
proof -
  let ?u = "delete_all_users (db_fails r 0) (user_store sv)"
  let ?s = "delete_all_spks (db_fails r 1) (state_of ?u)"
  let ?o = "delete_all_opks (db_fails r 2) (state_of ?s)"
  have "accounts_of (state_of ?u) \<subseteq>\<^sub>m accounts sv" "accounts_of (state_of ?s) = accounts_of (state_of ?u)"
    "accounts_of (state_of ?o) = accounts_of (state_of ?s)"
    by (simp_all add: accounts_of_delete accounts_store)
  then have "accounts (snd (cmd_resetdb r i sv)) \<subseteq>\<^sub>m accounts sv"
    by (cases ?u; cases ?s; cases ?o) (auto simp: cmd_resetdb_def Let_def)
  then show ?thesis by (cases "session_user i sv = ''admin''") (simp_all add: cmd_resetdb_def)
qed

lemma accounts_command:
  "accounts (session_command w r i cmd sv) = accounts sv \<or>
   (session_user i sv = ''admin'' \<and> accounts (session_command w r i cmd sv) \<subseteq>\<^sub>m accounts sv)"
proof -
  have "accounts (snd (handle_command w r cmd i sv)) = accounts sv \<or>
      (session_user i sv = ''admin'' \<and> accounts (snd (handle_command w r cmd i sv)) \<subseteq>\<^sub>m accounts sv)"
  proof (cases rule: handle_command_states [of w r cmd i sv])
    case (5 res)
    from 5(1) have "accounts (snd res) = accounts sv \<or>
        (session_user i sv = ''admin'' \<and> accounts (snd res) \<subseteq>\<^sub>m accounts sv)"
      using accounts_resetdb [of r i "admitted r i sv"]
      by (cases rule: run_command_states) (simp_all add: accounts_password)
    with 5(2) show ?thesis by simp
  qed simp_all
  then show ?thesis by (auto simp: session_command_def split: prod.split)
qed

section \<open>A frame\<close>

text \<open>
  What one step may do to the accounts: nothing, the login of a user with an account of the key shown (new,
  or recovered with the password), or the reset by \<open>admin\<close>.
\<close>

inductive account_step ::
  "world \<Rightarrow> server \<Rightarrow> session_id \<Rightarrow> envelope \<Rightarrow> (user_id \<rightharpoonup> bytes) \<Rightarrow> bool" for w sv i env where
  unchanged: "account_step w sv i env (accounts sv)"
| keyed: "env_type env = MT_AUTH_RESPONSE \<Longrightarrow> state_of_session i sv = Auth_Pending \<Longrightarrow>
    parse_payload (parse_auth (codec w)) env = Some auth \<Longrightarrow> login_ok w i auth sv \<Longrightarrow>
    accounts sv (ar_user_id auth) = None \<or> recovered w auth (user_store sv) \<Longrightarrow>
    account_step w sv i env ((accounts sv)(ar_user_id auth \<mapsto> ar_identity_pub auth))"
| reset: "env_type env = MT_COMMAND \<Longrightarrow> session_user i sv = ''admin'' \<Longrightarrow> acc \<subseteq>\<^sub>m accounts sv \<Longrightarrow>
    account_step w sv i env acc"

inductive_cases account_stepE: "account_step w sv i env acc"

lemma accounts_auth_response:
  "accounts (state_of (handle_auth_response w r i auth sv)) =
     (if login_ok w i auth sv then accounts_of (snd (auth_account w r auth (user_store sv))) else accounts sv)"
  by (auto simp: handle_auth_response_def login_ok_def Let_def
      split: prod.split account_result.split)

lemma envelope_account_step: "account_step w sv i env (accounts (state_of (handle_envelope w r i env sv)))"
proof -
  show ?thesis
  proof (cases "env_type env")
    case MT_AUTH_RESPONSE
    show ?thesis
    proof (cases "state_of_session i sv = Auth_Pending \<and> parse_payload (parse_auth (codec w)) env \<noteq> None")
      case True
      then obtain auth where auth: "parse_payload (parse_auth (codec w)) env = Some auth" by auto
      let ?acc = "accounts_of (snd (auth_account w r auth (user_store sv)))"
      have eq: "accounts (state_of (handle_envelope w r i env sv)) = (if login_ok w i auth sv then ?acc else accounts sv)"
        using True auth MT_AUTH_RESPONSE by (simp add: handle_envelope_def Let_def accounts_auth_response)
      show ?thesis
      proof (cases "login_ok w i auth sv \<and> ?acc (ar_user_id auth) \<noteq> accounts sv (ar_user_id auth)")
        case login: True
        then have "?acc = (accounts sv)(ar_user_id auth \<mapsto> ar_identity_pub auth)"
          "accounts sv (ar_user_id auth) = None \<or> recovered w auth (user_store sv)"
          using auth_account_identity [of w r auth "user_store sv"] by (simp_all add: accounts_store split: if_splits)
        with eq login account_step.keyed [OF MT_AUTH_RESPONSE _ auth] True show ?thesis by simp
      next
        case False
        then have "accounts (state_of (handle_envelope w r i env sv)) = accounts sv"
          using eq auth_account_identity(1) [of w r auth "user_store sv"]
          by (auto simp: accounts_store split: if_splits)
        then show ?thesis by (simp add: account_step.unchanged)
      qed
    next
      case False
      with MT_AUTH_RESPONSE have "accounts (state_of (handle_envelope w r i env sv)) = accounts sv"
        by (auto simp: handle_envelope_def Let_def split: option.split)
      then show ?thesis by (simp add: account_step.unchanged)
    qed
  next
    case MT_COMMAND
    show ?thesis
    proof (cases "accounts (state_of (handle_envelope w r i env sv)) = accounts sv")
      case False
      with MT_COMMAND obtain cmd where "state_of (handle_envelope w r i env sv) = session_command w r i cmd sv"
        by (auto simp: handle_envelope_def Let_def split: option.splits if_splits)
      with False accounts_command [of w r i cmd sv] account_step.reset [OF MT_COMMAND] show ?thesis by simp
    qed (simp add: account_step.unchanged)
  qed (auto simp: handle_envelope_def Let_def account_step.unchanged dest!: accounts.msg_allowed_view
       split: option.split prod.split bool.split)
qed

section \<open>A step\<close>

lemma accounts_reading: "account_step w (set_reading b i sv) j env acc \<Longrightarrow> account_step w sv j env acc"
proof -
  have same: "user_store (set_reading b i sv) = user_store sv"
    "state_of_session j (set_reading b i sv) = state_of_session j sv"
    "session_user j (set_reading b i sv) = session_user j sv"
    by (simp_all add: set_reading_def frame_simps state_of_session_def session_user_def sessions_upd split: option.split)
  assume "account_step w (set_reading b i sv) j env acc"
  then show ?thesis
    by (rule account_stepE) (auto simp: login_ok_reading same intro: account_step.intros)
qed

lemma read_accounts:
  obtains "accounts (on_read w r i res sv) = accounts sv"
  | data env where "res = Frame data" "parse_envelope (codec w) data = Some env"
      "account_step w sv i env (accounts (on_read w r i res sv))"
proof (cases "\<exists>data env. res = Frame data \<and> parse_envelope (codec w) data = Some env")
  case True
  then obtain data env where env: "res = Frame data" "parse_envelope (codec w) data = Some env" by blast
  have "account_step w sv i env (accounts (on_read w r i res sv))"
    using accounts_reading [OF envelope_account_step [of w "set_reading False i sv" i env r]]
    by (simp add: env accounts.view_read)
  with env show ?thesis by (rule that(2))
next
  case False
  then show ?thesis
    by (intro that(1)) (auto simp: accounts.view_read split: read_result.split option.split)
qed

lemma shutdown_accounts: "accounts (shutdown sv) = accounts sv" "accounts (on_signal err sv) = accounts sv"
proof -
  show shut: "accounts (shutdown sv) = accounts sv" for sv by (rule accounts_same) (rule shutdown_stores)
  then show "accounts (on_signal err sv) = accounts sv" by (simp add: on_signal_def)
qed

lemma step_accounts:
  assumes "server_step w sv r e sv'"
  obtains "accounts sv' = accounts sv"
  | i data env where "e = Read_Done i (Frame data)" "parse_envelope (codec w) data = Some env"
      "account_step w sv i env (accounts sv')"
  using assms
proof cases
  case (accept ip ep)
  then show ?thesis using that(1) accounts_same do_accept_stores by metis
next
  case (read i res)
  then show ?thesis using read_accounts [of w r i res sv] that by metis
next
  case (admin c ps st)
  from admin_states [of sv w r st c ps] have "accounts sv' = accounts sv"
    unfolding admin by cases (simp_all add: accounts_def fun_eq_iff disconnect_def set_max_connections_def
      set_rate_limits_def set_motd_def)
  then show ?thesis by (rule that(1))
qed (simp_all add: shutdown_accounts that(1))

text \<open>
  C4: An account is pinned to its identity key: when a step of the server changes the key of an existing
  account, it handles an authentication response for that user, signed with the new key, whose password is
  the account's; and when a step removes an account it handles a command of the user \<open>admin\<close>.
\<close>

theorem account_pinned:
  assumes "server_step w sv r e sv'" "accounts sv u = Some k" "accounts sv' u \<noteq> Some k"
  shows "\<exists>i data env. e = Read_Done i (Frame data) \<and> parse_envelope (codec w) data = Some env \<and>
    (case accounts sv' u of
       None \<Rightarrow> env_type env = MT_COMMAND \<and> session_user i sv = ''admin''
     | Some k' \<Rightarrow> env_type env = MT_AUTH_RESPONSE \<and>
         (\<exists>auth. parse_payload (parse_auth (codec w)) env = Some auth \<and> ar_user_id auth = u \<and>
            ar_identity_pub auth = k' \<and> login_ok w i auth sv \<and> recovered w auth (user_store sv)))"
  using assms(1)
proof (cases rule: step_accounts)
  case (2 i data env)
  from 2(3) have "case accounts sv' u of
       None \<Rightarrow> env_type env = MT_COMMAND \<and> session_user i sv = ''admin''
     | Some k' \<Rightarrow> env_type env = MT_AUTH_RESPONSE \<and>
         (\<exists>auth. parse_payload (parse_auth (codec w)) env = Some auth \<and> ar_user_id auth = u \<and>
            ar_identity_pub auth = k' \<and> login_ok w i auth sv \<and> recovered w auth (user_store sv))"
  proof (rule account_stepE)
    assume "env_type env = MT_COMMAND" "session_user i sv = ''admin''" "accounts sv' \<subseteq>\<^sub>m accounts sv"
    then have "accounts sv' u = None" using assms(2,3) by (metis domIff map_le_def)
    with \<open>env_type env = MT_COMMAND\<close> \<open>session_user i sv = ''admin''\<close> show ?thesis by simp
  qed (use assms(2,3) in \<open>auto split: if_splits\<close>)
  with 2 show ?thesis by blast
qed (use assms in simp)

definition recovery_world :: world where
  "recovery_world = run_world\<lparr>codec := run_codec\<lparr>parse_auth := (\<lambda>b. Some \<lparr>ar_user_id = ''al'',
     ar_identity_pub = replicate 32 5, ar_signature = replicate 64 6, ar_signed_prekey = [], ar_spk_sig = [],
     ar_password = ''pw''\<rparr>)\<rparr>, pw_check := (\<lambda>h pw. pw = ''pw'')\<rparr>"

definition recovery_start :: server where
  "recovery_start = run_greeted\<lparr>user_store := empty_user_db\<lparr>users :=
     [''al'' \<mapsto> \<lparr>identity_pub = replicate 32 1, password_hash = Some [1], created_at = 0\<rparr>]\<rparr>\<rparr>"

theorem account_pinned_witness:
  "\<exists>auth. ar_identity_pub auth = replicate 32 5 \<and> login_ok recovery_world 0 auth recovery_start \<and>
     recovered recovery_world auth (user_store recovery_start)"
proof -
  let ?sv' = "on_read recovery_world demo_readings 0 (Frame [3, 0]) recovery_start"
  have s: "sessions recovery_start = [0 \<mapsto> (new_session ''h'')\<lparr>s_state := Auth_Pending, s_next_seq := 2,
      s_nonce := replicate 32 7\<rparr>]" "by_user recovery_start = Map.empty"
    by (simp_all add: recovery_start_def run_greeted_eq)
  have step: "server_step recovery_world recovery_start demo_readings (Read_Done 0 (Frame [3, 0])) ?sv'"
    by (rule server_step.read) (simp_all add: outstanding_def state_of_session_def s new_session_def)
  have old: "accounts recovery_start ''al'' = Some (replicate 32 1)"
    by (simp add: accounts_of_def recovery_start_def)
  let ?auth = "\<lparr>ar_user_id = ''al'', ar_identity_pub = replicate 32 5, ar_signature = replicate 64 6,
    ar_signed_prekey = [], ar_spk_sig = [], ar_password = ''pw''\<rparr>"
  have "login_ok recovery_world 0 ?auth (set_reading False 0 recovery_start)"
    by (simp add: login_ok_reading)
       (simp add: login_ok_def is_valid_user_id_def is_nickname_available_def recovery_world_def run_world_def
         demo_world_def s)
  moreover have "parse_envelope (codec recovery_world) [3, 0] = Some (plain_envelope MT_AUTH_RESPONSE [0])"
    "parse_payload (parse_auth (codec recovery_world)) (plain_envelope MT_AUTH_RESPONSE [0]) = Some ?auth"
    by (simp_all add: recovery_world_def run_codec_def parse_payload_def plain_envelope_def)
  then have "accounts ?sv' = accounts (state_of (handle_auth_response recovery_world demo_readings 0 ?auth
      (set_reading False 0 recovery_start)))"
    by (simp add: on_read_def on_frame_received_def handle_envelope_def plain_envelope_def state_of_session_def
        set_reading_def upd_session_def s new_session_def Let_def)
  moreover have "user_store (set_reading False 0 recovery_start) = user_store recovery_start"
    by (simp add: set_reading_def frame_simps)
  ultimately have "accounts ?sv' ''al'' = Some (replicate 32 5)"
    by (simp add: accounts_auth_response auth_account_def find_by_id_def recovery_start_def demo_readings_def
        has_password_def verify_password_def clear_key_material_def update_identity_key_def store_offered_spk_def
        recovery_world_def empty_user_db_def accounts_of_def Let_def)
  then show ?thesis using account_pinned [OF step old] by auto
qed

end
