(* ===== verification/Delivery.thy ===== *)
theory Delivery
  imports System
begin

text \<open>
  Messages end to end: what becomes of a chat message that the server accepts, and what a user finds at the
  next login.
\<close>

section \<open>A login\<close>

lemma sent_send_offline:
  "sent (send_offline w i ps sv) = sent sv @ map (Pair i) (List.map_filter (parse_envelope (codec w)) ps)"
  by (induction ps arbitrary: sv) (simp_all add: map_filter_simps send_env_def split: option.split)

lemma offline_store_frames [simp]:
  "offline_store (send_envelope w r i t m sv) = offline_store sv" "offline_store (send_offline w i ps sv) = offline_store sv"
  "offline_store (broadcast_presence w r u ps0 ex sv) = offline_store sv"
  "offline_store (on_session_authenticated w r i sv) = offline_store sv"
  "offline_store (set_state st i sv) = offline_store sv" "offline_store (start_ping_timer i sv) = offline_store sv"
  "offline_store (next_read i sv) = offline_store sv" "offline_store (set_reading b i sv) = offline_store sv"
  "offline_store (greeted w r i u sv) = offline_store sv" "offline_store (send_error w r i code msg sv) = offline_store sv"
proof -
  have env: "offline_store (send_envelope w r i t m sv) = offline_store sv" for t m sv
    by (simp add: send_envelope_def send_env_def frame_simps split: option.split)
  show "offline_store (send_envelope w r i t m sv) = offline_store sv"
    "offline_store (send_error w r i code msg sv) = offline_store sv" by (simp_all add: env send_error_def)
  show "offline_store (send_offline w i ps sv) = offline_store sv"
    by (induction ps arbitrary: sv) (simp_all add: send_env_def split: option.split)
  show "offline_store (broadcast_presence w r u ps0 ex sv) = offline_store sv"
    by (simp add: broadcast_presence_def broadcast_eq)
  show "offline_store (on_session_authenticated w r i sv) = offline_store sv"
    by (simp add: on_session_authenticated_def snapshot_eq register_session_def disconnect_def Let_def split: option.split)
  have st: "offline_store (set_state st i sv) = offline_store sv" for st sv by (simp add: set_state_def frame_simps)
  show "offline_store (set_state st i sv) = offline_store sv" "offline_store (start_ping_timer i sv) = offline_store sv"
    "offline_store (next_read i sv) = offline_store sv" "offline_store (set_reading b i sv) = offline_store sv"
    by (simp_all add: st start_ping_timer_def reset_ping_timer_def next_read_def set_reading_def frame_simps)
  show "offline_store (greeted w r i u sv) = offline_store sv"
    by (simp add: greeted_def Let_def env st frame_simps)
qed

lemma auth_success_delivers:
  assumes "fetch_fault_at r = No_Fault" "ids_ok (offline_store sv)"
  shows "\<exists>pre post. sent (auth_success w r i u sv) = sent sv @ pre @
      map (Pair i) (List.map_filter (parse_envelope (codec w)) (pending (unix_time r) u (offline_store sv))) @ post"
    and "pending now u (offline_store (auth_success w r i u sv)) = []"
proof -
  let ?sv1 = "on_session_authenticated w r i (greeted w r i u sv)"
  obtain msgs db where f: "fetch_and_delete No_Fault (unix_time r) u (offline_store sv) = (msgs, db)" by fastforce
  with fetch_all [OF assms(2), of "unix_time r" u] have msgs: "msgs = pending (unix_time r) u (offline_store sv)" by simp
  have start: "sends (\<lambda>_ _. True) sv (greeted w r i u sv)"
    by (auto simp: greeted_def Let_def intro!: sends_intros)
  have "sends (\<lambda>_ _. True) sv ?sv1"
    unfolding on_session_authenticated_def Let_def by (rule sends_snapshot) (simp_all add: start)
  then obtain pre where pre: "sent ?sv1 = sent sv @ pre" by (auto simp: sends_def)
  show "\<exists>pre post. sent (auth_success w r i u sv) = sent sv @ pre @
      map (Pair i) (List.map_filter (parse_envelope (codec w)) (pending (unix_time r) u (offline_store sv))) @ post"
    by (rule exI [of _ pre])
       (simp add: auth_success_eq Let_def frame_simps assms(1) f msgs broadcast_presence_def broadcast_eq
         sent_send_offline pre)
  have "pending now u db = []" using fetch_pending [of now u "unix_time r" u "offline_store sv"] by (simp add: f)
  then show "pending now u (offline_store (auth_success w r i u sv)) = []"
    by (simp add: auth_success_eq Let_def frame_simps assms(1) f)
qed

text \<open>The step that logs a session in.\<close>

lemma login_step:
  assumes "registry_ok sv" "server_step w sv r e sv'"
    and "state_of_session i sv \<noteq> Established" "state_of_session i sv' = Established"
  obtains u db where "session_user i sv' = u"
    "sv' = next_read i (auth_success w r i u ((set_reading False i sv)\<lparr>user_store := db\<rparr>))"
proof -
  have "protocol w sv r e i (session_view sv i) (session_view sv' i)" using assms(1,2) by (rule step_protocol)
  then obtain data where e: "e = Read_Done i (Frame data)" and pend: "state_of_session i sv = Auth_Pending"
    using assms(3,4) by (cases rule: protocolE) (auto simp: view_state)
  let ?sv = "set_reading False i sv"
  have sv': "sv' = next_read i (on_frame_received w r i data ?sv)"
    using assms(2) unfolding e by (rule read_stepE) (simp add: on_read_def)
  have view: "session_view ?sv = session_view sv" by (simp add: reading_view)
  have now: "state_of_session i (on_frame_received w r i data ?sv) = Established"
    using assms(4) by (simp add: sv' view_state reading_view)
  obtain env where env: "parse_envelope (codec w) data = Some env"
    "on_frame_received w r i data ?sv = state_of (handle_envelope w r i env ?sv)"
  proof (cases "parse_envelope (codec w) data")
    case None
    then have "session_view (on_frame_received w r i data ?sv) = session_view sv"
      using view by (simp add: on_frame_received_def reading_view)
    with now pend show ?thesis by (simp add: view_state)
  qed (simp add: on_frame_received_def)
  show ?thesis
  proof (cases rule: envelope_cases [of w r i env ?sv])
    case 1
    with env(2) have "session_view (on_frame_received w r i data ?sv) = session_view sv"
      by (simp add: view_of_registry [OF 1] view)
    with now pend show ?thesis by (simp add: view_state)
  next
    case (2 sv1)
    with pend show ?thesis by (simp add: view_state view)
  next
    case (3 auth db)
    have some: "session_view (?sv\<lparr>user_store := db\<rparr>) i \<noteq> None"
      using pend by (auto simp: view_user_store view view_state split: option.splits)
    have "session_user i sv' = ar_user_id auth"
      by (simp add: sv' env(2) 3(6) view_user reading_view auth_success_view [OF some])
    moreover have "sv' = next_read i (auth_success w r i (ar_user_id auth) (?sv\<lparr>user_store := db\<rparr>))"
      by (simp add: sv' env(2) 3(6))
    ultimately show ?thesis by (rule that)
  qed
qed



section \<open>A chat message\<close>

lemma fields_unread [simp]:
  "by_user (set_reading b i sv) = by_user sv" "by_user (next_read i sv) = by_user sv"
  "session_user j (set_reading b i sv) = session_user j sv"
  "state_of_session j (set_reading b i sv) = state_of_session j sv"
  by (simp_all add: set_reading_def next_read_def frame_simps session_user_def state_of_session_def sessions_upd
      split: option.split)

lemma msg_allowed_fields:
  assumes "msg_allowed r i sv = (ok, sv')"
  shows "sent sv' = sent sv" "offline_store sv' = offline_store sv" "by_user sv' = by_user sv"
    "session_user j sv' = session_user j sv"
  using assms
  by (auto simp: msg_allowed_def frame_simps session_user_def sessions_upd split: option.splits prod.splits if_splits)

lemma save_pending:
  assumes "save f t u p db = (True, db')" "now < t + kTtlSeconds"
  shows "\<exists>older. pending now u db' = older @ [p]"
  using assms by (auto simp: save_def Let_def pending_insert split: if_splits)

lemma error_sent:
  assumes "sessions sv i \<noteq> None"
  shows "\<exists>err. sent (send_error w r i code msg sv) = sent sv @ [(i, err)] \<and> env_type err = MT_ERROR"
  using assms by (auto simp: send_error_def send_envelope_def send_env_def frame_simps)

text \<open>A chat message that the server takes: authentic, within the rate, to a user.\<close>

definition takes_chat :: "world \<Rightarrow> readings \<Rightarrow> session_id \<Rightarrow> bytes \<Rightarrow> envelope \<Rightarrow> user_id \<Rightarrow> server \<Rightarrow> bool" where
  "takes_chat w r i data env v sv \<longleftrightarrow>
     state_of_session i sv = Established \<and> parse_envelope (codec w) data = Some env \<and>
     env_type env = MT_CHAT_ENVELOPE \<and> fst (msg_allowed r i sv) \<and>
     (\<exists>chat. parse_payload (parse_chat (codec w)) env = Some chat \<and> ch_sender_id chat = session_user i sv \<and>
        ch_recipient_id chat = v) \<and> v \<noteq> [] \<and> \<not> is_channel_recipient v"

lemma chat_handled:
  assumes "takes_chat w r i data env v sv"
  shows "\<exists>sv1 chat. sent sv1 = sent sv \<and> offline_store sv1 = offline_store sv \<and> by_user sv1 = by_user sv \<and>
    sessions sv1 i \<noteq> None \<and> ch_recipient_id chat = v \<and> ch_sender_id chat = session_user i sv1 \<and>
    on_frame_received w r i data sv = handle_chat w r i chat env sv1"
proof -
  obtain chat where chat: "parse_payload (parse_chat (codec w)) env = Some chat" "ch_sender_id chat = session_user i sv"
    "ch_recipient_id chat = v" using assms by (auto simp: takes_chat_def)
  obtain sv1 where sv1: "msg_allowed r i sv = (True, sv1)"
    using assms by (cases "msg_allowed r i sv") (auto simp: takes_chat_def)
  have "on_frame_received w r i data sv = handle_chat w r i chat env sv1"
    using assms sv1 chat(1) by (simp add: takes_chat_def on_frame_received_def handle_envelope_def)
  moreover have "sessions sv1 i \<noteq> None"
    using assms sv1 by (auto simp: takes_chat_def msg_allowed_def state_of_session_def sessions_upd
        split: option.splits prod.splits)
  ultimately show ?thesis
    using chat msg_allowed_fields [OF sv1] by (intro exI [of _ sv1] exI [of _ chat]) simp
qed

lemma takes_chat_reading: "takes_chat w r i data env v (set_reading b i sv) = takes_chat w r i data env v sv"
proof -
  have "fst (msg_allowed r i (set_reading b i sv)) = fst (msg_allowed r i sv)"
    by (simp add: msg_allowed_def set_reading_def sessions_upd split: option.split prod.split)
  then show ?thesis by (simp add: takes_chat_def)
qed

text \<open>What the step does: it writes the message, or keeps it, or tells the sender that it cannot.\<close>

lemma chat_step:
  assumes "server_step w sv r (Read_Done i (Frame data)) sv'" "takes_chat w r i data env v sv"
  obtains (online) j where "find_session v sv = Some j" "sent sv' = sent sv @ [(j, env)]"
  | (kept) db where "find_session v sv = None" "offline_store sv' = db" "sent sv' = sent sv"
      "save (save_faults_at r [] v) (unix_time r) v (ser_envelope (codec w) env) (offline_store sv) = (True, db)"
  | (refused) err where "find_session v sv = None" "sent sv' = sent sv @ [(i, err)]" "env_type err = MT_ERROR"
proof -
  let ?sv = "set_reading False i sv"
  have sv': "sv' = next_read i (on_frame_received w r i data ?sv)"
    using assms(1) by (rule read_stepE) (simp add: on_read_def)
  obtain sv1 chat where c: "sent sv1 = sent sv" "offline_store sv1 = offline_store sv" "by_user sv1 = by_user sv"
    "sessions sv1 i \<noteq> None" "ch_recipient_id chat = v" "ch_sender_id chat = session_user i sv1"
    "on_frame_received w r i data ?sv = handle_chat w r i chat env sv1"
    using chat_handled [of w r i data env v ?sv] assms(2) by (auto simp: takes_chat_reading)
  have v: "v \<noteq> []" "\<not> is_channel_recipient v" using assms(2) by (simp_all add: takes_chat_def)
  have found: "find_session v sv1 = find_session v sv" by (simp add: find_session_def c)
  show thesis
  proof (cases "find_session v sv")
    case (Some j)
    then show thesis using c v found by (intro online) (simp_all add: sv' handle_chat_def send_env_def)
  next
    case None
    obtain ok db where s: "save (save_faults_at r [] v) (unix_time r) v (ser_envelope (codec w) env) (offline_store sv1) = (ok, db)"
      by fastforce
    let ?sv2 = "sv1\<lparr>offline_store := db\<rparr>"
    have h: "handle_chat w r i chat env sv1 =
        (if ok then ?sv2 else send_error w r i 4034 ''Recipient offline queue full'' ?sv2)"
      using c v None found by (simp add: handle_chat_def save_offline_def s [unfolded c(2)])
    show thesis
    proof (cases ok)
      case True
      with None s show thesis by (intro kept) (simp_all add: sv' c(1,2,7) h)
    next
      case False
      have "\<exists>err. sent (send_error w r i 4034 ''Recipient offline queue full'' ?sv2) = sent ?sv2 @ [(i, err)] \<and>
          env_type err = MT_ERROR" using c(4) by (intro error_sent) simp
      with None False show thesis by (auto intro: refused simp: sv' c(1,7) h)
    qed
  qed
qed

text \<open>
  C6: No direct message is lost silently: a chat message that the server takes is written to the session of
  its recipient as it came; or, when the recipient is not connected, it is the newest message in their
  mailbox for seven days (unless it is fetched or evicted); or its sender is sent an error.
\<close>

theorem chat_not_lost:
  assumes "server_step w sv r (Read_Done i (Frame data)) sv'" "takes_chat w r i data env v sv"
    and "now < unix_time r + 7 * 24 * 3600"
  shows "(case find_session v sv of
      Some j \<Rightarrow> sent sv' = sent sv @ [(j, env)]
    | None \<Rightarrow>
        (\<exists>older. pending now v (offline_store sv') = older @ [ser_envelope (codec w) env]) \<or>
        (\<exists>err. sent sv' = sent sv @ [(i, err)] \<and> env_type err = MT_ERROR))"
proof (cases rule: chat_step [OF assms(1,2), case_names online kept refused])
  case (kept db)
  have "\<exists>older. pending now v db = older @ [ser_envelope (codec w) env]"
    using kept(4) assms(3) by (intro save_pending) (simp_all add: kTtlSeconds_def)
  with kept show ?thesis by simp
qed auto

definition chat_world :: world where
  "chat_world = run_world\<lparr>codec := run_codec\<lparr>parse_envelope := (\<lambda>_. Some (plain_envelope MT_CHAT_ENVELOPE [1])),
     parse_chat := (\<lambda>_. Some \<lparr>ch_sender_id = ''al'', ch_recipient_id = ''bo'', ch_ciphertext = [1]\<rparr>)\<rparr>\<rparr>"

definition chat_start :: server where
  "chat_start = initial_server\<lparr>sessions := [0 \<mapsto> (new_session ''h'')\<lparr>s_state := Established, s_user := ''al''\<rparr>]\<rparr>"

theorem chat_not_lost_witness:
  "let sv' = on_read chat_world demo_readings 0 (Frame [9]) chat_start
   in (\<exists>older. pending 0 ''bo'' (offline_store sv') =
          older @ [ser_envelope (codec chat_world) (plain_envelope MT_CHAT_ENVELOPE [1])]) \<or>
      (\<exists>err. sent sv' = sent chat_start @ [(0, err)] \<and> env_type err = MT_ERROR)"
proof -
  let ?sv' = "on_read chat_world demo_readings 0 (Frame [9]) chat_start"
  have "server_step chat_world chat_start demo_readings (Read_Done 0 (Frame [9])) ?sv'"
    by (rule server_step.read) (simp_all add: outstanding_def state_of_session_def chat_start_def new_session_def)
  moreover have "takes_chat chat_world demo_readings 0 [9] (plain_envelope MT_CHAT_ENVELOPE [1]) ''bo'' chat_start"
    by (simp add: takes_chat_def chat_world_def chat_start_def state_of_session_def session_user_def plain_envelope_def
        msg_allowed_def new_session_def parse_payload_def is_channel_recipient_def)
  moreover have "find_session ''bo'' chat_start = None" by (simp add: find_session_def chat_start_def initial_server_def)
  ultimately show ?thesis
    using chat_not_lost [of chat_world chat_start demo_readings 0 "[9]" ?sv' "plain_envelope MT_CHAT_ENVELOPE [1]" "''bo''" 0]
    by (simp add: demo_readings_def Let_def)
qed

end
