(* ===== verification/Isolation.thy ===== *)
theory Isolation
  imports Delivery Onlooker
begin

text \<open>
  Sessions do not interfere: the handlers of one session leave the objects of all the others as they are.
  With it, how long a session lives and how a silent client is found out.
\<close>

section \<open>The other sessions\<close>

definition others :: "session_id \<Rightarrow> server \<Rightarrow> session_id \<rightharpoonup> session" where
  "others i sv = (sessions sv)(i := None)"

interpretation others: detached "others i" i for i
  by unfold_locales (simp_all add: others_def fun_eq_iff sessions_upd)

section \<open>Steps\<close>

text \<open>The session whose handler an event is.\<close>

fun handler_of :: "event \<Rightarrow> session_id option" where
  "handler_of (Handshake_Done i ok) = Some i"
| "handler_of (Read_Done i res) = Some i"
| "handler_of (Write_Failed i) = Some i"
| "handler_of (Ping_Fires i) = Some i"
| "handler_of (Close_Runs i) = Some i"
| "handler_of _ = None"

lemma others_D: "others i sv' = others i sv \<Longrightarrow> j \<noteq> i \<Longrightarrow> sessions sv' j = sessions sv j"
  by (auto simp: others_def dest: fun_cong [where x = j])

lemma step_isolated:
  assumes ok: "registry_ok sv" and step: "server_step w sv r e sv'"
    and there: "sessions sv j \<noteq> None" and other: "handler_of e \<noteq> Some j"
  shows "sessions sv' j = sessions sv j"
  using step
proof cases
  case (accept ip ep)
  have "j \<noteq> next_session sv" using ok there by (auto simp: registry_ok_def)
  then show ?thesis by (simp add: accept(2) do_accept_def Let_def split: prod.split bool.split)
next
  case (admin c ps st)
  from admin_states [of sv w r st c ps] show ?thesis
    unfolding admin by cases (simp_all add: disconnect_def set_max_connections_def set_rate_limits_def set_motd_def)
qed (use other in \<open>auto simp: others.view_events [THEN others_D] others.view_talk [THEN others_D] others.view_any_read [THEN others_D] on_signal_def shutdown_def run_cleanup_def\<close>)

text \<open>
  C15: A handler of one session leaves the objects of the other sessions alone: their states, users, nonces,
  counters, limiters, uploads and timers are the same after it.
\<close>

theorem sessions_isolated:
  assumes "reachable w sv" "server_step w sv r e sv'" "handler_of e \<noteq> Some j" "sessions sv j = Some s"
  shows "sessions sv' j = Some s"
  using step_isolated [OF reachable_registry [OF assms(1)] assms(2), of j] assms(3,4) by simp

text \<open>A second client connects while the first is waiting for its authentication.\<close>

theorem sessions_isolated_witness:
  "sessions (snd (do_accept demo_readings ''10.0.0.2'' ''g'' run_greeted)) 0 = sessions run_greeted 0"
proof -
  have "\<not> shutting_down run_accepted"
    by (simp add: run_accepted_def run_start_def start_server_def new_server_def run_listener_def default_config_def
      set_ping_intervals_def set_rate_limits_def set_max_connections_def set_motd_def initial_server_def
      do_accept_def new_rate_limiter_def allow_def demo_readings_def Let_def minutes_def)
  then have "\<not> shutting_down run_secured"
    by (simp add: run_secured_def on_handshake_def next_read_def set_reading_def set_state_def upd_session_def
        run_accepted_eq state_of_session_def new_session_def Let_def)
  then have "\<not> shutting_down run_greeted"
    by (simp add: run_greeted_def on_read_def on_frame_received_def handle_envelope_def handle_hello_def
      parse_payload_def run_world_def demo_world_def run_codec_def plain_envelope_def kProtocolVersion_def
      send_envelope_def send_env_def next_read_def set_reading_def set_state_def upd_session_def demo_readings_def
      run_secured_eq state_of_session_def new_session_def Let_def)
  then have "server_step run_world run_greeted demo_readings (Accept ''10.0.0.2'' ''g'')
      (snd (do_accept demo_readings ''10.0.0.2'' ''g'' run_greeted))"
    by (rule server_step.accept)
  from sessions_isolated [OF run_greeted_reachable this, of 0] show ?thesis by (simp add: run_greeted_eq)
qed

section \<open>The life of a session\<close>

fun life_rank :: "(session_state \<times> user_id) option \<Rightarrow> nat" where
  "life_rank None = 0"
| "life_rank (Some (Handshake, u)) = 1"
| "life_rank (Some (Hello, u)) = 2"
| "life_rank (Some (Auth_Pending, u)) = 3"
| "life_rank (Some (Established, u)) = 4"
| "life_rank (Some (Dead, u)) = 5"

lemma life_rank_le: "life_rank v \<le> 5"
  by (cases v rule: life_rank.cases) simp_all

lemma protocol_rank: "protocol w sv r e i v v' \<Longrightarrow> v' = v \<or> life_rank v < life_rank v'"
proof (erule protocolE)
  fix st u assume "v = Some (st, u)" "v' = Some (Dead, u)"
  then show ?thesis by (cases st) simp_all
qed simp_all

text \<open>A run of the server: the states it was in, the latest first.\<close>

inductive run :: "world \<Rightarrow> server list \<Rightarrow> bool" for w where
  begins: "reachable w sv \<Longrightarrow> run w [sv]"
| steps: "run w (sv # svs) \<Longrightarrow> server_step w sv r e sv' \<Longrightarrow> run w (sv' # sv # svs)"

lemma run_reachable: "run w svs \<Longrightarrow> reachable w (hd svs)"
  by (induction rule: run.induct) (auto intro: reachable.step)

lemma run_changes:
  "run w svs \<Longrightarrow> length (remdups_adj (map (\<lambda>sv. session_view sv i) svs)) \<le> life_rank (session_view (hd svs) i) + 1"
proof (induction rule: run.induct)
  case (steps sv svs r e sv')
  have "registry_ok sv" using run_reachable [OF steps(1)] by (simp add: reachable_registry)
  from step_protocol [OF this steps(2), of i]
  have "session_view sv' i = session_view sv i \<or> life_rank (session_view sv i) < life_rank (session_view sv' i)"
    by (rule protocol_rank)
  with steps.IH show ?case by auto
qed simp

text \<open>
  C17: Every session comes to an end of its protocol: in a run of any length the state and the user of a
  session change at most five times, so from some step on they stay as they are.
\<close>

theorem session_life_ends:
  assumes "run w svs"
  shows "length (remdups_adj (map (\<lambda>sv. session_view sv i) svs)) \<le> 6"
  using run_changes [OF assms, of i] life_rank_le [of "session_view (hd svs) i"] by linarith

theorem session_life_ends_witness:
  "remdups_adj (map (\<lambda>sv. session_view sv 0) [run_logged_in, run_greeted]) =
     [Some (Established, ''al''), Some (Auth_Pending, [])] \<and>
   length (remdups_adj (map (\<lambda>sv. session_view sv 0) [run_logged_in, run_greeted])) \<le> 6"
proof -
  have "run run_world [run_logged_in, run_greeted]"
    using run.steps [OF run.begins [OF run_greeted_reachable] run_login_step] .
  from session_life_ends [OF this] show ?thesis by (simp add: run_logged_in_view run_greeted_view)
qed

section \<open>A silent client\<close>

text \<open>Any number of steps, none of them a handler of session \<open>i\<close>.\<close>

definition quietly :: "world \<Rightarrow> session_id \<Rightarrow> server \<Rightarrow> server \<Rightarrow> bool" where
  "quietly w i = (\<lambda>a b. \<exists>r e. server_step w a r e b \<and> handler_of e \<noteq> Some i)\<^sup>*\<^sup>*"

lemma quietly_same:
  assumes "quietly w i a b" "reachable w a" "sessions a i \<noteq> None"
  shows "reachable w b \<and> sessions b i = sessions a i"
  using assms(1) unfolding quietly_def
proof (induction rule: rtranclp_induct)
  case (step b c)
  then obtain r e where e: "server_step w b r e c" "handler_of e \<noteq> Some i" by blast
  have "sessions c i = sessions b i"
    using step.IH e assms(3) by (intro step_isolated reachable_registry) auto
  with step.IH e show ?case by (auto intro: reachable.step)
qed (simp add: assms(2))

inductive_cases ping_stepE: "server_step w sv r (Ping_Fires i) sv'"

text \<open>
  C18: A client that has gone silent is found out: when the ping timer of an established session runs out
  the server sends it a ping, and unless something arrives from the client the timer can run out again,
  after which the session is no longer registered and its user no longer online.
\<close>

theorem silent_client_dropped:
  assumes "reachable w sv" "sessions sv i = Some s" "s_state s = Established" "s_timer s = Interval_Timer"
    and "\<not> s_ping_sent s" and "server_step w sv r (Ping_Fires i) sv1" and "quietly w i sv1 sv2"
  shows "(\<exists>ping. sent sv1 = sent sv @ [(i, ping)] \<and> env_type ping = MT_PING) \<and> timer_set i sv2 \<and>
    (\<forall>r' sv3. server_step w sv2 r' (Ping_Fires i) sv3 \<longrightarrow>
       by_session sv3 i = None \<and> find_session (s_user s) sv3 \<noteq> Some i)"
proof -
  let ?s1 = "s\<lparr>s_timer := Timeout_Timer, s_next_seq := s_next_seq s + 1, s_ping_sent := True\<rparr>"
  have sv1: "sv1 = on_ping_timer w r i sv" using assms(6) by (rule ping_stepE)
  have s1: "sessions sv1 i = Some ?s1"
    using assms(2-5) by (simp add: sv1 on_ping_timer_def frame_simps sessions_upd Let_def)
  have reach1: "reachable w sv1" using assms(1,6) by (rule reachable.step)
  have two: "reachable w sv2" "sessions sv2 i = Some ?s1"
    using quietly_same [OF assms(7) reach1] s1 by auto
  have "by_session sv3 i = None \<and> find_session (s_user s) sv3 \<noteq> Some i"
    if "server_step w sv2 r' (Ping_Fires i) sv3" for r' sv3
  proof -
    have sv3: "sv3 = on_ping_timer w r' i sv2" using that by (rule ping_stepE)
    have gone: "by_session sv3 i = None"
      using two(2) assms(3) by (simp add: sv3 on_ping_timer_def frame_simps Let_def)
    moreover have "registry_ok sv3" using reachable.step [OF two(1) that] by (rule reachable_registry)
    ultimately show ?thesis by (auto simp: find_session_def registry_inverse)
  qed
  moreover have "\<exists>ping. sent sv1 = sent sv @ [(i, ping)] \<and> env_type ping = MT_PING"
    using assms(2-5) by (simp add: sv1 on_ping_timer_def send_env_def frame_simps Let_def)
  ultimately show ?thesis using two(2) by (simp add: timer_set_def)
qed

text \<open>A login leaves the session with its interval timer set and no ping outstanding.\<close>

lemma login_session:
  assumes "sessions sv i \<noteq> None"
  shows "\<exists>s. sessions (auth_success w r i u sv) i = Some s \<and> s_state s = Established \<and> s_user s = u \<and>
    s_timer s = Interval_Timer \<and> \<not> s_ping_sent s"
proof -
  obtain s where "sessions sv i = Some s" using assms by auto
  from this obtain n where g: "sessions (greeted w r i u sv) i = Some (s\<lparr>s_user := u, s_state := Established, s_next_seq := n\<rparr>)"
    by (rule greeted_session)
  have auth: "sessions (on_session_authenticated w r i sv') = sessions sv'" for sv'
    by (simp add: on_session_authenticated_def register_session_def snapshot_eq disconnect_def Let_def split: option.split)
  have mail: "sessions (send_offline w i ms sv') = sessions sv'" for ms sv'
    by (induction ms arbitrary: sv') (simp_all add: frame_simps split: option.split)
  have presence: "sessions (broadcast_presence w r u st ex sv') = sessions sv'" for st ex sv'
    by (simp add: broadcast_presence_def broadcast_eq)
  show ?thesis
    by (simp add: auth_success_eq presence mail auth g start_ping_timer_def reset_ping_timer_def sessions_upd Let_def
        split: prod.split)
qed

lemma run_logged_in_session:
  "\<exists>s. sessions run_logged_in 0 = Some s \<and> s_state s = Established \<and> s_user s = ''al'' \<and>
     s_timer s = Interval_Timer \<and> \<not> s_ping_sent s"
proof -
  have "state_of_session 0 run_greeted \<noteq> Established" "state_of_session 0 run_logged_in = Established"
    by (simp_all add: view_state run_greeted_view run_logged_in_view)
  then obtain u db where u: "session_user 0 run_logged_in = u"
    and eq: "run_logged_in = next_read 0 (auth_success run_world demo_readings 0 u ((set_reading False 0 run_greeted)\<lparr>user_store := db\<rparr>))"
    using login_step [OF reachable_registry [OF run_greeted_reachable] run_login_step] by metis
  have "u = ''al''" using u by (simp add: view_user run_logged_in_view)
  moreover have "sessions ((set_reading False 0 run_greeted)\<lparr>user_store := db\<rparr>) 0 \<noteq> None"
    by (simp add: set_reading_def sessions_upd run_greeted_eq)
  ultimately show ?thesis
    using login_session [of "(set_reading False 0 run_greeted)\<lparr>user_store := db\<rparr>" 0 run_world demo_readings u]
    by (auto simp: eq next_read_def set_reading_def sessions_upd)
qed

theorem silent_client_dropped_witness:
  "\<exists>sv. (\<exists>ping. sent sv = sent run_logged_in @ [(0, ping)] \<and> env_type ping = MT_PING) \<and>
     find_session ''al'' (on_ping_timer run_world demo_readings 0 sv) \<noteq> Some 0"
proof -
  obtain s where s: "sessions run_logged_in 0 = Some s" "s_state s = Established" "s_user s = ''al''"
    "s_timer s = Interval_Timer" "\<not> s_ping_sent s" using run_logged_in_session by blast
  let ?sv = "on_ping_timer run_world demo_readings 0 run_logged_in"
  have "server_step run_world run_logged_in demo_readings (Ping_Fires 0) ?sv"
    by (rule server_step.ping) (simp add: timer_set_def s)
  moreover have "quietly run_world 0 ?sv ?sv" by (simp add: quietly_def)
  ultimately have "(\<exists>ping. sent ?sv = sent run_logged_in @ [(0, ping)] \<and> env_type ping = MT_PING) \<and> timer_set 0 ?sv \<and>
      (\<forall>r' sv3. server_step run_world ?sv r' (Ping_Fires 0) sv3 \<longrightarrow>
         by_session sv3 0 = None \<and> find_session (s_user s) sv3 \<noteq> Some 0)"
    by (rule silent_client_dropped [OF run_logged_in_reachable s(1,2,4,5)])
  then show ?thesis using server_step.ping [of 0 ?sv run_world demo_readings] s(3) by (intro exI [of _ ?sv]) auto
qed

end
