(* ===== verification/Strangers.thy ===== *)
theory Strangers
  imports Isolation
begin

text \<open>
  Clients that have not authenticated: until a session is established nothing it sends reaches the shared state
  of the server or another client.
\<close>

section \<open>The shared state\<close>

definition shared :: "server \<Rightarrow> command_state \<times> offline_db \<times> file_db \<times> voice_state \<times> scanner_manager \<times>
    (user_id \<rightharpoonup> session_id) \<times> (session_id \<rightharpoonup> user_id)" where
  "shared sv = (commands sv, offline_store sv, file_store sv, voice_rooms sv, scanner sv, by_user sv, by_session sv)"

interpretation shared: own_view shared i for i
  by unfold_locales (simp_all add: shared_def frame_simps)

lemma shared_accounts [simp]:
  "shared (sv\<lparr>user_store := db\<rparr>) = shared sv" "shared (sv\<lparr>active_connections := n\<rparr>) = shared sv"
  by (simp_all add: shared_def)

text \<open>What a step of a stranger does: the shared state is the same and it writes to nobody else.\<close>

definition harmless :: "session_id \<Rightarrow> server \<Rightarrow> server \<Rightarrow> bool" where
  "harmless i sv sv' \<longleftrightarrow> shared sv' = shared sv \<and> sends (\<lambda>j e. j = i) sv sv'"

lemma harmless_refl: "harmless i sv sv"
  by (simp add: harmless_def sends_refl)

lemma harmless_disconnected:
  "by_session sv' i = None \<Longrightarrow> harmless i sv sv' \<Longrightarrow> harmless i sv (on_session_disconnected w r i sv')"
  by (auto simp: harmless_def on_session_disconnected_def)

lemma harmless_errors:
  "harmless i sv sv' \<Longrightarrow> harmless i sv (send_error w r i code msg sv')"
  "harmless i sv sv' \<Longrightarrow> harmless i sv (auth_error w r i code msg sv')"
  "harmless i sv sv' \<Longrightarrow> harmless i sv (auth_fail w r i code msg sv')"
  by (auto simp: harmless_def intro!: sends_error sends_auth_fail)

lemma harmless_hello: "harmless i sv (handle_hello w r i h sv)"
  unfolding harmless_def
  by (auto simp: handle_hello_def Let_def sends_refl intro!: sends_error sends_envelope)

lemma harmless_auth:
  "harmless i sv (state_of (handle_auth_response w r i auth sv)) \<or>
   (\<exists>db. state_of (handle_auth_response w r i auth sv) = auth_success w r i (ar_user_id auth) (sv\<lparr>user_store := db\<rparr>))"
proof -
  have db: "harmless i sv (sv\<lparr>user_store := db\<rparr>)" for db by (simp add: harmless_def sends_refl)
  show ?thesis
    by (auto simp: handle_auth_response_def Let_def db harmless_refl intro!: harmless_errors
        split: prod.split account_result.split)
qed

lemma harmless_envelope:
  assumes "state_of_session i sv \<noteq> Established"
  shows "harmless i sv (state_of (handle_envelope w r i env sv)) \<or>
    (\<exists>u db. state_of (handle_envelope w r i env sv) = auth_success w r i u (sv\<lparr>user_store := db\<rparr>))"
proof (cases "env_type env")
  case MT_AUTH_RESPONSE
  then show ?thesis
    using harmless_auth [of i sv w r]
    by (fastforce simp: handle_envelope_def Let_def harmless_refl intro!: harmless_errors split: option.split)
next
  case MT_PONG
  then show ?thesis by (simp add: handle_envelope_def Let_def harmless_def sends_refl)
qed (use assms in \<open>auto simp: handle_envelope_def Let_def harmless_refl harmless_hello intro!: harmless_errors
       split: option.split\<close>)

text \<open>A login ends with the session established.\<close>

lemma login_established:
  assumes "sessions sv i \<noteq> None"
  shows "state_of_session i (auth_success w r i u sv) = Established"
  using login_session [OF assms, of w r u] by (auto simp: state_of_session_def)

lemma harmless_next: "harmless i sv (next_read i sv') = harmless i sv sv'"
  "harmless i sv (set_reading b i sv') = harmless i sv sv'" "harmless i (set_reading b i sv) sv' = harmless i sv sv'"
  by (simp_all add: harmless_def sends_def)

text \<open>
  C3: Whoever has not logged in reaches nothing: a handler of a session that is not yet established, and that
  does not log it in, leaves the channels and nicknames, the mailboxes, the files, the voice rooms and the
  registry as they are, and writes to no other session.
\<close>

theorem strangers_harmless:
  assumes "reachable w sv" "server_step w sv r e sv'" "handler_of e = Some i"
    and "state_of_session i sv < Established" "state_of_session i sv' \<noteq> Established"
  shows "commands sv' = commands sv \<and> offline_store sv' = offline_store sv \<and> file_store sv' = file_store sv \<and>
    voice_rooms sv' = voice_rooms sv \<and> by_user sv' = by_user sv \<and> by_session sv' = by_session sv \<and>
    (\<exists>written. sent sv' = sent sv @ map (Pair i) written)"
proof -
  have gone: "by_session sv i = None"
    using reachable_registry [OF assms(1)] assms(4) by (rule unregistered)
  have drop: "harmless i sv (on_session_disconnected w r i sv1)" if "harmless i sv sv1" for sv1
    using that gone by (intro harmless_disconnected) (auto simp: harmless_def shared_def)
  have "harmless i sv sv'"
    using assms(2)
  proof cases
    case (read j res)
    then have "j = i" using assms(3) by simp
    show ?thesis
    proof (cases res)
      case (Frame data)
      let ?sv = "set_reading False i sv"
      have sv': "sv' = next_read i (on_frame_received w r i data ?sv)"
        using read \<open>j = i\<close> by (simp add: Frame on_read_def)
      show ?thesis
      proof (cases "parse_envelope (codec w) data")
        case None
        then show ?thesis
          unfolding sv' by (simp add: on_frame_received_def harmless_next harmless_errors harmless_refl)
      next
        case (Some env)
        have st: "state_of_session i ?sv = state_of_session i sv" by simp
        then have "state_of_session i ?sv \<noteq> Established" using assms(4) by simp
        from harmless_envelope [OF this, of w r env] show ?thesis
        proof (elim disjE exE)
          fix u db assume eq: "state_of (handle_envelope w r i env ?sv) = auth_success w r i u (?sv\<lparr>user_store := db\<rparr>)"
          have "sessions (?sv\<lparr>user_store := db\<rparr>) i \<noteq> None"
            using read \<open>j = i\<close> by (auto simp: outstanding_def set_reading_def sessions_upd split: option.splits)
          from login_established [OF this, of w r u] assms(5) show ?thesis
            by (simp add: sv' on_frame_received_def Some eq next_read_def)
        qed (simp add: sv' on_frame_received_def Some harmless_next)
      qed
    qed (use read \<open>j = i\<close> in \<open>auto simp: on_read_def Let_def harmless_next harmless_refl intro!: drop harmless_errors\<close>)
  next
    case (handshake j ok)
    then show ?thesis using assms(3)
      by (cases ok) (simp_all add: on_handshake_def Let_def harmless_next harmless_refl drop, simp add: harmless_def sends_refl)
  next
    case (ping j)
    then have "sv' = upd_session i (\<lambda>s. s\<lparr>s_timer := No_Timer\<rparr>) sv \<or> sv' = sv"
      using assms(3,4) by (auto simp: on_ping_timer_def state_of_session_def Let_def split: option.splits ping_timer.split)
    then show ?thesis by (auto simp: harmless_def sends_refl)
  next
    case (closes j)
    then show ?thesis using assms(3) by (simp add: harmless_def) (simp add: run_disconnect_def sends_def)
  next
    case (write_failed j env)
    then show ?thesis using assms(3) by (simp add: on_write_error_def drop harmless_refl)
  qed (use assms(3) in simp_all)
  then obtain xs where "shared sv' = shared sv" "sent sv' = sent sv @ xs" "\<forall>(j, e) \<in> set xs. j = i"
    by (auto simp: harmless_def sends_def)
  moreover from this(3) have "xs = map (Pair i) (map snd xs)" by (induction xs) auto
  then have "\<exists>written. xs = map (Pair i) written" by blast
  ultimately show ?thesis by (simp add: shared_def)
qed

theorem strangers_harmless_witness:
  "\<exists>written. sent run_greeted = sent run_secured @ map (Pair 0) written"
proof -
  have "reachable run_world run_secured"
    using run_start_reachable run_accept_step run_secure_step by (blast intro: reachable.step)
  moreover have "state_of_session 0 run_secured < Established" "state_of_session 0 run_greeted \<noteq> Established"
    by (simp_all add: state_of_session_def run_secured_eq run_greeted_eq new_session_def less_session_state_def)
  ultimately show ?thesis using strangers_harmless [OF _ run_greet_step, of 0] by auto
qed

end
