(* ===== verification/Connections.thy ===== *)
theory Connections
  imports Onlooker "HOL-Library.Sublist"
begin

text \<open>
  Connections over a run of the server: how many the listener takes on from one address, whatever else happens
  in between.
\<close>

section \<open>The limiters\<close>

definition limiters :: "server \<Rightarrow> (string \<rightharpoonup> rate_limiter) \<times> int" where
  "limiters sv = (ip_limiters sv, conn_rate_per_min sv)"

interpretation limiters: detached limiters i for i
  by unfold_locales (simp_all add: limiters_def upd_session_def split: option.split)

lemma limiters_eq: "limiters sv' = limiters sv \<longleftrightarrow>
    ip_limiters sv' = ip_limiters sv \<and> conn_rate_per_min sv' = conn_rate_per_min sv"
  by (simp add: limiters_def)

text \<open>Only an accepted connection and the admin's change of the rate touch them.\<close>

lemma step_limiters:
  assumes "server_step w sv r e sv'"
  obtains ip ep where "e = Accept ip ep" "sv' = snd (do_accept r ip ep sv)"
  | "\<forall>ip ep. e \<noteq> Accept ip ep" "ip_limiters sv' = ip_limiters sv"
      "conn_rate_per_min sv' = conn_rate_per_min sv \<or> conn_rate_per_min sv' = -1"
  using assms
proof cases
  case (accept ip ep)
  then show ?thesis using that(1) by blast
next
  case (admin c ps st)
  from admin_states [of sv w r st c ps] have "ip_limiters sv' = ip_limiters sv"
    "conn_rate_per_min sv' = conn_rate_per_min sv \<or> conn_rate_per_min sv' = -1"
    unfolding admin by (cases; simp add: disconnect_def set_max_connections_def set_rate_limits_def set_motd_def)+
  with admin show ?thesis using that(2) by simp
next
  case shutdown
  then show ?thesis using that(2) by (simp add: shutdown_def)
next
  case (signal err)
  then show ?thesis using that(2) by (simp add: on_signal_def shutdown_def)
qed (simp_all add: that(2) limiters.view_events [unfolded limiters_eq] limiters.view_cleanup [unfolded limiters_eq]
    limiters.view_talk [unfolded limiters_eq] limiters.view_any_read [unfolded limiters_eq])

text \<open>A step that takes a connection on from the address \<open>ip\<close>.\<close>

definition admits :: "string \<Rightarrow> readings \<Rightarrow> event \<Rightarrow> server \<Rightarrow> bool" where
  "admits ip r e sv \<longleftrightarrow> (case e of Accept ip' ep \<Rightarrow> ip' = ip \<and> fst (do_accept r ip' ep sv) \<noteq> None | _ \<Rightarrow> False)"

text \<open>A run from a state, with the time of every step and whether it takes a connection on from \<open>ip\<close>.\<close>

inductive serving :: "world \<Rightarrow> string \<Rightarrow> server \<Rightarrow> (time \<times> bool) list \<Rightarrow> bool" for w ip where
  stops: "serving w ip sv []"
| serves: "server_step w sv r e sv' \<Longrightarrow> serving w ip sv' hist \<Longrightarrow> serving w ip sv ((steady r, admits ip r e sv) # hist)"

definition admitted_at :: "(time \<times> bool) list \<Rightarrow> time list" where
  "admitted_at hist = map fst (filter snd hist)"

lemma admitted_simps [simp]:
  "admitted_at [] = []" "admitted_at ((t, b) # hist) = (if b then t # admitted_at hist else admitted_at hist)"
  by (simp_all add: admitted_at_def)

text \<open>One attempt: not looked at when the server is full, else decided by the limiter.\<close>

definition limiter_for :: "readings \<Rightarrow> string \<Rightarrow> server \<Rightarrow> rate_limiter" where
  "limiter_for r ip sv =
     (case ip_limiters sv ip of
        None \<Rightarrow> new_rate_limiter (conn_rate_per_min sv) (minutes 1) (steady r)
      | Some rl \<Rightarrow> rl)"

lemma accept_cases:
  obtains "snd (do_accept r ip ep sv) = sv" "fst (do_accept r ip ep sv) = None"
  | "ip_limiters (snd (do_accept r ip ep sv)) = (ip_limiters sv)(ip \<mapsto> snd (allow (steady r) (limiter_for r ip sv)))"
      "fst (do_accept r ip ep sv) \<noteq> None \<longleftrightarrow> fst (allow (steady r) (limiter_for r ip sv))"
  by (cases "active_connections sv \<ge> max_connections sv")
     (auto simp: do_accept_def limiter_for_def Let_def split: prod.splits bool.splits)

lemma accept_limiters:
  "ip \<noteq> ip' \<Longrightarrow> ip_limiters (snd (do_accept r ip' ep sv)) ip = ip_limiters sv ip"
  "conn_rate_per_min (snd (do_accept r ip ep sv)) = conn_rate_per_min sv"
  by (auto simp: do_accept_def Let_def split: prod.split bool.split)

lemma known_address:
  assumes "serving w ip sv hist" "ip_limiters sv ip = Some rl"
  shows "\<exists>ts. subseq ts (map fst hist) \<and> admitted_at hist = grants allow rl ts"
  using assms
proof (induction arbitrary: rl rule: serving.induct)
  case (stops sv)
  then show ?case by (intro exI [of _ "[]"]) simp
next
  case (serves sv r e sv' hist)
  show ?case
  proof (cases "ip_limiters sv' ip = Some rl \<and> \<not> admits ip r e sv")
    case True
    then obtain ts where "subseq ts (map fst hist)" "admitted_at hist = grants allow rl ts" using serves.IH by blast
    then show ?thesis using True by (intro exI [of _ ts]) (simp add: list_emb_Cons)
  next
    case False
    have "ip_limiters sv' ip = Some (snd (allow (steady r) rl)) \<and> (admits ip r e sv \<longleftrightarrow> fst (allow (steady r) rl))"
      using serves.hyps(1)
    proof (cases rule: step_limiters)
      case (1 ip' ep)
      have "ip' = ip"
      proof (rule ccontr)
        assume "ip' \<noteq> ip"
        then show False using False 1 serves.prems by (simp add: admits_def accept_limiters)
      qed
      with 1 serves.prems False show ?thesis
        by (cases rule: accept_cases [of r ip ep sv]) (auto simp: admits_def limiter_for_def)
    next
      case 2
      then show ?thesis using False serves.prems by (cases e) (simp_all add: admits_def)
    qed
    then obtain ts where "subseq ts (map fst hist)"
      "admitted_at hist = grants allow (snd (allow (steady r) rl)) ts" and b: "admits ip r e sv \<longleftrightarrow> fst (allow (steady r) rl)"
      using serves.IH by blast
    then show ?thesis
      by (intro exI [of _ "steady r # ts"]) (simp add: split_def)
  qed
qed

text \<open>An address without a limiter gets one at its first attempt.\<close>

lemma new_address:
  assumes "serving w ip sv hist" "ip_limiters sv ip = None"
  shows "admitted_at hist = [] \<or>
    (\<exists>c t0 ts. (c = conn_rate_per_min sv \<or> c = -1) \<and> subseq (t0 # ts) (map fst hist) \<and>
       admitted_at hist = grants allow (new_rate_limiter c (minutes 1) t0) (t0 # ts))"
  using assms
proof (induction rule: serving.induct)
  case (serves sv r e sv' hist)
  show ?case
  proof (cases "ip_limiters sv' ip = None")
    case True
    have "\<not> admits ip r e sv \<and> (conn_rate_per_min sv' = conn_rate_per_min sv \<or> conn_rate_per_min sv' = -1)"
      using serves.hyps(1)
    proof (cases rule: step_limiters)
      case (1 ip' ep)
      show ?thesis
      proof (cases "ip' = ip")
        case same: True
        with 1 True show ?thesis
          by (cases rule: accept_cases [of r ip ep sv]) (auto simp: admits_def accept_limiters)
      qed (simp add: 1 admits_def accept_limiters)
    qed (auto simp: admits_def split: event.split)
    then have "admitted_at ((steady r, admits ip r e sv) # hist) = admitted_at hist"
      "c = conn_rate_per_min sv' \<or> c = -1 \<Longrightarrow> c = conn_rate_per_min sv \<or> c = -1" for c by auto
    moreover have "subseq ts (map fst hist) \<Longrightarrow> subseq ts (map fst ((steady r, admits ip r e sv) # hist))" for ts
      by (simp add: list_emb_Cons)
    ultimately show ?thesis using serves.IH [OF True] by metis
  next
    case False
    then obtain rl where rl: "ip_limiters sv' ip = Some rl" by blast
    let ?new = "new_rate_limiter (conn_rate_per_min sv) (minutes 1) (steady r)"
    have "rl = snd (allow (steady r) ?new) \<and> (admits ip r e sv \<longleftrightarrow> fst (allow (steady r) ?new))"
      using serves.hyps(1)
    proof (cases rule: step_limiters)
      case (1 ip' ep)
      have "ip' = ip" using 1 rl serves.prems by (metis accept_limiters(1) option.distinct(1))
      with 1 rl serves.prems show ?thesis
        by (cases rule: accept_cases [of r ip ep sv]) (auto simp: admits_def limiter_for_def)
    next
      case 2
      with rl serves.prems show ?thesis by simp
    qed
    moreover obtain ts where "subseq ts (map fst hist)" "admitted_at hist = grants allow rl ts"
      using known_address [OF serves.hyps(2) rl] by blast
    ultimately show ?thesis
      by (intro disjI2 exI [of _ "conn_rate_per_min sv"] exI [of _ "steady r"] exI [of _ ts]) (simp add: split_def)
  qed
qed simp

section \<open>Floods\<close>

lemma subseq_sorted: "subseq xs ys \<Longrightarrow> sorted ys \<Longrightarrow> sorted (xs :: time list)"
  by (auto simp: subseq_conv_nths sorted_nths)

text \<open>A limiter without tokens grants nothing.\<close>

lemma no_tokens: "max_tokens rl < 0 \<Longrightarrow> 0 \<le> count rl \<Longrightarrow> grants allow rl ts = []"
proof (induction ts arbitrary: rl)
  case (Cons t ts)
  have "\<not> fst (allow t rl)" "max_tokens (snd (allow t rl)) < 0" "0 \<le> count (snd (allow t rl))"
    using Cons.prems by (simp_all add: allow_def Let_def)
  with Cons.IH show ?case by (simp add: split_def)
qed simp

lemma start_limiters:
  "ip_limiters (start_server cf udb odb fdb) = Map.empty" "conn_rate_per_min (start_server cf udb odb fdb) = cf_conn_rate_per_min cf"
  by (simp_all add: start_server_def new_server_def run_listener_def set_ping_intervals_def set_rate_limits_def
      set_max_connections_def set_motd_def initial_server_def Let_def)

text \<open>
  C39: The listener withstands a flood: over any run of the server on a clock that does not go back, whatever
  its sessions and the administrator do, it takes on from one address in any minute at most twice as many
  connections as the configuration allows per minute.
\<close>

theorem connection_flood_bounded:
  assumes "serving w ip (start_server cf udb odb fdb) hist" "sorted (map fst hist)"
  shows "in_span t (minutes 1) (admitted_at hist) \<le> 2 * nat (cf_conn_rate_per_min cf)"
proof (cases "admitted_at hist = []")
  case False
  then obtain c t0 ts where c: "c = cf_conn_rate_per_min cf \<or> c = -1"
    and sub: "subseq (t0 # ts) (map fst hist)"
    and adm: "admitted_at hist = grants allow (new_rate_limiter c (minutes 1) t0) (t0 # ts)"
    using new_address [OF assms(1)] by (auto simp: start_limiters)
  let ?rl = "new_rate_limiter c (minutes 1) t0"
  show ?thesis
  proof (cases "c < 0")
    case True
    then have "admitted_at hist = []" unfolding adm by (intro no_tokens) (simp_all add: new_rate_limiter_def)
    with False show ?thesis by simp
  next
    case pos: False
    have "sorted (t0 # ts)" using subseq_sorted [OF sub assms(2)] .
    moreover have "limiter_ok ?rl" "window_start ?rl = t0" "window ?rl = minutes 1" "max_tokens ?rl = c"
      using pos by (simp_all add: limiter_ok_def new_rate_limiter_def minutes_def seconds_def)
    ultimately have "in_span t (minutes 1) (grants allow ?rl (t0 # ts)) \<le> 2 * nat c"
      using limiter.burst [of ?rl t0 "t0 # ts" t] by simp
    with c pos show ?thesis by (auto simp: adm)
  qed
qed (simp add: in_span_def)

theorem connection_flood_bounded_witness:
  "in_span 0 (minutes 1) (admitted_at [(0, True), (0, False)]) \<le> 2 * nat (cf_conn_rate_per_min default_config)"
proof -
  have adm: "admits ''10.0.0.1'' demo_readings (Accept ''10.0.0.1'' ''h'') run_start"
    by (simp add: admits_def run_start_def start_server_def new_server_def run_listener_def default_config_def
      set_ping_intervals_def set_rate_limits_def set_max_connections_def set_motd_def initial_server_def
      do_accept_def new_rate_limiter_def allow_def demo_readings_def Let_def minutes_def)
  have "serving run_world ''10.0.0.1'' run_accepted [(0, False)]"
    using serving.serves [OF run_secure_step serving.stops, of "''10.0.0.1''"] by (simp add: admits_def demo_readings_def)
  from serving.serves [OF run_accept_step this] adm
  have "serving run_world ''10.0.0.1'' run_start [(0, True), (0, False)]" by (simp add: demo_readings_def)
  then show ?thesis
    unfolding run_start_def by (rule connection_flood_bounded) simp
qed

end
