(* ===== verification/File_Transfer.thy ===== *)
theory File_Transfer
  imports System
begin

text \<open>
  File transfer through the session handlers of \<open>src/net/session.cpp\<close>: what a download writes, message by
  message, and why a file of several chunks does not come back.
\<close>

section \<open>What a download writes\<close>

text \<open>Envelopes of one session, numbered from \<open>n\<close> on.\<close>

fun numbered :: "world \<Rightarrow> readings \<Rightarrow> 64 word \<Rightarrow> (message_type \<times> server_message) list \<Rightarrow> envelope list" where
  "numbered w r n [] = []"
| "numbered w r n ((t, m) # ms) =
     \<lparr>env_seq = n, env_timestamp_ms = now_ms r, env_type = t, env_payload = ser (codec w) m\<rparr> # numbered w r (n + 1) ms"

definition chunk_messages :: "world \<Rightarrow> string \<Rightarrow> 64 word \<Rightarrow> nat \<Rightarrow> nat \<Rightarrow> bytes \<Rightarrow> (message_type \<times> server_message) list"
where
  "chunk_messages w fid fsize n k d =
     (let transferred = of_nat ((k + 1) * 65536)
      in [(MT_FILE_CHUNK, File_Chunk fid (of_nat k) d (k + 1 = n)),
          (MT_FILE_PROGRESS, File_Progress \<lparr>fp_file_id = fid, fp_bytes_transferred = transferred,
             fp_total_bytes = fsize, fp_percent = percent w transferred fsize, fp_status = ''downloading''\<rparr>)])"

text \<open>The chunks from the first index asked for up to the first that is missing, then an error if one is.\<close>

definition download_messages ::
  "world \<Rightarrow> string \<Rightarrow> 64 word \<Rightarrow> nat \<Rightarrow> (nat \<Rightarrow> bytes option) \<Rightarrow> nat list \<Rightarrow> (message_type \<times> server_message) list"
where
  "download_messages w fid fsize n chunk ks =
     (let present = takeWhile (\<lambda>k. chunk k \<noteq> None) ks
      in concat (map (\<lambda>k. chunk_messages w fid fsize n k (the (chunk k))) present) @
         (if present = ks then []
          else [(MT_FILE_ERROR, File_Error fid 4084 (''Chunk not found: '' @ show_nat (ks ! length present)))]))"

lemma download_messages_simps:
  "download_messages w fid fsize n chunk [] = []"
  "download_messages w fid fsize n chunk (k # ks) =
     (case chunk k of
        None \<Rightarrow> [(MT_FILE_ERROR, File_Error fid 4084 (''Chunk not found: '' @ show_nat k))]
      | Some d \<Rightarrow> chunk_messages w fid fsize n k d @ download_messages w fid fsize n chunk ks)"
  by (simp_all add: download_messages_def Let_def del: takeWhile_eq_all_conv split: option.split)

lemma numbered_append: "numbered w r n (xs @ ys) = numbered w r n xs @ numbered w r (n + of_nat (length xs)) ys"
  by (induction w r n xs rule: numbered.induct) (simp_all add: ac_simps)

text \<open>Writing a list of messages to a session.\<close>

definition writes_all :: "world \<Rightarrow> readings \<Rightarrow> session_id \<Rightarrow> (message_type \<times> server_message) list \<Rightarrow> server \<Rightarrow> server" where
  "writes_all w r i ms sv = fold (\<lambda>(t, m). send_envelope w r i t m) ms sv"

lemma writes_all_sent:
  assumes "sessions sv i = Some s"
  shows "sent (writes_all w r i ms sv) = sent sv @ map (Pair i) (numbered w r (s_next_seq s) ms)"
  using assms
proof (induction ms arbitrary: sv s)
  case (Cons p ms)
  obtain t m where p: "p = (t, m)" by fastforce
  let ?sv = "send_envelope w r i t m sv"
  have "sessions ?sv i = Some (s\<lparr>s_next_seq := s_next_seq s + 1\<rparr>)"
    using Cons.prems by (simp add: sessions_send_envelope)
  from Cons.IH [OF this]
  have "sent (writes_all w r i ms ?sv) = sent ?sv @ map (Pair i) (numbered w r (s_next_seq s + 1) ms)" by simp
  with Cons.prems show ?case by (simp add: p writes_all_def send_envelope_def send_env_def frame_simps)
qed (simp add: writes_all_def)

lemma download_loop_writes:
  assumes "file_store sv = db" "n \<noteq> 0"
  shows "download_loop w r i fid fsize n ks sv =
    writes_all w r i (download_messages w fid fsize n (\<lambda>k. get_chunk (db_fails r (10 + k)) fid (of_nat k) db) ks) sv"
  using assms(1)
proof (induction ks arbitrary: sv)
  case (Cons k ks)
  have same: "file_store (send_envelope w r i t m sv) = file_store sv" for t m sv
    by (simp add: send_envelope_def frame_simps send_env_def split: option.split)
  have last: "k = n - Suc 0 \<longleftrightarrow> Suc k = n" using assms(2) by auto
  show ?case
    using Cons same
    by (cases "get_chunk (db_fails r (10 + k)) fid (of_nat k) db")
       (simp_all add: download_messages_simps writes_all_def send_file_error_def chunk_messages_def last Let_def)
qed (simp add: download_messages_simps writes_all_def)

text \<open>
  C29: A download is answered exactly: for every chunk from the requested index on, in ascending order and as
  it is stored, a chunk message (flagged as last only for the last one) and a progress message; at the
  first chunk that is not stored an error that names it, and then nothing.  The envelopes are numbered
  consecutively from the session's counter.
\<close>

theorem download_functional:
  assumes "sessions sv i = Some s" "get_file (db_fails r 0) (dr_file_id req) (file_store sv) = Some m"
  shows "let n = unat ((fm_file_size m + 65536 - 1) div 65536);
             stored = \<lambda>k. get_chunk (db_fails r (10 + k)) (dr_file_id req) (of_nat k) (file_store sv)
    in sent (handle_file_download w r i req sv) = sent sv @ map (Pair i) (numbered w r (s_next_seq s)
         (download_messages w (dr_file_id req) (fm_file_size m) n stored [unat (dr_chunk_index req)..<n]))"
proof -
  let ?n = "unat ((fm_file_size m + 65536 - 1) div 65536)"
  have eq: "handle_file_download w r i req sv =
      download_loop w r i (dr_file_id req) (fm_file_size m) ?n [unat (dr_chunk_index req)..<?n] sv"
    using assms(2) by (simp add: handle_file_download_def Let_def)
  show ?thesis
  proof (cases "?n = 0")
    case True
    then show ?thesis by (simp only: eq Let_def) (simp add: download_messages_simps)
  next
    case False
    then show ?thesis
      unfolding eq Let_def
      by (simp only: download_loop_writes [OF refl False] writes_all_sent [OF assms(1)])
  qed
qed

text \<open>A stored file whose size makes two chunks.\<close>

definition two_chunk_store :: file_db where
  "two_chunk_store = empty_file_db\<lparr>
     fd_files := [demo_file\<lparr>fm_file_size := 70000\<rparr>],
     fd_chunks := [\<lparr>ck_file = ''f'', ck_index = 0, ck_data = [1], ck_size = 1\<rparr>, \<lparr>ck_file = ''f'', ck_index = 1, ck_data = [2], ck_size = 1\<rparr>]\<rparr>"

theorem download_functional_witness:
  "map (env_seq \<circ> snd) (sent (handle_file_download demo_world demo_readings 0
       \<lparr>dr_file_id = ''f'', dr_chunk_index = 0\<rparr> (demo_server\<lparr>file_store := two_chunk_store\<rparr>))) = [1, 2, 3, 4]"
proof -
  let ?req = "\<lparr>dr_file_id = ''f'', dr_chunk_index = 0\<rparr>" and ?sv = "demo_server\<lparr>file_store := two_chunk_store\<rparr>"
  have "sessions ?sv 0 = Some ((new_session ''h'')\<lparr>s_state := Established, s_user := ''al''\<rparr>)"
    by (simp add: demo_server_def)
  moreover have "get_file (db_fails demo_readings 0) (dr_file_id ?req) (file_store ?sv) =
      Some (demo_file\<lparr>fm_file_size := 70000\<rparr>)"
    by (simp add: get_file_def demo_readings_def find_file_def two_chunk_store_def demo_file_def)
  moreover have "unat ((70000 + 65536 - 1) div 65536 :: 64 word) = 2" by simp
  ultimately show ?thesis
    using download_functional [of ?sv 0 _ demo_readings ?req _ demo_world]
    by (simp add: Let_def upt_rec download_messages_simps chunk_messages_def get_chunk_def find_chunk_def
        two_chunk_store_def demo_readings_def demo_server_def initial_server_def new_session_def)
qed

text \<open>
  The number of chunks is computed from 64 KB, whatever chunk size the upload agreed on: of a file of three
  bytes that was uploaded byte by byte, the first byte is sent and flagged as the last.
\<close>

lemma download_truncated:
  assumes "sessions sv i = Some s" "\<And>n. \<not> db_fails r n"
    and "file_store sv = empty_file_db\<lparr>fd_files := [demo_file\<lparr>fm_file_size := 3\<rparr>],
      fd_chunks := map (\<lambda>k. \<lparr>ck_file = ''f'', ck_index = k, ck_data = [7], ck_size = 1\<rparr>) [0, 1, 2]\<rparr>"
  shows "sent (handle_file_download w r i \<lparr>dr_file_id = ''f'', dr_chunk_index = 0\<rparr> sv) = sent sv @ map (Pair i)
    (numbered w r (s_next_seq s) (chunk_messages w ''f'' 3 1 0 [7]))"
    and "get_chunk False ''f'' 2 (file_store sv) = Some [7]"
proof -
  let ?req = "\<lparr>dr_file_id = ''f'', dr_chunk_index = 0\<rparr>" and ?m = "demo_file\<lparr>fm_file_size := 3\<rparr>"
  have "get_file (db_fails r 0) (dr_file_id ?req) (file_store sv) = Some ?m"
    using assms(2,3) by (simp add: get_file_def find_file_def demo_file_def)
  then have "handle_file_download w r i ?req sv = download_loop w r i ''f'' 3 1 [0] sv"
    by (simp add: handle_file_download_def Let_def)
  also have "sent \<dots> = sent sv @ map (Pair i) (numbered w r (s_next_seq s) (download_messages w ''f'' 3 1
      (\<lambda>k. get_chunk (db_fails r (10 + k)) ''f'' (of_nat k) (file_store sv)) [0]))"
    using download_loop_writes [OF refl, of 1 w r i "''f''" 3 "[0]" sv] writes_all_sent [OF assms(1)] by simp
  finally show "sent (handle_file_download w r i ?req sv) = sent sv @ map (Pair i)
    (numbered w r (s_next_seq s) (chunk_messages w ''f'' 3 1 0 [7]))"
    using assms(2,3) by (simp add: download_messages_simps get_chunk_def find_chunk_def)
  show "get_chunk False ''f'' 2 (file_store sv) = Some [7]"
    using assms(3) by (simp add: get_chunk_def find_chunk_def)
qed

end
