(* ===== verification/File_Roundtrip.thy ===== *)
theory File_Roundtrip
  imports File_Transfer
begin

text \<open>
  A file through the server: the request that announces it, its chunks in whatever order they arrive, and the
  download that another session asks for.  The handlers are those of \<open>src/net/session.cpp\<close>, the table of the
  chunks between them is the piece table of \<open>File_Store\<close>.
\<close>

section \<open>One chunk\<close>

text \<open>The limiter of a session lets messages at these times pass.\<close>

fun passes :: "rate_limiter option \<Rightarrow> time list \<Rightarrow> bool" where
  "passes None ts = True"
| "passes (Some rl) ts = (grants allow rl ts = ts)"

lemma length_grants: "length (grants attempt l ts) \<le> length ts"
proof (induction ts arbitrary: l)
  case (Cons t ts)
  obtain ok l' where "attempt t l = (ok, l')" by fastforce
  with Cons [of l'] show ?case by simp
qed simp

definition next_limiter :: "time \<Rightarrow> rate_limiter option \<Rightarrow> rate_limiter option" where
  "next_limiter t = map_option (\<lambda>rl. snd (allow t rl))"

lemma passes_Cons:
  assumes "passes l (t # ts)"
  shows "\<And>rl. l = Some rl \<Longrightarrow> fst (allow t rl)" "passes (next_limiter t l) ts"
proof -
  have "fst (allow t rl) \<and> grants allow (snd (allow t rl)) ts = ts" if "l = Some rl" for rl
  proof -
    obtain ok rl' where a: "allow t rl = (ok, rl')" by fastforce
    have "ok"
    proof (rule ccontr)
      assume "\<not> ok"
      then have "grants allow rl' ts = t # ts" using assms that by (simp add: a)
      then show False using length_grants [of allow rl' ts] by simp
    qed
    with assms that show ?thesis by (simp add: a)
  qed
  note both = this
  show "fst (allow t rl)" if "l = Some rl" for rl using both [OF that] ..
  show "passes (next_limiter t l) ts" using both by (cases l) (simp_all add: next_limiter_def)
qed

text \<open>A chunk that is accepted is in the table, and the upload goes on from there.\<close>

lemma chunk_accepted:
  assumes s: "sessions sv i = Some s" "s_uploads s (uc_file_id chunk) = Some st"
    and chunk: "uc_chunk_index chunk < up_total_chunks st" "uc_data chunk \<noteq> []"
    and db: "find_file (uc_file_id chunk) (file_store sv) \<noteq> None" "\<not> db_fails r 0"
    and rate: "\<And>rl. s_limiter s = Some rl \<Longrightarrow> fst (allow (steady r) rl)"
  obtains sv1 s1 st1 where "handle_file_upload w r i chunk sv =
      (if uc_is_last chunk then finish_upload w r i (uc_file_id chunk) st1 sv1 else sv1)"
    "sessions sv1 i = Some s1" "s_limiter s1 = next_limiter (steady r) (s_limiter s)"
    "s_uploads s1 (uc_file_id chunk) = Some st1" "up_total_chunks st1 = up_total_chunks st"
    "up_bytes_received st1 = up_bytes_received st + of_nat (length (uc_data chunk))"
    "file_store sv1 = put_chunk (uc_file_id chunk) (uc_chunk_index chunk) (uc_data chunk) (file_store sv)"
proof -
  let ?fid = "uc_file_id chunk" and ?lim = "next_limiter (steady r) (s_limiter s)"
  let ?st = "st\<lparr>up_received := (up_received st)[unat (uc_chunk_index chunk) := True],
      up_bytes_received := up_bytes_received st + of_nat (length (uc_data chunk))\<rparr>"
  let ?sv0 = "case s_limiter s of None \<Rightarrow> sv | Some rl \<Rightarrow> upd_session i (\<lambda>s. s\<lparr>s_limiter := ?lim\<rparr>) sv"
  have allowed: "msg_allowed r i sv = (True, ?sv0)" and sv0: "sessions ?sv0 i = Some (s\<lparr>s_limiter := ?lim\<rparr>)"
      "file_store ?sv0 = file_store sv"
    using s(1) rate
    by (auto simp: msg_allowed_def next_limiter_def sessions_upd frame_simps case_prod_beta split: option.split)
  let ?db = "put_chunk ?fid (uc_chunk_index chunk) (uc_data chunk) (file_store sv)"
  let ?progress = "File_Progress \<lparr>fp_file_id = ?fid, fp_bytes_transferred = up_bytes_received ?st,
      fp_total_bytes = up_file_size ?st, fp_percent = percent w (up_bytes_received ?st) (up_file_size ?st),
      fp_status = ''uploading''\<rparr>"
  let ?sv1 = "send_envelope w r i MT_FILE_PROGRESS ?progress (set_upload i ?fid (Some ?st) (?sv0\<lparr>file_store := ?db\<rparr>))"
  have store: "store_chunk (db_fails r 0) ?fid (uc_chunk_index chunk) (uc_data chunk) (file_store sv) = (True, ?db)"
    using db chunk(2) by (simp add: store_chunk_def put_chunk_def)
  have eq: "handle_file_upload w r i chunk sv = (if uc_is_last chunk then finish_upload w r i ?fid ?st ?sv1 else ?sv1)"
    using s(2) chunk(1) by (simp add: handle_file_upload_def allowed upload_of_def sv0 store Let_def)
  have sess: "sessions ?sv1 i = Some (s\<lparr>s_limiter := ?lim, s_uploads := (s_uploads s)(?fid := Some ?st),
      s_next_seq := s_next_seq s + 1\<rparr>)"
    by (simp add: sessions_send_envelope set_upload_def sessions_upd sv0)
  have fs: "file_store ?sv1 = ?db"
    by (simp add: send_envelope_def frame_simps send_env_def set_upload_def split: option.split)
  show thesis by (rule that [OF eq sess _ _ _ _ fs]) simp_all
qed

text \<open>The end of an upload: no verdict of the scanner is a threat.\<close>

lemma no_threat: "sr_error (fst (manager_scan d m)) \<or> sr_clean (fst (manager_scan d m))"
  by (simp add: manager_scan_def scanner_scan_def Let_def)

lemma upload_finished:
  assumes "sessions sv i = Some s"
  shows "file_store (finish_upload w r i fid st sv) = snd (mark_complete (db_fails r 1) fid [] (file_store sv))"
    "\<exists>e. sent (finish_upload w r i fid st sv) = sent sv @ [(i, e)] \<and> env_type e = MT_FILE_COMPLETE \<and>
       env_payload e = ser (codec w) (File_Complete fid (up_bytes_received st))"
proof -
  obtain m where eq: "finish_upload w r i fid st sv = set_upload i fid None
      (send_envelope w r i MT_FILE_COMPLETE (File_Complete fid (up_bytes_received st))
        (sv\<lparr>scanner := m, file_store := snd (mark_complete (db_fails r 1) fid [] (file_store sv))\<rparr>))"
  proof -
    let ?d = "assemble r fid (up_total_chunks st) (file_store sv)"
    have "finish_upload w r i fid st sv = set_upload i fid None
      (send_envelope w r i MT_FILE_COMPLETE (File_Complete fid (up_bytes_received st))
        (sv\<lparr>scanner := if vm_enabled (scanner sv) then snd (manager_scan ?d (scanner sv)) else scanner sv,
            file_store := snd (mark_complete (db_fails r 1) fid [] (file_store sv))\<rparr>))"
      using no_threat [of ?d "scanner sv"]
      by (auto simp: finish_upload_def default_scan_result_def Let_def split: prod.split)
    then show ?thesis by (rule that)
  qed
  show "file_store (finish_upload w r i fid st sv) = snd (mark_complete (db_fails r 1) fid [] (file_store sv))"
    by (simp add: eq set_upload_def frame_simps send_envelope_def send_env_def split: option.split)
  show "\<exists>e. sent (finish_upload w r i fid st sv) = sent sv @ [(i, e)] \<and> env_type e = MT_FILE_COMPLETE \<and>
       env_payload e = ser (codec w) (File_Complete fid (up_bytes_received st))"
    using assms by (simp add: eq set_upload_def frame_simps send_envelope_def send_env_def)
qed

section \<open>The chunks of a file\<close>

text \<open>A client sends numbered chunks; the one it sends last it says is the last.\<close>

fun upload_chunks ::
  "world \<Rightarrow> session_id \<Rightarrow> string \<Rightarrow> (readings \<times> nat \<times> bytes) list \<Rightarrow> server \<Rightarrow> server" where
  "upload_chunks w i fid [] sv = sv"
| "upload_chunks w i fid ((r, k, d) # cs) sv =
     upload_chunks w i fid cs
       (handle_file_upload w r i \<lparr>uc_file_id = fid, uc_chunk_index = of_nat k, uc_data = d, uc_is_last = (cs = [])\<rparr> sv)"

lemma find_file_put: "find_file f (put_chunk fid k d db) = find_file f db"
  by (simp add: put_chunk_def frame_simps)

lemma chunks_uploaded:
  assumes "sessions sv i = Some s" "s_uploads s fid = Some st" "cs \<noteq> []"
    and "\<forall>(r, k, d) \<in> set cs. of_nat k < up_total_chunks st \<and> d \<noteq> [] \<and> \<not> db_fails r 0"
    and "find_file fid (file_store sv) \<noteq> None" "passes (s_limiter s) (map (\<lambda>c. steady (fst c)) cs)"
  shows "(\<exists>failed. file_store (upload_chunks w i fid cs sv) = snd (mark_complete failed fid []
      (foldl (\<lambda>db (k, d). put_chunk fid k d db) (file_store sv) (map (\<lambda>(r, k, d). (of_nat k, d)) cs)))) \<and>
    (\<exists>before e. sent (upload_chunks w i fid cs sv) = before @ [(i, e)] \<and> env_type e = MT_FILE_COMPLETE \<and>
      env_payload e = ser (codec w) (File_Complete fid
        (up_bytes_received st + of_nat (sum_list (map (\<lambda>(r, k, d). length d) cs)))))"
  using assms
proof (induction cs arbitrary: sv s st)
  case (Cons c cs)
  obtain r k d where c: "c = (r, k, d)" by (cases c)
  let ?chunk = "\<lparr>uc_file_id = fid, uc_chunk_index = of_nat k, uc_data = d, uc_is_last = (cs = [])\<rparr>"
  have rate: "fst (allow (steady r) rl)" if "s_limiter s = Some rl" for rl
    using passes_Cons(1) [of "s_limiter s" "steady r"] Cons.prems(6) that by (simp add: c)
  have pre: "s_uploads s (uc_file_id ?chunk) = Some st" "uc_chunk_index ?chunk < up_total_chunks st" "uc_data ?chunk \<noteq> []"
      "find_file (uc_file_id ?chunk) (file_store sv) \<noteq> None" "\<not> db_fails r 0"
    using Cons.prems by (simp_all add: c)
  obtain sv1 s1 st1 where step: "handle_file_upload w r i ?chunk sv = (if cs = [] then finish_upload w r i fid st1 sv1 else sv1)"
    and s1: "sessions sv1 i = Some s1" "s_limiter s1 = next_limiter (steady r) (s_limiter s)" "s_uploads s1 fid = Some st1"
    and st1: "up_total_chunks st1 = up_total_chunks st" "up_bytes_received st1 = up_bytes_received st + of_nat (length d)"
    and db: "file_store sv1 = put_chunk fid (of_nat k) d (file_store sv)"
    using chunk_accepted [OF Cons.prems(1) pre rate, of w, unfolded file_upload_chunk.select_convs] by blast
  show ?case
  proof (cases "cs = []")
    case True
    then show ?thesis
      using upload_finished [OF s1(1), of w r fid st1] step by (auto simp: c db st1)
  next
    case False
    have "passes (s_limiter s1) (map (\<lambda>c. steady (fst c)) cs)"
      using passes_Cons(2) [of "s_limiter s" "steady r"] Cons.prems(6) by (simp add: c s1(2))
    moreover have "\<forall>(r, k, d) \<in> set cs. of_nat k < up_total_chunks st1 \<and> d \<noteq> [] \<and> \<not> db_fails r 0"
      using Cons.prems(4) by (simp add: st1(1))
    moreover have "find_file fid (file_store sv1) \<noteq> None" using Cons.prems(5) by (simp add: db find_file_put)
    ultimately show ?thesis
      using Cons.IH [OF s1(1,3) False] False unfolding c upload_chunks.simps step by (simp add: db st1(2) add.assoc)
  qed
qed simp_all

section \<open>Request, chunks, download\<close>

text \<open>What an accepted request leaves.\<close>

lemma request_accepted:
  assumes "sessions sv i = Some s" "find_file (fr_file_id req) (file_store sv) = None" "\<not> db_fails r 0"
    and "fr_file_size req \<noteq> 0" "fr_file_size req \<le> max_file_size"
  shows "\<exists>s1 st. sessions (handle_file_request w r i req sv) i = Some s1 \<and> s_limiter s1 = s_limiter s \<and>
      s_uploads s1 (fr_file_id req) = Some st \<and> up_bytes_received st = 0 \<and>
      up_total_chunks st = up_total_chunks (start_upload req None)"
    "file_store (handle_file_request w r i req sv) =
       snd (create_file False (unix_time r) (requested_metadata (session_user i sv) req) (file_store sv))"
proof -
  let ?db = "snd (create_file False (unix_time r) (requested_metadata (session_user i sv) req) (file_store sv))"
  have "create_file (db_fails r 0) (unix_time r) (requested_metadata (session_user i sv) req) (file_store sv) = (True, ?db)"
    using assms(2,3) by (simp add: create_file_def requested_metadata_def)
  then have eq: "handle_file_request w r i req sv = send_envelope w r i MT_FILE_PROGRESS
      (File_Progress \<lparr>fp_file_id = fr_file_id req, fp_bytes_transferred = 0, fp_total_bytes = fr_file_size req,
         fp_percent = 0, fp_status = ''uploading''\<rparr>)
      (set_upload i (fr_file_id req) (Some (start_upload req (upload_of i (fr_file_id req) sv))) (sv\<lparr>file_store := ?db\<rparr>))"
    using assms(4,5) by (simp add: handle_file_request_def Let_def)
  show "file_store (handle_file_request w r i req sv) = ?db"
    by (simp add: eq send_envelope_def send_env_def set_upload_def frame_simps split: option.split)
  show "\<exists>s1 st. sessions (handle_file_request w r i req sv) i = Some s1 \<and> s_limiter s1 = s_limiter s \<and>
      s_uploads s1 (fr_file_id req) = Some st \<and> up_bytes_received st = 0 \<and>
      up_total_chunks st = up_total_chunks (start_upload req None)"
    using assms(1) by (simp add: eq sessions_send_envelope set_upload_def sessions_upd start_upload_def Let_def)
qed

text \<open>The number of chunks, at 64 KB each.\<close>

lemma chunk_count:
  fixes n :: "64 word"
  assumes "n \<noteq> 0" "n \<le> max_file_size"
  shows "unat ((n + 65535) div 65536) \<noteq> 0" "unat ((n + 65535) div 65536) \<le> 1600"
proof -
  have n: "0 < unat n" "unat n \<le> 104857600"
    using assms by (simp_all add: max_file_size_def word_le_nat_alt unat_gt_0)
  then have "unat (n + 65535) = unat n + 65535" by (simp add: unat_word_ariths)
  then have "unat ((n + 65535) div 65536) = (unat n + 65535) div 65536" by (simp add: unat_div)
  with n show "unat ((n + 65535) div 65536) \<noteq> 0" "unat ((n + 65535) div 65536) \<le> 1600" by simp_all
qed

lemma total_chunks:
  assumes "fr_file_size req \<noteq> 0" "fr_file_size req \<le> max_file_size" "fr_chunk_size req = 0 \<or> fr_chunk_size req = 65536"
  shows "unat (up_total_chunks (start_upload req old)) = unat ((fr_file_size req + 65535) div 65536)"
proof -
  have "up_total_chunks (start_upload req old) = ucast ((fr_file_size req + 65535) div 65536)"
    using assms(3) by (auto simp: start_upload_def Let_def) (simp_all only: add.commute)
  then show ?thesis
    using chunk_count(2) [OF assms(1,2)] by (simp add: unsigned_ucast_eq take_bit_nat_eq_self)
qed

lemma sum_list_mset: "mset xs = mset ys \<Longrightarrow> sum_list (map f xs) = (sum_list (map f ys) :: nat)"
  by (metis mset_map sum_mset_sum_list)

lemma find_file_update:
  assumes "\<And>m. fm_file_id (f m) = fm_file_id m"
  shows "find_file g (update_file fid f db) = map_option (\<lambda>m. if fm_file_id m = fid then f m else m) (find_file g db)"
proof -
  have "find (\<lambda>m. fm_file_id m = g) (map (\<lambda>m. if fm_file_id m = fid then f m else m) ms) =
      map_option (\<lambda>m. if fm_file_id m = fid then f m else m) (find (\<lambda>m. fm_file_id m = g) ms)" for ms
    by (induction ms) (auto simp: assms)
  then show ?thesis by (simp add: find_file_def update_file_def)
qed

text \<open>Marking a file complete changes neither its size nor its chunks.\<close>

lemma mark_complete_same:
  "map_option fm_file_size (find_file g (snd (mark_complete f fid cs db))) = map_option fm_file_size (find_file g db)"
  "get_chunk e g k (snd (mark_complete f fid cs db)) = get_chunk e g k db"
proof -
  show "map_option fm_file_size (find_file g (snd (mark_complete f fid cs db))) = map_option fm_file_size (find_file g db)"
    by (cases "find_file g db") (simp_all add: mark_complete_def find_file_update)
  show "get_chunk e g k (snd (mark_complete f fid cs db)) = get_chunk e g k db"
    by (simp add: mark_complete_def update_file_def get_chunk_def find_chunk_def)
qed

lemma find_file_puts: "find_file g (foldl (\<lambda>db (k, d). put_chunk fid k d db) db ps) = find_file g db"
  by (induction ps arbitrary: db) (auto simp: find_file_put)

text \<open>The table after the upload has every piece under its index.\<close>

lemma pieces_stored:
  assumes "mset (map snd cs) = mset (zip [0..<length parts] parts)" "length parts < 2 ^ 32" "[] \<notin> set parts"
    and "find_file fid db \<noteq> None" "k < length parts"
  shows "get_chunk False fid (of_nat k) (foldl (\<lambda>db (k, d). put_chunk fid k d db) db (map (\<lambda>(r, k, d). (of_nat k, d)) cs)) =
    Some (parts ! k)"
proof -
  let ?ps = "map (\<lambda>(r, k, d). (of_nat k :: 32 word, d)) cs"
  let ?f = "\<lambda>(k, d). (of_nat k :: 32 word, d :: bytes)"
  have "?ps = map ?f (map snd cs)" by (simp add: case_prod_beta)
  then have "mset ?ps = image_mset ?f (mset (map snd cs))" by (simp only: mset_map)
  also have "\<dots> = mset (map ?f (zip [0..<length parts] parts))" by (subst assms(1)) (simp only: mset_map)
  also have "map ?f (zip [0..<length parts] parts) = zip (map of_nat [0..<length parts]) parts"
    by (simp add: zip_map1)
  finally have same: "mset ?ps = mset (zip (map of_nat [0..<length parts]) parts)" .
  from chunks.get_any_order [OF same distinct_indices [OF assms(2)], of fid db]
  have "map (\<lambda>i. get_chunk False fid i (foldl (\<lambda>db (i, d). put_chunk fid i d db) db ?ps)) (map of_nat [0..<length parts]) =
      map Some parts"
    using assms(3,4) by (auto simp: takes_chunk_def)
  from arg_cong [OF this, of "\<lambda>xs. xs ! k"] show ?thesis using assms(5) by simp
qed

section \<open>Correctness\<close>

text \<open>The messages of a download when every piece is there.\<close>

lemma download_all:
  assumes "\<And>k. k < n \<Longrightarrow> chunk k = Some (parts ! k)"
  shows "download_messages w fid fsize n chunk [0..<n] =
    concat (map (\<lambda>k. chunk_messages w fid fsize n k (parts ! k)) [0..<n])"
proof -
  have all: "takeWhile (\<lambda>k. chunk k \<noteq> None) [0..<n] = [0..<n]"
    using assms by (simp add: takeWhile_eq_all_conv)
  have same: "map (\<lambda>k. chunk_messages w fid fsize n k (the (chunk k))) [0..<n] =
      map (\<lambda>k. chunk_messages w fid fsize n k (parts ! k)) [0..<n]"
    using assms by simp
  show ?thesis unfolding download_messages_def Let_def all same by simp
qed


lemma upload_chunks_registry: "registry (upload_chunks w i fid cs sv) = registry sv"
  by (induction cs arbitrary: sv) (simp, simp add: split_paired_all)


end
