(* ===== verification/Key_Life.thy ===== *)
theory Key_Life
  imports Onlooker
begin

text \<open>
  The key tables inside the running server.  Whatever a step does to the accounts and keys is a sequence of
  the store's own operations, so a property that these keep holds along every run (locale \<open>key_keeper\<close>); with
  it, the one-time prekeys are followed from the table to the bundle that is sent.
\<close>

section \<open>Which handlers write the tables\<close>

interpretation key_tables: onlooker user_store i for i
  by unfold_locales (simp_all add: frame_simps)

locale key_keeper =
  fixes Q :: "user_db \<Rightarrow> bool"
  assumes inserts: "Q db \<Longrightarrow> Q (state_of (insert_user f u k t db))"
    and updates: "Q db \<Longrightarrow> Q (state_of (update_identity_key f u k db))"
    and clears: "Q db \<Longrightarrow> Q (state_of (clear_key_material f g u db))"
    and upserts: "Q db \<Longrightarrow> Q (state_of (upsert_signed_prekey f t u k s db))"
    and stores_key: "Q db \<Longrightarrow> Q (state_of (store_opk f u k db))"
    and consumes: "Q db \<Longrightarrow> Q (snd (consume_row c f g u db))"
    and sets_password: "Q db \<Longrightarrow> Q (snd (set_password h f u p db))"
    and wipes: "Q db \<Longrightarrow> Q (state_of (delete_all_users f db))" "Q db \<Longrightarrow> Q (state_of (delete_all_spks f db))"
      "Q db \<Longrightarrow> Q (state_of (delete_all_opks f db))"
begin

lemma offered_keeps: "Q db \<Longrightarrow> Q (state_of (store_offered_spk r auth db))"
  by (simp add: store_offered_spk_def upserts)

lemma account_keeps:
  assumes ok: "Q db"
  shows "Q (snd (auth_account w r auth db))"
proof -
  let ?u = "ar_user_id auth" and ?key = "ar_identity_pub auth"
  show ?thesis
  proof (cases "find_by_id (db_fails r 0) ?u db")
    case None
    let ?ins = "insert_user (db_fails r 1) ?u ?key (unix_time r) db"
    have "Q (state_of ?ins)" "Q (state_of (store_offered_spk r auth (state_of ?ins)))"
      using ok by (simp_all add: offered_keeps inserts)
    with None show ?thesis
      by (cases ?ins; cases "store_offered_spk r auth (state_of ?ins)")
         (auto simp: auth_account_def Let_def sets_password)
  next
    case (Some existing)
    let ?clr = "clear_key_material (db_fails r 6) (db_fails r 7) ?u db"
    let ?upd = "update_identity_key (db_fails r 8) ?u ?key (state_of ?clr)"
    have "Q (state_of ?clr)" "Q (state_of ?upd)" "Q (state_of (store_offered_spk r auth (state_of ?upd)))"
      using ok by (simp_all add: offered_keeps clears updates)
    with Some ok show ?thesis
      by (cases ?clr; cases ?upd; cases "store_offered_spk r auth (state_of ?upd)")
         (auto simp: auth_account_def Let_def sets_password)
  qed
qed

lemma opks_keep: "Q db \<Longrightarrow> Q (state_of (store_opks f n u ks db))"
proof (induction ks arbitrary: n db)
  case (Cons k ks)
  then show ?case using stores_key [OF Cons.prems, of "f n" u k] by (auto split: outcome.split)
qed simp

lemma upload_keeps:
  assumes ok: "Q (user_store sv)"
  shows "Q (user_store (state_of (handle_key_upload r i ku sv)))"
proof -
  define spk where "spk = (if ku_signed_prekey ku \<noteq> [] \<and> ku_spk_signature ku \<noteq> []
    then upsert_signed_prekey (db_fails r 0) (unix_time r) (session_user i sv) (ku_signed_prekey ku)
      (ku_spk_signature ku) (user_store sv) else Returned (user_store sv))"
  have spk: "Q (state_of spk)" using ok by (simp add: spk_def upserts)
  let ?opks = "store_opks (db_fails r) 1 (session_user i sv) (ku_one_time_prekeys ku) (state_of spk)"
  have "Q (state_of ?opks)" using spk by (rule opks_keep)
  with spk show ?thesis
    unfolding handle_key_upload_def Let_def spk_def [symmetric] by (cases spk) (auto split: outcome.split)
qed

lemma request_keeps:
  assumes "Q (user_store sv)"
  shows "Q (user_store (handle_key_request w r i u sv))"
proof -
  have "Q db" if "consume_opk c f g u (user_store sv) = (k, db)" for c f g u k db
    using consumes [OF assms, of c f g u] snd_consume_opk [of c f g u "user_store sv"] that by simp
  with assms show ?thesis
    by (auto simp: handle_key_request_def Let_def split: option.split prod.split)
qed

lemma password_keeps: "Q (user_store sv) \<Longrightarrow> Q (user_store (snd (cmd_password w r args i sv)))"
proof -
  assume ok: "Q (user_store sv)"
  then have "Q (snd (update_password h c f g u p q (user_store sv)))" for h c f g u p q
    by (simp add: update_password_def sets_password)
  then have "Q db" if "update_password h c f g u p q (user_store sv) = (b, db)" for h c f g u p q b db
    using that by (metis snd_conv)
  with ok show ?thesis by (auto simp: cmd_password_def Let_def split: prod.split bool.split)
qed

lemma reset_keeps:
  assumes ok: "Q (user_store sv)"
  shows "Q (user_store (snd (cmd_resetdb r i sv)))"
proof -
  let ?u = "delete_all_users (db_fails r 0) (user_store sv)"
  let ?s = "delete_all_spks (db_fails r 1) (state_of ?u)"
  let ?o = "delete_all_opks (db_fails r 2) (state_of ?s)"
  have "Q (state_of ?u)" "Q (state_of ?s)" "Q (state_of ?o)" using ok by (simp_all add: wipes)
  with ok show ?thesis by (cases ?u; cases ?s; cases ?o) (auto simp: cmd_resetdb_def Let_def)
qed

lemma command_keeps:
  assumes "Q (user_store sv)"
  shows "Q (user_store (session_command w r i cmd sv))"
proof -
  have "Q (user_store (snd (handle_command w r cmd i sv)))"
  proof (cases rule: handle_command_states [of w r cmd i sv])
    case (5 res)
    from 5(1) have "Q (user_store (snd res))"
      by (cases rule: run_command_states) (simp_all add: assms password_keeps reset_keeps)
    with 5(2) show ?thesis by simp
  qed (simp_all add: assms)
  then have "Q (user_store sv1)" if "handle_command w r cmd i sv = (resp, sv1)" for resp sv1
    using that by simp
  with assms show ?thesis by (auto simp: session_command_def split: prod.split)
qed

lemma auth_keeps:
  assumes "Q (user_store sv)"
  shows "Q (user_store (state_of (handle_auth_response w r i auth sv)))"
proof -
  have "Q db" if "auth_account w r auth (user_store sv) = (res, db)" for res db
    using account_keeps [OF assms, of w r auth] that by simp
  with assms show ?thesis
    by (auto simp: handle_auth_response_def Let_def split: prod.split account_result.split)
qed

lemma envelope_keeps:
  assumes "Q (user_store sv)"
  shows "Q (user_store (state_of (handle_envelope w r i env sv)))"
  using assms
  by (cases "env_type env")
     (auto simp: handle_envelope_def Let_def auth_keeps upload_keeps request_keeps command_keeps
       dest: key_tables.msg_allowed_view split: option.split prod.split bool.split)

lemma step_keeps:
  assumes "server_step w sv r e sv'" "Q (user_store sv)"
  shows "Q (user_store sv')"
  using assms(1)
proof cases
  case (accept ip ep)
  have "user_store sv' = user_store sv"
    by (simp add: accept(2) do_accept_def Let_def split: prod.split bool.split)
  with assms(2) show ?thesis by simp
next
  case (read i res)
  with assms(2) show ?thesis
    by (simp add: key_tables.view_read envelope_keeps split: read_result.split option.split)
next
  case (admin c ps st)
  from admin_states [of sv w r st c ps] assms(2) show ?thesis
    unfolding admin by cases (simp_all add: disconnect_def set_max_connections_def set_rate_limits_def set_motd_def)
qed (use assms in \<open>simp_all add: on_signal_def shutdown_def\<close>)

end

text \<open>The ids that can still be handed out never become more.\<close>

interpretation opks_left: key_keeper "\<lambda>db. keys_ok db \<and> opk_available db \<subseteq> A" for A
proof
  note ops = insert_user_def update_identity_key_def clear_key_material_def upsert_signed_prekey_def store_opk_def
    set_password_def delete_all_users_def delete_all_spks_def delete_all_opks_def opk_available_def Let_def
  fix db f g u k t s p h c
  assume ok: "keys_ok db \<and> opk_available db \<subseteq> A"
  then show "keys_ok (state_of (insert_user f u k t db)) \<and> opk_available (state_of (insert_user f u k t db)) \<subseteq> A"
    "keys_ok (state_of (update_identity_key f u k db)) \<and> opk_available (state_of (update_identity_key f u k db)) \<subseteq> A"
    "keys_ok (state_of (clear_key_material f g u db)) \<and> opk_available (state_of (clear_key_material f g u db)) \<subseteq> A"
    "keys_ok (state_of (upsert_signed_prekey f t u k s db)) \<and> opk_available (state_of (upsert_signed_prekey f t u k s db)) \<subseteq> A"
    "keys_ok (state_of (store_opk f u k db)) \<and> opk_available (state_of (store_opk f u k db)) \<subseteq> A"
    "keys_ok (snd (set_password h f u p db)) \<and> opk_available (snd (set_password h f u p db)) \<subseteq> A"
    "keys_ok (state_of (delete_all_users f db)) \<and> opk_available (state_of (delete_all_users f db)) \<subseteq> A"
    "keys_ok (state_of (delete_all_spks f db)) \<and> opk_available (state_of (delete_all_spks f db)) \<subseteq> A"
    "keys_ok (state_of (delete_all_opks f db)) \<and> opk_available (state_of (delete_all_opks f db)) \<subseteq> A"
    by (auto simp: inv_intros) (auto simp: ops split: option.splits if_splits)
  show "keys_ok (snd (consume_row c f g u db)) \<and> opk_available (snd (consume_row c f g u db)) \<subseteq> A"
    using ok available_step [of db "Consume_Opk c f g u"] by (auto simp: inv_intros snd_consume_opk)
qed

section \<open>From the table to the bundle\<close>

text \<open>The row that a step hands out: the one that the answer to a key request consumes.\<close>

definition handed_out :: "world \<Rightarrow> readings \<Rightarrow> event \<Rightarrow> server \<Rightarrow> opk_row option" where
  "handed_out w r e sv =
     (case e of
        Read_Done i (Frame data) \<Rightarrow>
          (case parse_envelope (codec w) data of
             None \<Rightarrow> None
           | Some env \<Rightarrow>
               if env_type env = MT_KEY_REQUEST \<and> state_of_session i sv = Established
               then (case parse_payload (parse_key_request (codec w)) env of
                       None \<Rightarrow> None
                     | Some u \<Rightarrow>
                         if find_by_id (db_fails r 0) u (user_store sv) = None then None
                         else fst (consume_row (opk_choice r) (db_fails r 2) (db_fails r 3) u (user_store sv)))
               else None)
      | _ \<Rightarrow> None)"

lemma handed_out_cases:
  assumes "handed_out w r e sv = Some row"
  obtains i data env u where "e = Read_Done i (Frame data)" "parse_envelope (codec w) data = Some env"
    "env_type env = MT_KEY_REQUEST" "state_of_session i sv = Established"
    "parse_payload (parse_key_request (codec w)) env = Some u" "find_by_id (db_fails r 0) u (user_store sv) \<noteq> None"
    "fst (consume_row (opk_choice r) (db_fails r 2) (db_fails r 3) u (user_store sv)) = Some row"
  using assms that unfolding handed_out_def
  by (auto split: event.splits read_result.splits option.splits if_splits)

text \<open>The answer to a key request: a bundle with the public key of the row handed out, or without one.\<close>

lemma request_answered:
  assumes "sessions sv i \<noteq> None" "find_by_id (db_fails r 0) u (user_store sv) \<noteq> None"
  shows "\<exists>kb reply. sent (handle_key_request w r i u sv) = sent sv @ [(i, reply)] \<and> env_type reply = MT_KEY_BUNDLE \<and>
    env_payload reply = ser (codec w) (Key_Bundle kb) \<and> kb_recipient_for kb = u \<and>
    kb_one_time_prekey kb =
      (case fst (consume_row (opk_choice r) (db_fails r 2) (db_fails r 3) u (user_store sv)) of
         None \<Rightarrow> [] | Some row \<Rightarrow> opk_pub row)"
proof -
  obtain k db where c: "consume_opk (opk_choice r) (db_fails r 2) (db_fails r 3) u (user_store sv) = (k, db)"
    by fastforce
  then have "k = (case fst (consume_row (opk_choice r) (db_fails r 2) (db_fails r 3) u (user_store sv)) of
      None \<Rightarrow> [] | Some row \<Rightarrow> opk_pub row)"
    by (auto simp: consume_opk_def split: prod.splits option.splits)
  moreover obtain target where "find_by_id (db_fails r 0) u (user_store sv) = Some target" using assms(2) by blast
  moreover define spk where "spk = get_signed_prekey (db_fails r 1) u (user_store sv)"
  ultimately show ?thesis using assms(1) c
    by (intro exI [of _ "\<lparr>kb_identity_pub = identity_pub target,
          kb_signed_prekey = (case spk of None \<Rightarrow> [] | Some k \<Rightarrow> spk_pub k),
          kb_spk_signature = (case spk of None \<Rightarrow> [] | Some k \<Rightarrow> spk_sig k),
          kb_one_time_prekey = k, kb_recipient_for = u\<rparr>"])
       (auto simp: handle_key_request_def send_envelope_def send_env_def frame_simps Let_def)
qed

lemma request_read:
  assumes "parse_envelope (codec w) data = Some env" "env_type env = MT_KEY_REQUEST"
    and "state_of_session i sv = Established" "parse_payload (parse_key_request (codec w)) env = Some u"
  shows "on_read w r i (Frame data) sv = next_read i (handle_key_request w r i u (set_reading False i sv))"
proof -
  have "state_of_session i (set_reading False i sv) = Established"
    using assms(3) by (simp add: view_state reading_view)
  with assms show ?thesis
    by (simp add: on_read_def on_frame_received_def handle_envelope_def Let_def)
qed

text \<open>A run, with the rows it handed out, in order.\<close>

inductive key_run :: "world \<Rightarrow> server \<Rightarrow> opk_row list \<Rightarrow> server \<Rightarrow> bool" for w sv where
  nothing: "key_run w sv [] sv"
| more: "key_run w sv rows sv1 \<Longrightarrow> server_step w sv1 r e sv2 \<Longrightarrow>
    key_run w sv (rows @ (case handed_out w r e sv1 of None \<Rightarrow> [] | Some row \<Rightarrow> [row])) sv2"

lemma handed_out_spent:
  assumes ok: "keys_ok (user_store sv)" and step: "server_step w sv r e sv'" and out: "handed_out w r e sv = Some row"
  shows "opk_id row \<in> opk_available (user_store sv) \<and> opk_id row \<notin> opk_available (user_store sv')"
proof -
  obtain i data env u where h: "e = Read_Done i (Frame data)" "parse_envelope (codec w) data = Some env"
    "env_type env = MT_KEY_REQUEST" "state_of_session i sv = Established"
    "parse_payload (parse_key_request (codec w)) env = Some u" "find_by_id (db_fails r 0) u (user_store sv) \<noteq> None"
    "fst (consume_row (opk_choice r) (db_fails r 2) (db_fails r 3) u (user_store sv)) = Some row"
    using out by (rule handed_out_cases)
  let ?op = "Consume_Opk (opk_choice r) (db_fails r 2) (db_fails r 3) u"
  have "opk_issued (user_store sv) ?op = Some (opk_id row)" using h(7) by simp
  from opks.issued_avail [OF ok this]
  have spent: "opk_id row \<in> opk_available (user_store sv)" "opk_id row \<notin> opk_available (user_step (user_store sv) ?op)"
    by simp_all
  have "sv' = on_read w r i (Frame data) sv" using step unfolding h(1) by (rule read_stepE)
  also have "\<dots> = next_read i (handle_key_request w r i u (set_reading False i sv))"
    using h by (intro request_read)
  finally have "user_store sv' = user_store (handle_key_request w r i u (set_reading False i sv))" by simp
  also have "\<dots> = user_step (user_store sv) ?op"
    using h(6) by (auto simp: handle_key_request_def snd_consume_opk [symmetric] Let_def split: prod.split)
  finally show ?thesis using spent by simp
qed

lemma key_run_spent:
  assumes "key_run w sv rows sv'" "keys_ok (user_store sv)"
  shows "keys_ok (user_store sv') \<and> distinct (map opk_id rows) \<and>
    opk_id ` set rows \<subseteq> opk_available (user_store sv) - opk_available (user_store sv') \<and>
    opk_available (user_store sv') \<subseteq> opk_available (user_store sv)"
  using assms(1)
proof (induction rule: key_run.induct)
  case (more rows sv1 r e sv2)
  have "keys_ok (user_store sv2) \<and> opk_available (user_store sv2) \<subseteq> opk_available (user_store sv1)"
    using opks_left.step_keeps [OF more(2), of "opk_available (user_store sv1)"] more.IH by blast
  with more.IH handed_out_spent [OF _ more(2)] show ?case
    by (cases "handed_out w r e sv1") auto
qed (simp add: assms(2))

lemma handed_out_sent:
  assumes step: "server_step w sv r e sv'" and out: "handed_out w r e sv = Some row"
  shows "\<exists>i reply kb. sent sv' = sent sv @ [(i, reply)] \<and> env_type reply = MT_KEY_BUNDLE \<and>
    env_payload reply = ser (codec w) (Key_Bundle kb) \<and> kb_recipient_for kb = opk_user row \<and>
    kb_one_time_prekey kb = opk_pub row"
proof -
  obtain i data env u where h: "e = Read_Done i (Frame data)" "parse_envelope (codec w) data = Some env"
    "env_type env = MT_KEY_REQUEST" "state_of_session i sv = Established"
    "parse_payload (parse_key_request (codec w)) env = Some u" "find_by_id (db_fails r 0) u (user_store sv) \<noteq> None"
    "fst (consume_row (opk_choice r) (db_fails r 2) (db_fails r 3) u (user_store sv)) = Some row"
    using out by (rule handed_out_cases)
  let ?sv = "set_reading False i sv"
  have row: "opk_user row = u" using h(7) consume_row_Some by (metis prod.collapse)
  have there: "sessions ?sv i \<noteq> None"
    using h(4) by (auto simp: set_reading_def sessions_upd state_of_session_def split: option.splits)
  have "sv' = on_read w r i (Frame data) sv" using step unfolding h(1) by (rule read_stepE)
  also have "\<dots> = next_read i (handle_key_request w r i u ?sv)"
    using h by (intro request_read)
  finally show ?thesis
    using request_answered [OF there, of r u w] h(6,7) row by auto
qed

text \<open>
  C19: One-time prekeys are one-time, while the server runs: in a run of any length, whatever clients
  register, upload, reset and request and whichever rows the database picks, no row of the key table is
  handed out twice; and the step that hands one out sends a bundle with its public key, for its user.
\<close>

theorem prekeys_handed_out_once:
  assumes "keys_ok (user_store sv)" "key_run w sv rows sv'" "server_step w sv' r e sv''"
    and "handed_out w r e sv' = Some row"
  shows "distinct (map opk_id (rows @ [row])) \<and>
    (\<exists>i reply kb. sent sv'' = sent sv' @ [(i, reply)] \<and> env_type reply = MT_KEY_BUNDLE \<and>
       env_payload reply = ser (codec w) (Key_Bundle kb) \<and> kb_recipient_for kb = opk_user row \<and>
       kb_one_time_prekey kb = opk_pub row)"
proof
  have "key_run w sv (rows @ [row]) sv''" using key_run.more [OF assms(2,3)] assms(4) by simp
  from key_run_spent [OF this assms(1)] show "distinct (map opk_id (rows @ [row]))" by blast
qed (rule handed_out_sent [OF assms(3,4)])

text \<open>User \<open>al\<close> asks twice for the keys of \<open>bo\<close>, who has two.\<close>

definition key_world :: world where
  "key_world = run_world\<lparr>codec := run_codec\<lparr>parse_envelope := (\<lambda>_. Some (plain_envelope MT_KEY_REQUEST [1])),
     parse_key_request := (\<lambda>_. Some ''bo'')\<rparr>\<rparr>"

definition key_start :: server where
  "key_start = initial_server\<lparr>
     sessions := [0 \<mapsto> (new_session ''h'')\<lparr>s_state := Established, s_user := ''al''\<rparr>],
     user_store := empty_user_db\<lparr>users := [''bo'' \<mapsto> \<lparr>identity_pub = [5], password_hash = None, created_at = 0\<rparr>],
       one_time_prekeys := [\<lparr>opk_id = 1, opk_user = ''bo'', opk_pub = [7], opk_used = False\<rparr>,
                            \<lparr>opk_id = 2, opk_user = ''bo'', opk_pub = [8], opk_used = False\<rparr>],
       opk_next := 3\<rparr>\<rparr>"

definition key_asked :: server where
  "key_asked = on_read key_world demo_readings 0 (Frame [9]) key_start"

lemma key_asked_eq:
  "sessions key_asked = [0 \<mapsto> (new_session ''h'')\<lparr>s_state := Established, s_user := ''al'', s_next_seq := 2\<rparr>]"
  "user_store key_asked = (user_store key_start)\<lparr>one_time_prekeys :=
     [\<lparr>opk_id = 1, opk_user = ''bo'', opk_pub = [7], opk_used = True\<rparr>,
      \<lparr>opk_id = 2, opk_user = ''bo'', opk_pub = [8], opk_used = False\<rparr>]\<rparr>"
  by (simp_all add: key_asked_def key_start_def on_read_def on_frame_received_def handle_envelope_def Let_def
      handle_key_request_def key_world_def plain_envelope_def parse_payload_def find_by_id_def demo_readings_def
      consume_opk_def consume_row_def unused_opks_def mark_used_def mark_row_def send_envelope_def send_env_def
      next_read_def set_reading_def upd_session_def state_of_session_def new_session_def run_world_def demo_world_def)

theorem prekeys_handed_out_once_witness:
  "\<exists>i reply kb. sent (on_read key_world demo_readings 0 (Frame [9]) key_asked) = sent key_asked @ [(i, reply)] \<and>
     env_payload reply = ser (codec key_world) (Key_Bundle kb) \<and> kb_one_time_prekey kb = [8]"
proof -
  let ?r1 = "\<lparr>opk_id = 1, opk_user = ''bo'', opk_pub = [7], opk_used = False\<rparr>"
  let ?r2 = "\<lparr>opk_id = 2, opk_user = ''bo'', opk_pub = [8], opk_used = False\<rparr>"
  note ev = handed_out_def key_world_def plain_envelope_def parse_payload_def find_by_id_def demo_readings_def
    consume_row_def unused_opks_def state_of_session_def new_session_def run_world_def Let_def
  have step: "server_step key_world sv demo_readings (Read_Done 0 (Frame [9])) (on_read key_world demo_readings 0 (Frame [9]) sv)"
    if "outstanding 0 sv" "state_of_session 0 sv = Established" for sv
    using that by (intro server_step.read) simp_all
  have out1: "handed_out key_world demo_readings (Read_Done 0 (Frame [9])) key_start = Some ?r1"
    by (simp add: ev key_start_def empty_user_db_def)
  have out2: "handed_out key_world demo_readings (Read_Done 0 (Frame [9])) key_asked = Some ?r2"
    by (simp add: ev key_asked_eq) (simp add: key_start_def)
  have "keys_ok (user_store key_start)" by (simp add: keys_ok_def key_start_def empty_user_db_def)
  moreover have "key_run key_world key_start [?r1] key_asked"
    using key_run.more [OF key_run.nothing step [of key_start]] out1
    by (simp add: key_asked_def outstanding_def state_of_session_def key_start_def new_session_def)
  moreover have "server_step key_world key_asked demo_readings (Read_Done 0 (Frame [9]))
      (on_read key_world demo_readings 0 (Frame [9]) key_asked)"
    by (rule step) (simp_all add: outstanding_def state_of_session_def key_asked_eq new_session_def)
  ultimately have "\<exists>i reply kb. sent (on_read key_world demo_readings 0 (Frame [9]) key_asked) = sent key_asked @ [(i, reply)] \<and>
      env_type reply = MT_KEY_BUNDLE \<and> env_payload reply = ser (codec key_world) (Key_Bundle kb) \<and>
      kb_recipient_for kb = opk_user ?r2 \<and> kb_one_time_prekey kb = opk_pub ?r2"
    by (rule prekeys_handed_out_once [OF _ _ _ out2, THEN conjunct2])
  then show ?thesis by auto
qed

end
