(* ===== verification/Queue_Life.thy ===== *)
theory Queue_Life
  imports Onlooker
begin

text \<open>
  The offline queue inside the running server.  Everything a step of the server does to the table of waiting
  messages is a sequence of the queue's own operations, so a property that these keep holds along every run:
  proved once, in the locale \<open>queue_keeper\<close>, and used for the limits of the queue, for what its messages are and for
  a single message that waits.
\<close>

section \<open>Which handlers write the table\<close>

interpretation mail: bystander offline_store i for i
  by unfold_locales (simp_all add: frame_simps)

lemma mail_keys [simp]:
  "offline_store (state_of (handle_key_upload r i ku sv)) = offline_store sv"
  "offline_store (handle_key_request w r i u sv) = offline_store sv"
  by (simp_all add: handle_key_upload_def handle_key_request_def Let_def split: option.split prod.split outcome.split)

lemma mail_password [simp]: "offline_store (snd (cmd_password w r args i sv)) = offline_store sv"
  by (simp add: cmd_password_def Let_def split: prod.split bool.split)

text \<open>A run whose readings all satisfy a condition.\<close>

definition runs_with :: "(readings \<Rightarrow> bool) \<Rightarrow> world \<Rightarrow> server \<Rightarrow> server \<Rightarrow> bool" where
  "runs_with calm w = (\<lambda>a b. \<exists>r e. server_step w a r e b \<and> calm r)\<^sup>*\<^sup>*"

lemma runs_with_refl: "runs_with calm w sv sv"
  by (simp add: runs_with_def)

lemma runs_with_step: "runs_with calm w a b \<Longrightarrow> server_step w b r e c \<Longrightarrow> calm r \<Longrightarrow> runs_with calm w a c"
  unfolding runs_with_def by (rule rtranclp.rtrancl_into_rtrancl) blast+

text \<open>The envelopes that are put into mailboxes: direct messages, and the change of a nickname.\<close>

definition mailable :: "envelope \<Rightarrow> bool" where
  "mailable e \<longleftrightarrow> env_type e = MT_CHAT_ENVELOPE \<or> env_type e = MT_NICK_CHANGE"

text \<open>
  What a step may do to the table beyond putting messages into it: \<open>gone\<close> are the users whose mailbox may be
  fetched, by a login, and \<open>clearing\<close> says whether an administrator may clear the database.
\<close>

definition logs_in :: "(user_id \<Rightarrow> bool) \<Rightarrow> session_id \<Rightarrow> server \<Rightarrow> server \<Rightarrow> bool" where
  "logs_in gone i sv sv' \<longleftrightarrow>
     (state_of_session i sv \<noteq> Established \<longrightarrow> state_of_session i sv' = Established \<longrightarrow> gone (session_user i sv'))"

definition undisturbed :: "(user_id \<Rightarrow> bool) \<Rightarrow> bool \<Rightarrow> server \<Rightarrow> server \<Rightarrow> bool" where
  "undisturbed gone clearing sv sv' \<longleftrightarrow>
     (\<forall>i. logs_in gone i sv sv' \<and> (clearing \<or> session_user i sv \<noteq> ''admin''))"

lemma undisturbed_all [simp]: "undisturbed (\<lambda>_. True) True sv sv'"
  by (simp add: undisturbed_def logs_in_def)

locale queue_keeper =
  fixes Q :: "offline_db \<Rightarrow> bool" and w :: world and calm :: "readings \<Rightarrow> bool"
    and gone :: "user_id \<Rightarrow> bool" and clearing :: bool
  assumes saves: "Q db \<Longrightarrow> calm r \<Longrightarrow> mailable e \<Longrightarrow>
      Q (snd (save (save_faults_at r c u) t u (ser_envelope (codec w) e) db))"
    and fetches: "Q db \<Longrightarrow> gone u \<Longrightarrow> Q (snd (fetch_and_delete f t u db))"
    and expires: "Q db \<Longrightarrow> calm r \<Longrightarrow> Q (snd (cleanup_expired b (unix_time r) db))"
    and clears: "Q db \<Longrightarrow> clearing \<Longrightarrow> Q (delete_offline_messages db)"
begin

lemma save_keeps:
  assumes "Q (offline_store sv)" "calm r" "mailable e"
  shows "Q (offline_store (snd (save_offline r c u (ser_envelope (codec w) e) sv)))"
  using saves [OF assms, of c u "unix_time r"] by (auto simp: save_offline_def split: prod.split)

lemma deliver_keeps:
  assumes "calm r" "mailable e"
  shows "Q (offline_store sv) \<Longrightarrow> Q (offline_store (deliver_to_members w r c e ex us sv))"
proof (induction us arbitrary: sv)
  case (Cons u us)
  with save_keeps [OF Cons.prems assms] show ?case by (simp split: option.split)
qed simp

lemma announce_keeps:
  assumes "calm r" "mailable e"
  shows "Q (offline_store sv) \<Longrightarrow> Q (offline_store (announce_nick w r u e cs sv))"
proof (induction cs arbitrary: sv)
  case (Cons c cs)
  have "Q (offline_store (broadcast_to_channel w r c e None sv))"
    using Cons.prems deliver_keeps [OF assms] by (simp add: broadcast_to_channel_def split: option.split)
  with Cons show ?case by simp
qed simp

lemma nick_keeps: "Q (offline_store sv) \<Longrightarrow> calm r \<Longrightarrow> Q (offline_store (snd (cmd_nick w r args i sv)))"
  by (auto simp: cmd_nick_def Let_def mailable_def intro!: announce_keeps)

lemma chat_keeps:
  assumes "Q (offline_store sv)" "calm r" "mailable env"
  shows "Q (offline_store (handle_chat w r i chat env sv))"
proof -
  have "Q (offline_store sv1)" if "save_offline r c u (ser_envelope (codec w) env) sv = (b, sv1)" for b sv1 c u
    using save_keeps [OF assms, of c u] that by simp
  with assms(1) show ?thesis by (auto simp: handle_chat_def split: option.split prod.split bool.split)
qed

lemma reset_keeps:
  "Q (offline_store sv) \<Longrightarrow> clearing \<or> session_user i sv \<noteq> ''admin'' \<Longrightarrow> Q (offline_store (snd (cmd_resetdb r i sv)))"
  by (auto simp: cmd_resetdb_def Let_def clears split: outcome.split)

lemma command_keeps:
  assumes "Q (offline_store sv)" "calm r" "clearing \<or> session_user i sv \<noteq> ''admin''"
  shows "Q (offline_store (session_command w r i cmd sv))"
proof -
  have "Q (offline_store (snd (handle_command w r cmd i sv)))"
  proof (cases rule: handle_command_states [of w r cmd i sv])
    case (5 res)
    from 5(1) have "Q (offline_store (snd res))"
      by (cases rule: run_command_states) (simp_all add: assms nick_keeps reset_keeps)
    with 5(2) show ?thesis by simp
  qed (simp_all add: assms)
  then have "Q (offline_store sv1)" if "handle_command w r cmd i sv = (resp, sv1)" for resp sv1
    using that by simp
  with assms(1) show ?thesis by (auto simp: session_command_def split: prod.split)
qed

lemma login_keeps: "Q (offline_store sv) \<Longrightarrow> gone u \<Longrightarrow> Q (offline_store (auth_success w r i u sv))"
proof -
  assume "Q (offline_store sv)" "gone u"
  then have "Q db" if "fetch_and_delete f t u (offline_store sv) = (msgs, db)" for f t msgs db
    using fetches [of "offline_store sv" u f t] that by simp
  then show ?thesis by (simp add: auth_success_eq Let_def frame_simps split: prod.split)
qed

lemma auth_keeps:
  assumes "Q (offline_store sv)" "state_of_session i sv = Auth_Pending"
    and "logs_in gone i sv (state_of (handle_auth_response w r i auth sv))"
  shows "Q (offline_store (state_of (handle_auth_response w r i auth sv)))"
proof -
  have some: "session_view (sv\<lparr>user_store := db\<rparr>) i \<noteq> None" for db
    using assms(2) by (auto simp: view_user_store view_state split: option.splits)
  have "Q (offline_store (auth_success w r i (ar_user_id auth) (sv\<lparr>user_store := db\<rparr>)))"
    if "logs_in gone i sv (auth_success w r i (ar_user_id auth) (sv\<lparr>user_store := db\<rparr>))" for db
    using that assms(1,2) by (intro login_keeps) (simp_all add: logs_in_def view_state view_user auth_success_view [OF some])
  with assms show ?thesis
    by (auto simp: handle_auth_response_def Let_def split: prod.split account_result.split prod.splits account_result.splits)
qed

lemma envelope_keeps:
  assumes "Q (offline_store sv)" "calm r"
    and und: "logs_in gone i sv (state_of (handle_envelope w r i env sv))" "clearing \<or> session_user i sv \<noteq> ''admin''"
  shows "Q (offline_store (state_of (handle_envelope w r i env sv)))"
proof (cases "env_type env")
  case MT_CHAT_ENVELOPE
  then have "mailable env" by (simp add: mailable_def)
  then have "Q (offline_store (handle_chat w r i chat env sv1))" if "msg_allowed r i sv = (b, sv1)" for b sv1 chat
    using assms mail.msg_allowed_view [OF that] by (intro chat_keeps) simp_all
  with MT_CHAT_ENVELOPE assms show ?thesis
    by (auto simp: handle_envelope_def Let_def dest: mail.msg_allowed_view split: option.split prod.split bool.split)
next
  case MT_VOICE_SIGNAL
  with assms show ?thesis
    by (auto simp: handle_envelope_def Let_def dest: mail.msg_allowed_view split: option.split prod.split bool.split)
next
  case MT_AUTH_RESPONSE
  with assms show ?thesis by (auto simp: handle_envelope_def Let_def intro!: auth_keeps split: option.split)
next
  case MT_COMMAND
  with assms show ?thesis by (simp add: handle_envelope_def Let_def command_keeps split: option.split)
qed (use assms in \<open>simp_all add: handle_envelope_def Let_def split: option.split\<close>)

lemma read_keeps:
  assumes "Q (offline_store sv)" "calm r" "logs_in gone i sv (on_read w r i res sv)" "clearing \<or> session_user i sv \<noteq> ''admin''"
  shows "Q (offline_store (on_read w r i res sv))"
proof (cases res)
  case (Frame data)
  let ?sv = "set_reading False i sv"
  have "Q (offline_store (state_of (handle_envelope w r i env ?sv)))" if "parse_envelope (codec w) data = Some env" for env
  proof (rule envelope_keeps)
    have "session_view (on_read w r i res sv) = session_view (state_of (handle_envelope w r i env ?sv))"
      by (simp add: on_read_def Frame on_frame_received_def that reading_view)
    with assms(3) show "logs_in gone i ?sv (state_of (handle_envelope w r i env ?sv))"
      by (simp add: logs_in_def view_state view_user reading_view)
  qed (use assms in \<open>simp_all add: view_user reading_view\<close>)
  with assms(1) show ?thesis by (simp add: Frame mail.view_read split: option.split)
qed (simp_all add: mail.view_read assms(1))

lemma step_keeps:
  assumes "server_step w sv r e sv'" "calm r" "Q (offline_store sv)" "undisturbed gone clearing sv sv'"
  shows "Q (offline_store sv')"
  using assms(1)
proof cases
  case (accept ip ep)
  have "offline_store sv' = offline_store sv"
    by (simp add: accept(2) do_accept_def Let_def split: prod.split bool.split)
  with assms(3) show ?thesis by simp
next
  case (admin c ps st)
  from admin_states [of sv w r st c ps] assms(3) show ?thesis
    unfolding admin by cases (simp_all add: disconnect_def set_max_connections_def set_rate_limits_def set_motd_def)
next
  case (read i res)
  with assms show ?thesis by (simp add: read_keeps undisturbed_def)
qed (use assms in \<open>simp_all add: expires run_cleanup_def on_signal_def shutdown_def\<close>)

text \<open>Along a run whose readings are all calm and whose steps do no more.\<close>

lemma run_keeps:
  assumes "(\<lambda>a b. \<exists>r e. server_step w a r e b \<and> calm r \<and> undisturbed gone clearing a b)\<^sup>*\<^sup>* sv sv'" "Q (offline_store sv)"
  shows "Q (offline_store sv')"
  using assms by (induction rule: rtranclp_induct) (auto intro: step_keeps)

end

section \<open>The limits\<close>

definition counts_run :: "readings \<Rightarrow> bool" where
  "counts_run r \<longleftrightarrow> (\<forall>c u. \<not> user_count_fails (save_faults_at r c u) \<and> \<not> evict_fails (save_faults_at r c u))"

interpretation limits: queue_keeper within_limits w counts_run "\<lambda>_. True" True for w
proof
  show "within_limits (delete_offline_messages db)" if "within_limits db" for db
    by (simp add: within_limits_def delete_offline_messages_def user_rows_def)
qed (simp_all add: inv_intros counts_run_def)


lemma run_counts: "counts_run demo_readings"
  by (simp add: counts_run_def demo_readings_def no_save_faults_def)


end
