(* ===== verification/Store_Forward.thy ===== *)
theory Store_Forward
  imports Queue_Life Delivery
begin

text \<open>
  Store and forward, from end to end: a chat message to a user who is away, the time it waits in the mailbox while
  the server goes on with everything else, and the login at which it is written to its recipient.
\<close>

section \<open>A message that waits\<close>

text \<open>The row of the message is there, at least until a full table's worth of messages has come after it.\<close>

definition row_waits :: "offline_row \<Rightarrow> offline_db \<Rightarrow> bool" where
  "row_waits row db \<longleftrightarrow> ids_ok db \<and> om_id row < om_next db \<and>
     (om_next db < om_id row + kMaxTotalMessages \<longrightarrow> row \<in> set (om_rows db))"

lemma row_waits_filter:
  assumes "row_waits row db" "P row"
  shows "row_waits row (db\<lparr>om_rows := filter P (om_rows db)\<rparr>)"
  using assms by (auto simp: row_waits_def inv_intros)

text \<open>The oldest row goes only when the table is full, and then many rows are younger than it.\<close>

lemma rows_younger:
  assumes "ids_ok db" "\<And>r. r \<in> set (om_rows db) \<Longrightarrow> n \<le> om_id r"
  shows "n + length (om_rows db) \<le> max n (om_next db)"
proof -
  let ?ids = "map om_id (om_rows db)"
  have "distinct ?ids" using assms(1) by (auto simp: ids_ok_def strict_sorted_iff)
  then have "length (om_rows db) = card (set ?ids)" by (metis distinct_card length_map)
  also have "\<dots> \<le> card {n..<om_next db}"
    using assms by (intro card_mono) (auto simp: ids_ok_def)
  finally show ?thesis by simp
qed

lemma row_waits_room:
  assumes "row_waits row db"
  shows "row_waits row (make_room b db)"
proof (cases "length (om_rows db) \<ge> kMaxTotalMessages \<and> om_next db < om_id row + kMaxTotalMessages")
  case True
  have ok: "ids_ok db" and row: "row \<in> set (om_rows db)" "om_id row < om_next db" using assms True by (auto simp: row_waits_def)
  have "om_id row \<noteq> Min (om_id ` set (om_rows db))"
  proof
    assume "om_id row = Min (om_id ` set (om_rows db))"
    then have "\<And>r. r \<in> set (om_rows db) \<Longrightarrow> om_id row \<le> om_id r" by simp
    from rows_younger [OF ok this] show False using True row(2) by auto
  qed
  with assms show ?thesis
    by (simp add: make_room_def drop_oldest_def row_waits_filter)
next
  case False
  with assms show ?thesis
    using ids_ok_make_room [of db b] by (auto simp: row_waits_def make_room_def)
qed

lemma row_waits_insert: "row_waits row db \<Longrightarrow> row_waits row (insert_row now u p db)"
  using ids_ok_insert [of db now u p] by (auto simp: row_waits_def insert_row_def)

interpretation waiting: queue_keeper "row_waits row" w "\<lambda>r. unix_time r < om_expires_at row" "\<lambda>u. u \<noteq> om_recipient row" False
  for row w
proof
  fix db r c u t f b and e :: envelope
  assume row: "row_waits row db"
  show "row_waits row (snd (save (save_faults_at r c u) t u (ser_envelope (codec w) e) db))"
    using row by (simp add: save_def Let_def row_waits_room row_waits_insert)
  show "row_waits row (snd (fetch_and_delete f t u db))" if "u \<noteq> om_recipient row"
    using row that by (cases f) (simp_all add: fetch_and_delete_def row_waits_filter)
  show "row_waits row (snd (cleanup_expired b (unix_time r) db))" if "unix_time r < om_expires_at row"
    using row that by (simp add: cleanup_expired_def row_waits_filter)
qed simp_all

text \<open>
  The time between: the user does not log in, no message expires, and nobody is connected as the user \<open>admin\<close>, who
  alone may clear the database.
\<close>

definition waits_for :: "world \<Rightarrow> user_id \<Rightarrow> time \<Rightarrow> server \<Rightarrow> server \<Rightarrow> bool" where
  "waits_for w v limit =
     (\<lambda>a b. \<exists>r e. server_step w a r e b \<and> unix_time r < limit \<and> undisturbed (\<lambda>u. u \<noteq> v) False a b)\<^sup>*\<^sup>*"

lemma waits_row:
  "waits_for w (om_recipient row) (om_expires_at row) a b \<Longrightarrow> row_waits row (offline_store a) \<Longrightarrow> row_waits row (offline_store b)"
  unfolding waits_for_def by (rule waiting.run_keeps)

lemma waits_registry: "waits_for w v limit a b \<Longrightarrow> registry_ok a \<Longrightarrow> registry_ok b"
  unfolding waits_for_def by (induction rule: rtranclp_induct) (auto intro: step_registry)

section \<open>Correctness\<close>

text \<open>A message that was accepted for the mailbox is a row that waits.\<close>

lemma saved_row_waits:
  assumes "save f t u p db = (True, db')" "ids_ok db"
  shows "row_waits \<lparr>om_id = om_next db, om_recipient = u, om_payload = p, om_stored_at = t, om_expires_at = t + kTtlSeconds\<rparr> db'"
proof -
  have "db' = insert_row t u p (make_room (evict_fails f) db)"
    using assms(1) by (auto simp: save_def Let_def split: if_splits)
  moreover have "om_next (make_room b db) = om_next db" for b by (simp add: make_room_def)
  ultimately show ?thesis
    using ids_ok_insert [OF ids_ok_make_room [OF assms(2)], of t u p "evict_fails f"]
    by (simp add: row_waits_def) (simp add: insert_row_def)
qed

lemma row_pending:
  assumes "row \<in> set (om_rows db)" "now < om_expires_at row"
  shows "om_payload row \<in> set (pending now (om_recipient row) db)"
  using assms by (auto simp: pending_def user_rows_def)


text \<open>The user \<open>al\<close> writes to \<open>bo\<close>, whose client is connected but has not logged in yet.\<close>

definition forward_world :: world where
  "forward_world = run_world\<lparr>codec := run_codec\<lparr>ser_envelope := (\<lambda>e. 10 # env_payload e),
     parse_chat := (\<lambda>b. Some \<lparr>ch_sender_id = ''al'', ch_recipient_id = ''bo'', ch_ciphertext = b\<rparr>),
     parse_auth := (\<lambda>b. Some \<lparr>ar_user_id = ''bo'', ar_identity_pub = replicate 32 5, ar_signature = replicate 64 6,
       ar_signed_prekey = [], ar_spk_sig = [], ar_password = []\<rparr>)\<rparr>\<rparr>"

definition forward_start :: server where
  "forward_start = initial_server\<lparr>sessions := [0 \<mapsto> (new_session ''h'')\<lparr>s_state := Established, s_user := ''al''\<rparr>,
       1 \<mapsto> (new_session ''g'')\<lparr>s_state := Auth_Pending\<rparr>],
     next_session := 2, by_user := [''al'' \<mapsto> 0], by_session := [0 \<mapsto> ''al'']\<rparr>"

definition forward_chat :: server where
  "forward_chat = on_read forward_world demo_readings 0 (Frame [10, 1]) forward_start"

definition forward_login :: server where
  "forward_login = on_read forward_world demo_readings 1 (Frame [3, 0]) forward_chat"

lemma forward_start_ok: "registry_ok forward_start" "stores_ok forward_start"
proof -
  show "registry_ok forward_start"
    by (auto simp: registry_ok_def forward_start_def initial_server_def split: if_splits)
  show "stores_ok forward_start"
    by (simp add: stores_ok_def forward_start_def initial_server_def inv_intros empty_voice_ok channels_ok_def nicks_ok_def
        channel_of_def empty_commands_def)
qed

lemma forward_chat_eq:
  "sessions forward_chat = sessions forward_start" "by_user forward_chat = by_user forward_start"
  "user_store forward_chat = empty_user_db" "sent forward_chat = []" "om_next (offline_store forward_chat) = 2"
  by (simp_all add: forward_chat_def on_read_def on_frame_received_def handle_envelope_def handle_chat_def msg_allowed_def
      parse_payload_def forward_world_def run_world_def run_codec_def plain_envelope_def is_channel_recipient_def
      find_session_def save_offline_def save_def make_room_def insert_row_def no_save_faults_def demo_readings_def
      next_read_def set_reading_def upd_session_def forward_start_def initial_server_def empty_offline_def
      state_of_session_def session_user_def new_session_def kMaxMessagesPerUser_def kMaxTotalMessages_def Let_def fun_eq_iff)

lemma forward_login_view: "session_view forward_login 1 = Some (Established, ''bo'')"
proof -
  let ?sv = "set_reading False 1 forward_chat" and ?env = "plain_envelope MT_AUTH_RESPONSE [0]"
  let ?auth = "\<lparr>ar_user_id = ''bo'', ar_identity_pub = replicate 32 5, ar_signature = replicate 64 6,
    ar_signed_prekey = [], ar_spk_sig = [], ar_password = []\<rparr>"
  have st: "state_of_session 1 ?sv = Auth_Pending" and store: "user_store ?sv = empty_user_db"
    by (simp_all add: set_reading_def sessions_upd frame_simps state_of_session_def forward_chat_eq forward_start_def)
  have parse: "parse_envelope (codec forward_world) [3, 0] = Some ?env"
      "parse_payload (parse_auth (codec forward_world)) ?env = Some ?auth"
    by (simp_all add: forward_world_def run_codec_def parse_payload_def plain_envelope_def)
  have names: "normalize_nickname ''al'' \<noteq> normalize_nickname ''bo''" by code_simp
  have "login_ok forward_world 1 ?auth ?sv"
    by (simp add: login_ok_def is_valid_user_id_def is_nickname_available_def reading_users forward_chat_eq forward_start_def
        forward_world_def run_world_def demo_world_def names)
  moreover obtain db where "auth_account forward_world demo_readings ?auth (user_store ?sv) = (Account_Ok, db)"
    unfolding store
    by (simp add: auth_account_def find_by_id_def empty_user_db_def demo_readings_def insert_user_def store_offered_spk_def)
  ultimately have "handle_auth_response forward_world demo_readings 1 ?auth ?sv =
      Returned (auth_success forward_world demo_readings 1 ''bo'' (?sv\<lparr>user_store := db\<rparr>))"
    by (simp add: handle_auth_response_def login_ok_def Let_def)
  with st parse have eq: "forward_login = next_read 1 (auth_success forward_world demo_readings 1 ''bo'' (?sv\<lparr>user_store := db\<rparr>))"
    by (simp add: forward_login_def on_read_def on_frame_received_def handle_envelope_def Let_def plain_envelope_def)
  have some: "session_view (?sv\<lparr>user_store := db\<rparr>) 1 \<noteq> None"
    using st by (auto simp: view_user_store view_state split: option.splits)
  show ?thesis unfolding eq reading_view auth_success_view(1) [OF some] by simp
qed


end
