(* ===== verification/Presence_View.thy ===== *)
theory Presence_View
  imports Queue_Life Delivery
begin

text \<open>
  What a client is told about who is online.  A session gets the list of the users online when it logs in, and
  from then on a message for each user who comes and goes.  A client that applies these messages in order to an
  empty set knows everybody who is connected and authenticated, and nobody who is gone: in every reachable state,
  whatever the other clients do.
\<close>

section \<open>The client's side\<close>

text \<open>\<open>dec\<close> reads the payload of a presence message.\<close>

definition hear :: "(bytes \<Rightarrow> (user_id \<times> presence_status) option) \<Rightarrow> user_id set \<Rightarrow> envelope \<Rightarrow> user_id set" where
  "hear dec A e =
     (if env_type e \<noteq> MT_PRESENCE then A
      else case dec (env_payload e) of
             None \<Rightarrow> A
           | Some (u, st) \<Rightarrow> if st = OFFLINE then A - {u} else insert u A)"

definition told :: "(bytes \<Rightarrow> (user_id \<times> presence_status) option) \<Rightarrow> session_id \<Rightarrow> (session_id \<times> envelope) list \<Rightarrow>
    user_id set" where
  "told dec i xs = foldl (hear dec) {} (map snd (filter (\<lambda>(j, e). j = i) xs))"

text \<open>What the parser of the messages promises: presence messages are read back, and a message's type is kept.\<close>

definition reads_presence :: "world \<Rightarrow> (bytes \<Rightarrow> (user_id \<times> presence_status) option) \<Rightarrow> bool" where
  "reads_presence w dec \<longleftrightarrow> (\<forall>u st. dec (ser (codec w) (Presence u st)) = Some (u, st))"

definition keeps_types :: "world \<Rightarrow> bool" where
  "keeps_types w \<longleftrightarrow> (\<forall>e e'. (\<forall>k. env_type e \<noteq> MT_OTHER k) \<longrightarrow>
     parse_envelope (codec w) (ser_envelope (codec w) e) = Some e' \<longrightarrow> env_type e' = env_type e)"

section \<open>Writes that are no presence messages\<close>

abbreviation quiet :: "server \<Rightarrow> server \<Rightarrow> bool" where
  "quiet \<equiv> sends (\<lambda>j e. env_type e \<noteq> MT_PRESENCE)"

interpretation quiet: talk_policy "\<lambda>j e. env_type e \<noteq> MT_PRESENCE"
  by unfold_locales simp

lemma told_quiet:
  assumes "quiet sv sv'"
  shows "told dec i (sent sv') = told dec i (sent sv)"
proof -
  have "foldl (hear dec) A (map snd (filter (\<lambda>(j, e). j = i) xs)) = A"
    if "\<forall>(j, e) \<in> set xs. env_type e \<noteq> MT_PRESENCE" for A xs
    using that by (induction xs arbitrary: A) (auto simp: hear_def)
  with assms show ?thesis by (auto simp: sends_def told_def)
qed

lemma chat_quiet:
  assumes "env_type env = MT_CHAT_ENVELOPE"
  shows "quiet sv (handle_chat w r i chat env sv)"
proof -
  have "quiet sv sv1" if "save_offline r c u p sv = (b, sv1)" for c u p b sv1
    using sent_gates(6) [of r c u p sv] that sends_same [OF sends_refl] by simp
  moreover have "quiet sv (send_error w r i code msg sv')" if "quiet sv sv'" for code msg sv'
    using that by (auto intro!: sends_error)
  moreover have "quiet sv (broadcast w env ex sv)" for ex
    using assms by (intro sends_broadcast sends_refl) simp
  moreover have "quiet sv (send_env j env sv)" for j using assms by (intro sends_env sends_refl) simp
  ultimately show ?thesis
    by (auto simp: handle_chat_def sends_refl split: option.split prod.split bool.split)
qed

lemma signal_quiet: "env_type env = MT_VOICE_SIGNAL \<Longrightarrow> quiet sv (handle_voice_signal w r i vs env sv)"
  unfolding handle_voice_signal_def
  by (simp add: sends_refl sends_env sends_error sends_envelope split: option.split)

lemma hello_quiet: "quiet sv (handle_hello w r i h sv)"
  by (auto simp: handle_hello_def Let_def sends_refl intro!: sends_error sends_envelope)

lemma auth_quiet:
  "quiet sv (state_of (handle_auth_response w r i auth sv)) \<or>
   (\<exists>db. state_of (handle_auth_response w r i auth sv) = auth_success w r i (ar_user_id auth) (sv\<lparr>user_store := db\<rparr>))"
proof (cases rule: auth_response_cases [of w r i auth sv])
  case 2
  then show ?thesis by blast
next
  case 1
  have same: "quiet sv (sv\<lparr>user_store := db\<rparr>)" for db by (simp add: sends_refl)
  have "quiet sv (auth_error w r i code msg sv')" "quiet sv (auth_fail w r i code msg sv')" if "quiet sv sv'" for code msg sv'
    using that by (auto intro!: sends_error sends_auth_fail)
  note refused = this [OF sends_refl] this [OF same]
  show ?thesis
  proof (cases "login_ok w i auth sv")
    case True
    obtain res db where "auth_account w r auth (user_store sv) = (res, db)" by fastforce
    with True same show ?thesis
      by (cases res) (auto simp: handle_auth_response_def login_ok_def refused Let_def)
  qed (auto simp: handle_auth_response_def login_ok_def refused Let_def)
qed

text \<open>A frame writes no presence message unless it logs its session in.\<close>

lemma envelope_quiet:
  "quiet sv (state_of (handle_envelope w r i env sv)) \<or>
   (\<exists>u db. state_of_session i sv = Auth_Pending \<and>
      state_of (handle_envelope w r i env sv) = auth_success w r i u (sv\<lparr>user_store := db\<rparr>))"
proof -
  have err: "quiet sv (send_error w r i code msg sv)" for code msg by (auto simp: sends_refl intro!: sends_error)
  show ?thesis
  proof (cases "env_type env")
    case MT_AUTH_RESPONSE
    show ?thesis
    proof (cases "state_of_session i sv = Auth_Pending \<and> parse_payload (parse_auth (codec w)) env \<noteq> None")
      case True
      then obtain auth where "parse_payload (parse_auth (codec w)) env = Some auth" by auto
      with True have "state_of (handle_envelope w r i env sv) = state_of (handle_auth_response w r i auth sv)"
        by (simp add: handle_envelope_def MT_AUTH_RESPONSE)
      with True auth_quiet [of sv w r i auth] show ?thesis by auto
    next
      case False
      then show ?thesis
        by (auto simp: handle_envelope_def MT_AUTH_RESPONSE Let_def sends_refl intro!: sends_error split: option.split)
    qed
  next
    case MT_CHAT_ENVELOPE
    have "quiet sv sv1" if "msg_allowed r i sv = (b, sv1)" for b sv1
      using sent_gates(5) [of r i sv] that sends_same [OF sends_refl] by simp
    then show ?thesis using MT_CHAT_ENVELOPE sends_trans [OF _ chat_quiet]
      by (auto simp: handle_envelope_def Let_def sends_refl intro!: sends_error split: option.split prod.split bool.split)
  next
    case MT_VOICE_SIGNAL
    have "quiet sv sv1" if "msg_allowed r i sv = (b, sv1)" for b sv1
      using sent_gates(5) [of r i sv] that sends_same [OF sends_refl] by simp
    then show ?thesis using MT_VOICE_SIGNAL sends_trans [OF _ signal_quiet]
      by (auto simp: handle_envelope_def Let_def sends_refl intro!: sends_error split: option.split prod.split bool.split)
  next
    case MT_PING
    then show ?thesis
      by (auto simp: handle_envelope_def handle_ping_def Let_def sends_refl intro!: sends_env split: option.split)
  next
    case MT_HELLO
    then show ?thesis
      by (auto simp: handle_envelope_def Let_def sends_refl hello_quiet intro!: sends_error split: option.split)
  qed (simp_all add: handle_envelope_def Let_def sends_refl err quiet.voice_room_sends quiet.key_sends
      quiet.session_command_sends quiet.file_sends split: option.split)
qed

section \<open>The messages waiting in mailboxes\<close>

text \<open>None of them is a presence message, so a login hears only of those the listener sends.\<close>

definition mail_quiet :: "world \<Rightarrow> offline_db \<Rightarrow> bool" where
  "mail_quiet w db \<longleftrightarrow> (\<forall>m \<in> set (om_rows db). \<forall>e.
     parse_envelope (codec w) (om_payload m) = Some e \<longrightarrow> env_type e \<noteq> MT_PRESENCE)"

lemma mail_quiet_filter: "mail_quiet w db \<Longrightarrow> mail_quiet w (db\<lparr>om_rows := filter P (om_rows db)\<rparr>)"
  by (auto simp: mail_quiet_def)

interpretation silent_mail: queue_keeper "\<lambda>db. keeps_types w \<longrightarrow> mail_quiet w db" w "\<lambda>_. True" "\<lambda>_. True" True for w
proof
  fix db r e c t u f b
  assume ok: "keeps_types w \<longrightarrow> mail_quiet w db"
  show "keeps_types w \<longrightarrow> mail_quiet w (snd (save (save_faults_at r c u) t u (ser_envelope (codec w) e) db))"
    if "mailable e"
  proof
    assume law: "keeps_types w"
    have room: "mail_quiet w (make_room b db)" for b
      using ok law by (simp add: make_room_def drop_oldest_def mail_quiet_filter)
    have named: "\<forall>k. env_type e \<noteq> MT_OTHER k" "env_type e \<noteq> MT_PRESENCE"
      using \<open>mailable e\<close> by (auto simp: mailable_def)
    then have "env_type e' \<noteq> MT_PRESENCE" if "parse_envelope (codec w) (ser_envelope (codec w) e) = Some e'" for e'
      using law that unfolding keeps_types_def by metis
    then have "mail_quiet w (insert_row t u (ser_envelope (codec w) e) db1)" if "mail_quiet w db1" for db1
      using that by (auto simp: mail_quiet_def insert_row_def)
    with room ok law show "mail_quiet w (snd (save (save_faults_at r c u) t u (ser_envelope (codec w) e) db))"
      by (auto simp: save_def Let_def)
  qed
  show "keeps_types w \<longrightarrow> mail_quiet w (snd (fetch_and_delete f t u db))"
    using ok by (cases f) (simp_all add: fetch_and_delete_def mail_quiet_filter)
  show "keeps_types w \<longrightarrow> mail_quiet w (snd (cleanup_expired b t db))"
    using ok by (simp add: cleanup_expired_def mail_quiet_filter)
  show "keeps_types w \<longrightarrow> mail_quiet w (delete_offline_messages db)"
    by (simp add: mail_quiet_def delete_offline_messages_def)
qed

lemma fetched_quiet:
  assumes "mail_quiet w db" "fetch_and_delete f t u db = (msgs, db')" "p \<in> set msgs"
    and "parse_envelope (codec w) p = Some e"
  shows "env_type e \<noteq> MT_PRESENCE"
proof -
  have "\<exists>m \<in> set (om_rows db). p = om_payload m"
    using assms(2,3) by (cases f) (auto simp: fetch_and_delete_def dest!: in_set_takeD)
  with assms(1,4) show ?thesis by (auto simp: mail_quiet_def)
qed

lemma offline_quiet:
  assumes "\<And>p e. p \<in> set ps \<Longrightarrow> parse_envelope (codec w) p = Some e \<Longrightarrow> env_type e \<noteq> MT_PRESENCE" "quiet sv0 sv"
  shows "quiet sv0 (send_offline w i ps sv)"
  using assms
proof (induction ps arbitrary: sv)
  case (Cons p ps)
  have "quiet sv0 (case parse_envelope (codec w) p of None \<Rightarrow> sv | Some env \<Rightarrow> send_env i env sv)"
    using Cons.prems by (auto intro!: sends_env split: option.split)
  with Cons.prems(1) show ?case unfolding send_offline.simps by (intro Cons.IH) auto
qed simp

section \<open>Coming and going\<close>

lemma told_append: "told dec i (xs @ ys) = foldl (hear dec) (told dec i xs) (map snd (filter (\<lambda>(j, e). j = i) ys))"
  by (simp add: told_def)

lemma hear_presence:
  "reads_presence w dec \<Longrightarrow> hear dec A (presence_envelope w r u st) = (if st = OFFLINE then A - {u} else insert u A)"
  by (simp add: hear_def presence_envelope_def reads_presence_def)

text \<open>A broadcast is heard by its targets, any number of times.\<close>

lemma told_broadcast:
  assumes "reads_presence w dec"
  shows "told dec i (sent (broadcast_presence w r u st ex sv)) =
    (if i \<in> set (broadcast_targets w ex sv)
     then (if st = OFFLINE then told dec i (sent sv) - {u} else insert u (told dec i (sent sv)))
     else told dec i (sent sv))"
proof -
  have "foldl (hear dec) A (map snd (filter (\<lambda>(j, e). j = i) (map (\<lambda>j. (j, presence_envelope w r u st)) is))) =
      (if i \<in> set is then (if st = OFFLINE then A - {u} else insert u A) else A)" for A "is"
    by (induction "is" arbitrary: A) (auto simp: hear_presence [OF assms])
  then show ?thesis by (simp add: broadcast_presence_def broadcast_eq told_append)
qed

lemma told_snapshot:
  assumes "reads_presence w dec"
  shows "told dec j (sent (send_presence_snapshot w r i us sv)) =
    (if j = i then told dec i (sent sv) \<union> set us else told dec j (sent sv))"
proof -
  have "foldl (hear dec) A (map snd (filter (\<lambda>(k, e). k = j) (map (\<lambda>u. (i, presence_envelope w r u ONLINE)) us))) =
      (if j = i then A \<union> set us else A)" for A
    by (induction us arbitrary: A) (auto simp: hear_presence [OF assms])
  then show ?thesis by (simp add: snapshot_eq told_append)
qed

section \<open>The invariant\<close>

text \<open>A session that has not logged in yet.\<close>

definition fresh :: "session_id \<Rightarrow> server \<Rightarrow> bool" where
  "fresh i sv \<longleftrightarrow> (case session_view sv i of None \<Rightarrow> True | Some (st, u) \<Rightarrow> st < Established)"

definition connected :: "server \<Rightarrow> user_id set" where
  "connected sv = {u. \<exists>j. by_user sv u = Some j \<and> is_established j sv}"

definition presence_ok :: "(bytes \<Rightarrow> (user_id \<times> presence_status) option) \<Rightarrow> server \<Rightarrow> bool" where
  "presence_ok dec sv \<longleftrightarrow>
     (\<forall>i. by_session sv i \<noteq> None \<longrightarrow>
        connected sv \<subseteq> told dec i (sent sv) \<and> told dec i (sent sv) \<subseteq> dom (by_user sv)) \<and>
     (\<forall>i. fresh i sv \<longrightarrow> told dec i (sent sv) = {})"

lemma is_established_view: "is_established i sv \<longleftrightarrow> (\<exists>u. session_view sv i = Some (Established, u))"
  by (auto simp: is_established_def session_view_def split: option.split)

lemma fresh_unregistered:
  assumes "registry_ok sv" "fresh k sv"
  shows "by_session sv k = None"
proof (rule ccontr)
  assume "by_session sv k \<noteq> None"
  then obtain v where "by_session sv k = Some v" by auto
  with assms(1) obtain s where "sessions sv k = Some s" "Established \<le> s_state s" by (rule registry_session)
  with assms(2) show False by (simp add: fresh_def session_view_def)
qed

lemma connected_dom: "connected sv \<subseteq> dom (by_user sv)"
  by (auto simp: connected_def)

text \<open>A step that writes no presence message, and registers and establishes nobody.\<close>

lemma presence_quiet:
  assumes ok: "presence_ok dec sv" and "quiet sv sv'" "by_user sv' = by_user sv" "by_session sv' = by_session sv"
    and est: "\<And>u j. by_user sv u = Some j \<Longrightarrow> is_established j sv' \<Longrightarrow> is_established j sv"
    and fr: "\<And>i. fresh i sv' \<Longrightarrow> fresh i sv"
  shows "presence_ok dec sv'"
proof -
  have "connected sv' \<subseteq> connected sv" using assms(3) est by (auto simp: connected_def)
  with ok fr show ?thesis
    by (auto simp: presence_ok_def told_quiet [OF assms(2)] assms(3,4) subset_iff)
qed

lemma presence_same_registry:
  assumes "presence_ok dec sv" "quiet sv sv'" "registry sv' = registry sv"
  shows "presence_ok dec sv'"
  by (rule presence_quiet [OF assms(1,2)])
     (simp_all add: is_established_view fresh_def registry_eqD(1,2) [OF assms(3)] view_of_registry [OF assms(3)])

text \<open>Somebody goes.\<close>

lemma presence_disconnected:
  assumes ok: "presence_ok dec sv" and w: "world_ok w" "registry_ok sv" "reads_presence w dec" and names: "by_user sv [] = None"
  shows "presence_ok dec (on_session_disconnected w r i sv)"
proof (cases "by_session sv i")
  case None
  then have "on_session_disconnected w r i sv = sv\<lparr>active_connections := active_connections sv - 1\<rparr>"
    by (simp add: on_session_disconnected_def)
  with ok show ?thesis by (simp add: presence_same_registry [OF ok] sends_same [OF sends_refl])
next
  case (Some u)
  let ?sv1 = "unregister i u (sv\<lparr>active_connections := active_connections sv - 1\<rparr>)"
  let ?sv2 = "broadcast_presence w r u OFFLINE None ?sv1"
  let ?sv' = "on_session_disconnected w r i sv"
  have u: "by_user sv u = Some i" using Some registry_inverse [OF w(2)] by simp
  with names have "u \<noteq> []" by auto
  have reg1: "registry_ok ?sv1"
    by (rule unregister_registry) (use w(2) Some in \<open>simp_all add: registry_ok_def\<close>)
  have leave: "t \<noteq> MT_PRESENCE" if "voice_disconnect u v = (ns, v')" "(p, t, m) \<in> set ns" for v ns v' p t m
    using notice_types(1) [of p t m u v] that by simp
  have notices: "quiet sv0 (send_notices w ns (sv0\<lparr>voice_rooms := v'\<rparr>))" if "voice_disconnect u v = (ns, v')" for sv0 ns v v'
    using leave [OF that] by (intro sends_notices) (auto simp: sends_refl)
  have q: "quiet ?sv2 ?sv'"
    using \<open>u \<noteq> []\<close> by (auto simp: on_session_disconnected_def Some Let_def sends_refl notices split: prod.split)
  have told: "told dec k (sent ?sv') = (if by_session ?sv1 k \<noteq> None then told dec k (sent sv) - {u} else told dec k (sent sv))" for k
    using told_broadcast [OF w(3), of k r u OFFLINE None ?sv1]
    by (simp add: told_quiet [OF q] set_broadcast_targets [OF w(1) reg1])
  have view: "session_view ?sv' = session_view sv" by (rule disconnected_view)
  have regs: "by_user ?sv' = (by_user sv)(u := None)" "by_session ?sv' = (by_session sv)(i := None)"
    by (simp_all add: frame_simps Some)
  have con: "connected ?sv' \<subseteq> connected sv - {u}"
    by (auto simp: connected_def is_established_view view regs split: if_splits)
  show ?thesis
    unfolding presence_ok_def
  proof (intro conjI allI impI)
    fix k assume "by_session ?sv' k \<noteq> None"
    then have k: "by_session sv k \<noteq> None" "k \<noteq> i" by (auto simp: regs split: if_splits)
    then have "told dec k (sent ?sv') = told dec k (sent sv) - {u}" by (auto simp: told unregister_def)
    with ok k con show "connected ?sv' \<subseteq> told dec k (sent ?sv')" "told dec k (sent ?sv') \<subseteq> dom (by_user ?sv')"
      by (auto simp: presence_ok_def regs)
  next
    fix k assume "fresh k ?sv'"
    then have "told dec k (sent sv) = {}" using ok by (simp add: presence_ok_def fresh_def view)
    then show "told dec k (sent ?sv') = {}" by (simp add: told)
  qed
qed

text \<open>Somebody comes.\<close>

lemma presence_login:
  assumes ok: "presence_ok dec sv" and w: "world_ok w" "registry_ok sv" "reads_presence w dec"
    and mail: "mail_quiet w (offline_store sv)" and pend: "state_of_session i sv = Auth_Pending"
  shows "presence_ok dec (auth_success w r i u sv)"
proof -
  let ?g = "greeted w r i u sv"
  let ?reg = "register_session i ?g"
  let ?a = "send_presence_snapshot w r i (online_users w ?reg) ?reg"
  let ?sv' = "auth_success w r i u sv"
  obtain msgs db where f: "fetch_and_delete (fetch_fault_at r) (unix_time r) u (offline_store sv) = (msgs, db)" by fastforce
  define b where "b = (send_offline w i msgs ((upd_session i (\<lambda>s. s\<lparr>s_limiter :=
    Some (new_rate_limiter (msg_rate_per_sec ?a) (seconds 1) (steady r))\<rparr>) (start_ping_timer i ?a))\<lparr>offline_store := db\<rparr>))"
  have store: "offline_store ?a = offline_store sv"
    using mail.view_greeting(1) [where sv = ?g] by (simp add: on_session_authenticated_def Let_def)
  have rate: "msg_rate_per_sec (start_ping_timer i s) = msg_rate_per_sec s" for s
    by (simp add: start_ping_timer_def reset_ping_timer_def frame_simps)
  have eq: "?sv' = broadcast_presence w r u ONLINE (Some i) b"
    by (simp add: auth_success_eq on_session_authenticated_def b_def f store Let_def rate)
  have some: "session_view sv i \<noteq> None" using pend by (auto simp: view_state split: option.splits)
  note view = auth_success_view(1) [OF some] and users = auth_success_view(2) [OF some]
  have reg': "registry_ok ?sv'" using w(2) pend by (rule auth_success_registry_ok)
  have same: "registry ?sv' = registry b" "registry b = registry ?a" "registry ?a = registry ?reg"
    by (simp_all add: eq b_def snapshot_eq)
  then have regs: "registry_ok b" "registry_ok ?reg" "by_user ?reg = by_user ?sv'"
      "session_view ?reg = session_view ?sv'" "by_session b = by_session ?sv'"
    using reg' registry_eqD(1,2) [of ?sv' b] registry_eqD(2) [of ?sv' ?reg] view_of_registry [of ?sv' ?reg]
    by (simp_all add: registry_ok_iff)
  have unreg: "by_session sv i = None" using w(2) pend by (intro unregistered) (simp_all add: less_session_state_def)
  have online: "set (online_users w ?reg) = connected ?sv'"
    by (auto simp: online_users_def order_dom [OF w(1) reg'] connected_def is_established_view regs(3,4))
  have "quiet sv ?g" by (auto simp: greeted_def Let_def sends_refl intro!: sends_envelope)
  then have "quiet sv ?reg" by simp
  from told_quiet [OF this] have told_a: "told dec k (sent ?a) =
      (if k = i then told dec i (sent sv) \<union> connected ?sv' else told dec k (sent sv))" for k
    by (simp add: told_snapshot [OF w(3)] online)
  have "quiet ?a b" unfolding b_def using fetched_quiet [OF mail f]
    by (intro offline_quiet) (auto simp: sends_refl)
  note told_b = told_quiet [OF this, of dec]
  have "fresh i sv" using pend some by (auto simp: fresh_def view_state less_session_state_def split: option.splits)
  with ok have fresh_i: "told dec i (sent sv) = {}" by (simp add: presence_ok_def)
  have told: "told dec k (sent ?sv') =
      (if k = i then connected ?sv'
       else if by_session ?sv' k \<noteq> None then insert u (told dec k (sent sv)) else told dec k (sent sv))" for k
    using told_broadcast [OF w(3), of k r u ONLINE "Some i" b]
    by (simp add: eq [symmetric] told_b told_a fresh_i set_broadcast_targets [OF w(1) regs(1)] regs(5))
  have con: "connected ?sv' \<subseteq> insert u (connected sv)"
    using unreg registry_inverse [OF w(2)]
    by (auto simp: connected_def is_established_view view users split: if_splits)
  show ?thesis
    unfolding presence_ok_def
  proof (intro conjI allI impI)
    fix k assume k: "by_session ?sv' k \<noteq> None"
    show "connected ?sv' \<subseteq> told dec k (sent ?sv')" "told dec k (sent ?sv') \<subseteq> dom (by_user ?sv')"
    proof -
      obtain v where v: "by_user ?sv' v = Some k" using k registry_inverse [OF reg'] by auto
      have "by_session sv k \<noteq> None" if "k \<noteq> i"
        using v that registry_inverse [OF w(2), of v k] by (auto simp: users split: if_splits)
      with ok have "connected sv \<subseteq> told dec k (sent sv) \<and> told dec k (sent sv) \<subseteq> dom (by_user sv)" if "k \<noteq> i"
        using that by (simp add: presence_ok_def)
      then show "connected ?sv' \<subseteq> told dec k (sent ?sv')"
        "told dec k (sent ?sv') \<subseteq> dom (by_user ?sv')"
        using k con connected_dom [of ?sv'] by (cases "k = i", simp_all add: told users, blast+)
    qed
  next
    fix k assume fresh': "fresh k ?sv'"
    then have "k \<noteq> i" "fresh k sv" by (auto simp: fresh_def view less_session_state_def split: if_splits)
    moreover have "by_session ?sv' k = None"
      using reg' fresh' by (rule fresh_unregistered)
    ultimately show "told dec k (sent ?sv') = {}" using ok by (simp add: told presence_ok_def)
  qed
qed

section \<open>Every step\<close>

lemma step_established:
  assumes "registry_ok sv" "server_step w sv r e sv'" "by_user sv u = Some j" "is_established j sv'"
  shows "is_established j sv"
proof -
  have "by_session sv j = Some u" using assms(1,3) by (simp add: registry_inverse)
  with assms(1) obtain s where "sessions sv j = Some s" "Established \<le> s_state s" by (rule registry_session)
  then obtain st v where v: "session_view sv j = Some (st, v)" "Established \<le> st" by (simp add: session_view_def)
  have "protocol w sv r e j (session_view sv j) (session_view sv' j)" using assms(1,2) by (rule step_protocol)
  then show ?thesis
    using assms(4) v by (cases rule: protocolE) (auto simp: is_established_view less_eq_session_state_def)
qed

lemma step_fresh:
  assumes "registry_ok sv" "server_step w sv r e sv'" "fresh i sv'"
  shows "fresh i sv"
proof -
  have "protocol w sv r e i (session_view sv i) (session_view sv' i)" using assms(1,2) by (rule step_protocol)
  then show ?thesis
    using assms(3) by (cases rule: protocolE) (auto simp: fresh_def less_session_state_def)
qed

lemma presence_step_quiet:
  assumes "registry_ok sv" "server_step w sv r e sv'" "presence_ok dec sv"
    and "quiet sv sv'" "by_user sv' = by_user sv" "by_session sv' = by_session sv"
  shows "presence_ok dec sv'"
  using assms(3-6) step_established [OF assms(1,2)] step_fresh [OF assms(1,2)] by (rule presence_quiet)

lemma presence_reading:
  "presence_ok dec (set_reading b i sv) \<longleftrightarrow> presence_ok dec sv" "presence_ok dec (next_read i sv) \<longleftrightarrow> presence_ok dec sv"
proof -
  have same: "presence_ok dec sv' \<longleftrightarrow> presence_ok dec sv" if "registry sv' = registry sv" "sent sv' = sent sv" for sv'
    using presence_same_registry [of dec sv sv'] presence_same_registry [of dec sv' sv] that
    by (auto simp: sends_def)
  show "presence_ok dec (set_reading b i sv) \<longleftrightarrow> presence_ok dec sv" "presence_ok dec (next_read i sv) \<longleftrightarrow> presence_ok dec sv"
    by (rule same; simp)+
qed

lemma read_presence:
  assumes ok: "presence_ok dec sv" and w: "world_ok w" "registry_ok sv" "reads_presence w dec"
    and names: "by_user sv [] = None" and mail: "mail_quiet w (offline_store sv)"
    and step: "server_step w sv r (Read_Done i res) (on_read w r i res sv)"
  shows "presence_ok dec (on_read w r i res sv)"
proof -
  let ?sv = "set_reading False i sv"
  have here: "presence_ok dec ?sv" "registry_ok ?sv" "by_user ?sv [] = None"
    using ok w(2) names by (simp_all add: presence_reading)
  have err: "presence_ok dec (send_error w r i code msg ?sv)" for code msg
    by (rule presence_same_registry [OF here(1)]) (auto simp: sends_refl intro!: sends_error)
  show ?thesis
  proof (cases res)
    case Read_Error
    then show ?thesis
      using presence_disconnected [OF here(1) w(1) here(2) w(3) here(3)] by (simp add: on_read_def)
  next
    case (Bad_Header n)
    have "by_user (send_error w r i code msg ?sv) [] = None" for code msg
      using here(3) registry_eqD(2) [of "send_error w r i code msg ?sv" ?sv] by simp
    with Bad_Header show ?thesis
      using presence_disconnected [OF here(1) w(1) here(2) w(3) here(3)] presence_disconnected [OF err w(1) _ w(3)] here(2)
      by (simp add: on_read_def Let_def)
  next
    case (Frame data)
    show ?thesis
    proof (cases "parse_envelope (codec w) data")
      case None
      with Frame err show ?thesis by (simp add: on_read_def on_frame_received_def presence_reading)
    next
      case (Some env)
      let ?h = "state_of (handle_envelope w r i env ?sv)"
      have eq: "on_read w r i res sv = next_read i ?h"
        by (simp add: Frame Some on_read_def on_frame_received_def)
      have login: "presence_ok dec (auth_success w r i u (?sv\<lparr>user_store := db\<rparr>))"
        if "state_of_session i ?sv = Auth_Pending" for u db
      proof (rule presence_login [OF _ w(1) _ w(3)])
        show "presence_ok dec (?sv\<lparr>user_store := db\<rparr>)"
          by (rule presence_same_registry [OF here(1)]) (simp_all add: sends_refl)
        show "registry_ok (?sv\<lparr>user_store := db\<rparr>)" using here(2) by simp
        show "mail_quiet w (offline_store (?sv\<lparr>user_store := db\<rparr>))" using mail by simp
        show "state_of_session i (?sv\<lparr>user_store := db\<rparr>) = Auth_Pending"
          using that by (simp add: state_of_session_def)
      qed
      consider "quiet ?sv ?h" "by_user ?h = by_user sv" "by_session ?h = by_session sv"
        | u db where "state_of_session i ?sv = Auth_Pending" "?h = auth_success w r i u (?sv\<lparr>user_store := db\<rparr>)"
      proof (cases rule: envelope_cases [of w r i env ?sv])
        case 1
        then have "by_user ?h = by_user sv" "by_session ?h = by_session sv"
          using registry_eqD(1,2) [of ?h sv] by simp_all
        then show thesis using that envelope_quiet [of ?sv w r i env] by blast
      next
        case (2 sv1)
        then have "by_user ?h = by_user sv" "by_session ?h = by_session sv"
          using registry_eqD(1,2) [of sv1 sv] by (simp_all add: set_state_def frame_simps)
        then show thesis using that envelope_quiet [of ?sv w r i env] by blast
      next
        case (3 auth db)
        then show thesis by (intro that(2))
      qed
      then show ?thesis
      proof cases
        case 1
        have regs: "by_user (next_read i ?h) = by_user sv" "by_session (next_read i ?h) = by_session sv"
          using 1(2,3) by (simp_all add: next_read_def set_reading_def frame_simps)
        have "quiet sv (next_read i ?h)" using 1(1) by (simp add: sends_def)
        from presence_step_quiet [OF w(2) step [unfolded eq] ok this regs] show ?thesis by (simp only: eq)
      next
        case 2
        with login show ?thesis by (simp add: eq presence_reading)
      qed
    qed
  qed
qed

lemma presence_shutdown: "presence_ok dec sv \<Longrightarrow> presence_ok dec (shutdown sv)"
  by (auto simp: presence_ok_def shutdown_def fresh_def session_view_def)

lemma ping_cases:
  assumes s: "sessions sv i = Some s"
  shows "on_ping_timer w r i sv = on_session_disconnected w r i (upd_session i (\<lambda>s. s\<lparr>s_timer := No_Timer\<rparr>) sv) \<or>
    quiet sv (on_ping_timer w r i sv) \<and> registry (on_ping_timer w r i sv) = registry sv"
proof (cases "s_timer s")
  case Interval_Timer
  have "quiet sv (send_env i e (upd_session i f (upd_session i g sv)))" if "env_type e = MT_PING" for e f g
    using that by (intro sends_env) (simp_all add: sends_refl)
  with Interval_Timer show ?thesis by (simp add: on_ping_timer_def s Let_def sends_refl)
qed (simp_all add: on_ping_timer_def s Let_def sends_refl)

lemma step_presence:
  assumes ok: "presence_ok dec sv" and w: "world_ok w" "registry_ok sv" "reads_presence w dec"
    and names: "by_user sv [] = None" and mail: "mail_quiet w (offline_store sv)" and step: "server_step w sv r e sv'"
  shows "presence_ok dec sv'"
proof -
  note gone = presence_disconnected [OF _ w(1) _ w(3)]
  note quiet_step = presence_step_quiet [OF w(2) step ok]
  have here: "by_user (set_reading b i sv) [] = None" for b i using names by (simp add: set_reading_def frame_simps)
  from step show ?thesis
  proof cases
    case (accept ip ep)
    then show ?thesis
      by (intro quiet_step)
         (auto simp: do_accept_def Let_def split: prod.split bool.split intro: sends_same [OF sends_refl])
  next
    case (handshake i b)
    show ?thesis
    proof (cases b)
      case True
      then show ?thesis
        by (intro quiet_step) (simp_all add: handshake on_handshake_def Let_def sends_refl next_read_def set_reading_def
            set_state_def frame_simps)
    next
      case False
      then show ?thesis using gone [of "set_reading False i sv"] ok w(2) here
        by (simp add: handshake on_handshake_def presence_reading)
    qed
  next
    case (read i res)
    with step show ?thesis using read_presence [OF ok w names mail] by simp
  next
    case (write_failed i env)
    then show ?thesis using gone [OF ok w(2) names] by (simp add: on_write_error_def)
  next
    case (ping i)
    obtain s where s: "sessions sv i = Some s" using ping(3) by (auto simp: timer_set_def split: option.splits)
    let ?sv = "upd_session i (\<lambda>s. s\<lparr>s_timer := No_Timer\<rparr>) sv"
    have "registry_ok ?sv" using w(2) by (intro upd_registered) simp_all
    moreover have "presence_ok dec ?sv" by (rule presence_same_registry [OF ok]) (simp_all add: sends_refl)
    moreover have "by_user ?sv [] = None" using names by (simp add: frame_simps)
    ultimately have bye: "presence_ok dec (on_session_disconnected w r i ?sv)" by (intro gone)
    consider "sv' = on_session_disconnected w r i ?sv" | "quiet sv sv'" "registry sv' = registry sv"
      using ping_cases [OF s] unfolding ping(2) by blast
    then show ?thesis
    proof cases
      case 2
      with ok show ?thesis by (rule presence_same_registry)
    qed (simp add: bye)
  next
    case (closes i)
    then show ?thesis
      by (intro quiet_step) (simp_all add: run_disconnect_def frame_simps sends_same [OF sends_refl])
  next
    case cleanup
    then show ?thesis
      by (intro quiet_step) (simp_all add: run_cleanup_def sends_same [OF sends_refl])
  next
    case (admin c ps st)
    from admin_states [of sv w r st c ps] show ?thesis
      unfolding admin(2) [symmetric]
      by cases (intro quiet_step; simp add: disconnect_def set_max_connections_def set_rate_limits_def set_motd_def
          sends_same [OF sends_refl])+
  next
    case (signal err)
    then show ?thesis using ok by (simp add: on_signal_def presence_shutdown)
  next
    case shutdown
    then show ?thesis using ok by (simp add: presence_shutdown)
  qed
qed

lemma run_presence:
  assumes w: "world_ok w" "reads_presence w dec" "keeps_types w"
    and start: "keys_ok udb" "ids_ok odb" "files_ok fdb" "mail_quiet w odb"
    and run: "runs_with (\<lambda>_. True) w (start_server cf udb odb fdb) sv"
  shows "reachable w sv \<and> presence_ok dec sv \<and> mail_quiet w (offline_store sv)"
  using run unfolding runs_with_def
proof (induction rule: rtranclp_induct)
  case base
  note unfold = start_server_def new_server_def run_listener_def set_ping_intervals_def set_rate_limits_def
    set_max_connections_def set_motd_def initial_server_def Let_def
  have "presence_ok dec (start_server cf udb odb fdb)" by (simp add: presence_ok_def unfold told_def)
  moreover have "offline_store (start_server cf udb odb fdb) = odb" by (simp add: unfold)
  ultimately show ?case using start by (simp add: reachable.start)
next
  case (step a b)
  then obtain r e where e: "server_step w a r e b" by blast
  from step.IH have a: "reachable w a" "presence_ok dec a" "mail_quiet w (offline_store a)" by simp_all
  have "names_ok a" using a(1) w(1) by (rule reachable_names)
  then have "[] \<notin> dom (by_user a)" unfolding names_ok_def by (metis is_valid_user_id_def)
  then have "by_user a [] = None" by auto
  from step_presence [OF a(2) w(1) reachable_registry [OF a(1)] w(2) this a(3) e] have "presence_ok dec b" .
  moreover have "mail_quiet w (offline_store b)"
    using silent_mail.step_keeps [OF e] a(3) w(3) by simp
  ultimately show ?case using a(1) e by (blast intro: reachable.step)
qed


text \<open>A reader of the presence messages of the example run.\<close>

definition run_reader :: "bytes \<Rightarrow> (user_id \<times> presence_status) option" where
  "run_reader b = (case b of [] \<Rightarrow> None
     | c # cs \<Rightarrow> Some (map (\<lambda>x. char_of (unat x)) cs, if c = 0 then OFFLINE else if c = 1 then ONLINE else AWAY))"

lemma byte_char: "char_of (unat (of_char c :: byte)) = c"
proof -
  have "unat (of_char c :: byte) = unat (of_nat (of_char c) :: byte)" by (simp add: of_nat_of_char)
  also have "\<dots> = of_char c mod 256" by (simp add: unat_of_nat)
  finally show ?thesis by simp
qed

lemma run_logged_in_registered: "find_session ''al'' run_logged_in = Some 0"
proof -
  have "state_of_session 0 run_greeted \<noteq> Established" "state_of_session 0 run_logged_in = Established"
    by (simp_all add: view_state run_greeted_view run_logged_in_view)
  then obtain u db where u: "session_user 0 run_logged_in = u"
    and eq: "run_logged_in = next_read 0 (auth_success run_world demo_readings 0 u ((set_reading False 0 run_greeted)\<lparr>user_store := db\<rparr>))"
    using login_step [OF reachable_registry [OF run_greeted_reachable] run_login_step] by metis
  have "u = ''al''" using u by (simp add: view_user run_logged_in_view)
  moreover have "session_view ((set_reading False 0 run_greeted)\<lparr>user_store := db\<rparr>) 0 \<noteq> None"
    by (simp add: view_user_store reading_view run_greeted_view)
  ultimately show ?thesis by (simp add: eq find_session_def auth_success_view(2))
qed


end
