(* ===== verification/Overlap.thy ===== *)
theory Overlap
  imports Presence_View Isolation
begin

text \<open>
  Logins that overlap.  The other theories let a handler run as one step, as if the listener's tables were locked
  for its duration; the code locks them for each of its calls.  For the longest handler, the login, this theory
  lets other threads run in between: after the check of the name, which asks the listener, and after the work on
  the account, which asks the database.  What the server promises about its registry still holds; that no
  two users online have names that are equal up to case does not.
\<close>

section \<open>The login in three parts\<close>

text \<open>From the beginning to the signature: the refusals, or nothing.\<close>

definition check_login :: "world \<Rightarrow> readings \<Rightarrow> session_id \<Rightarrow> auth_response \<Rightarrow> server \<Rightarrow> server option" where
  "check_login w r i auth sv =
     (let u = ar_user_id auth
      in if \<not> is_valid_user_id u
         then Some (auth_error w r i 4006 ''Invalid user_id (1-64 printable chars, no spaces)'' sv)
         else if \<not> is_nickname_available w u [] sv
         then Some (auth_fail w r i 4011
                (''Nickname '' @ [CHR 0x27] @ u @ [CHR 0x27] @ '' is already in use.'' @
                 format_nick_suggestions (generate_nick_suggestions u 3)) sv)
         else if length (ar_identity_pub auth) \<noteq> 32
         then Some (auth_error w r i 4007 ''Invalid identity_pub length'' sv)
         else if length (ar_signature auth) \<noteq> 64
         then Some (auth_error w r i 4008 ''Invalid signature length'' sv)
         else if \<not> verify_signature w (ar_signature auth) (auth_message (session_nonce i sv) u)
                      (ar_identity_pub auth)
         then Some (auth_fail w r i 4009 ''Signature verification failed'' sv)
         else None)"

text \<open>The database: whether the login goes on.\<close>

definition account_login :: "world \<Rightarrow> readings \<Rightarrow> session_id \<Rightarrow> auth_response \<Rightarrow> server \<Rightarrow> bool \<times> server" where
  "account_login w r i auth sv =
     (case auth_account w r auth (user_store sv) of
        (res, db) \<Rightarrow>
          let sv = sv\<lparr>user_store := db\<rparr>
          in case res of
               Account_Threw \<Rightarrow> (False, sv)
             | Internal_Error \<Rightarrow> (False, auth_error w r i 5001 ''Internal error'' sv)
             | Auth_Refused code msg \<Rightarrow> (False, auth_fail w r i code msg sv)
             | Account_Ok \<Rightarrow> (True, sv))"

text \<open>Run without a pause, the parts are the handler.\<close>

lemma login_in_parts:
  "state_of (handle_auth_response w r i auth sv) =
     (case check_login w r i auth sv of
        Some sv' \<Rightarrow> sv'
      | None \<Rightarrow>
          (case account_login w r i auth sv of
             (False, sv') \<Rightarrow> sv'
           | (True, sv') \<Rightarrow> auth_success w r i (ar_user_id auth) sv'))"
  by (simp add: handle_auth_response_def check_login_def account_login_def Let_def
      split: prod.split account_result.split)

lemma check_login_iff: "check_login w r i auth sv = None \<longleftrightarrow> login_ok w i auth sv"
  by (simp add: check_login_def login_ok_def Let_def)

section \<open>Steps\<close>

text \<open>Where the thread that handles a session's authentication response is.\<close>

datatype login_phase = Checked auth_response | Accounted user_id

fun login_name :: "login_phase \<Rightarrow> user_id" where
  "login_name (Checked auth) = ar_user_id auth"
| "login_name (Accounted u) = u"

type_synonym phases = "session_id \<rightharpoonup> login_phase"

text \<open>
  While a session's login is under way no other handler of it runs, since they are on one strand; every handler
  of the others may, and every part of their logins.
\<close>

inductive overlap_step :: "world \<Rightarrow> server \<times> phases \<Rightarrow> server \<times> phases \<Rightarrow> bool" for w where
  whole: "server_step w sv r e sv' \<Longrightarrow> (\<And>i. handler_of e = Some i \<Longrightarrow> ph i = None) \<Longrightarrow>
    overlap_step w (sv, ph) (sv', ph)"
| begins: "outstanding i sv \<Longrightarrow> state_of_session i sv = Auth_Pending \<Longrightarrow> ph i = None \<Longrightarrow>
    parse_envelope (codec w) data = Some env \<Longrightarrow> env_type env = MT_AUTH_RESPONSE \<Longrightarrow>
    parse_payload (parse_auth (codec w)) env = Some auth \<Longrightarrow>
    check_login w r i auth (set_reading False i sv) = None \<Longrightarrow>
    overlap_step w (sv, ph) (set_reading False i sv, ph(i \<mapsto> Checked auth))"
| goes_on: "ph i = Some (Checked auth) \<Longrightarrow> account_login w r i auth sv = (True, sv') \<Longrightarrow>
    overlap_step w (sv, ph) (sv', ph(i \<mapsto> Accounted (ar_user_id auth)))"
| ends: "ph i = Some (Checked auth) \<Longrightarrow> account_login w r i auth sv = (False, sv') \<Longrightarrow>
    overlap_step w (sv, ph) (next_read i sv', ph(i := None))"
| finishes: "ph i = Some (Accounted u) \<Longrightarrow>
    overlap_step w (sv, ph) (next_read i (auth_success w r i u sv), ph(i := None))"

inductive_cases overlap_stepE: "overlap_step w (sv, ph) (sv', ph')"

inductive overlap_reachable :: "world \<Rightarrow> server \<times> phases \<Rightarrow> bool" for w where
  start: "keys_ok udb \<Longrightarrow> ids_ok odb \<Longrightarrow> files_ok fdb \<Longrightarrow>
    overlap_reachable w (start_server cf udb odb fdb, Map.empty)"
| step: "overlap_reachable w c \<Longrightarrow> overlap_step w c c' \<Longrightarrow> overlap_reachable w c'"

section \<open>What still holds\<close>

text \<open>
  A session whose login is under way waits for it, and has shown a signature; the names that are registered or
  about to be are valid.
\<close>

definition overlap_ok :: "world \<Rightarrow> server \<times> phases \<Rightarrow> bool" where
  "overlap_ok w c \<longleftrightarrow> (case c of (sv, ph) \<Rightarrow>
     registry_ok sv \<and> stores_ok sv \<and> (\<forall>u \<in> dom (by_user sv). is_valid_user_id u) \<and>
     (\<forall>i p. ph i = Some p \<longrightarrow> state_of_session i sv = Auth_Pending \<and>
        is_valid_user_id (login_name p)))"

lemma account_login_other:
  assumes login: "account_login w r i auth sv = (b, sv')"
  shows "registry sv' = registry sv" "stores_ok sv \<Longrightarrow> stores_ok sv'"
proof -
  obtain res db where a: "auth_account w r auth (user_store sv) = (res, db)" by fastforce
  let ?sv = "sv\<lparr>user_store := db\<rparr>"
  consider (same) "sv' = ?sv" | (error) "sv' = auth_error w r i 5001 ''Internal error'' ?sv"
    | (refused) code msg where "sv' = auth_fail w r i code msg ?sv"
    using login by (cases res) (auto simp: account_login_def a)
  then have "registry sv' = registry ?sv \<and> stores sv' = stores ?sv"
    by cases simp_all
  note same = this
  from same show "registry sv' = registry sv" by simp
  assume ok: "stores_ok sv"
  have "keys_ok db" using auth_account_keys_ok [OF stores_okE(1) [OF ok], of w r auth] by (simp add: a)
  with ok have "stores_ok ?sv" by (rule stores_ok_upd(1))
  then show "stores_ok sv'" by (rule stores_ok_same [OF _ conjunct2 [OF same]])
qed

lemma state_of_registry:
  assumes "registry sv' = registry sv"
  shows "state_of_session i sv' = state_of_session i sv"
  by (simp add: view_state view_of_registry [OF assms])

lemma overlap_ok_registry:
  assumes ok: "overlap_ok w (sv, ph)" and same: "registry sv' = registry sv" and "stores_ok sv'"
    and names: "\<And>i p. ph' i = Some p \<Longrightarrow> \<exists>q. ph i = Some q \<and> login_name p = login_name q"
  shows "overlap_ok w (sv', ph')"
proof -
  have "state_of_session i sv' = Auth_Pending \<and> is_valid_user_id (login_name p)" if "ph' i = Some p" for i p
    using names [OF that] ok by (auto simp: overlap_ok_def state_of_registry [OF same])
  with assms(1,3) show ?thesis
    by (simp add: overlap_ok_def registry_ok_iff same registry_eqD(2) [OF same])
qed

lemma valid_users_step:
  assumes "server_step w sv r e sv'" "\<forall>u \<in> dom (by_user sv). is_valid_user_id u"
  shows "\<forall>u \<in> dom (by_user sv'). is_valid_user_id u"
  using step_users [OF assms(1)] unfolding users_change_def
proof
  assume "by_user sv' \<subseteq>\<^sub>m by_user sv"
  then have "dom (by_user sv') \<subseteq> dom (by_user sv)" by (rule map_le_implies_dom_le)
  with assms(2) show ?thesis by blast
next
  assume "\<exists>i auth. login_ok w i auth sv \<and> by_user sv' = (by_user sv)(ar_user_id auth \<mapsto> i)"
  then obtain i auth where ok: "login_ok w i auth sv" and users: "by_user sv' = (by_user sv)(ar_user_id auth \<mapsto> i)"
    by blast
  from ok have "is_valid_user_id (ar_user_id auth)" by (simp add: login_ok_def)
  with users assms(2) show ?thesis by simp
qed

lemma overlap_step_ok:
  assumes ok: "overlap_ok w (sv, ph)" and step: "overlap_step w (sv, ph) (sv', ph')"
  shows "overlap_ok w (sv', ph')"
proof -
  have inv: "registry_ok sv" "stores_ok sv" "\<forall>u \<in> dom (by_user sv). is_valid_user_id u"
    and waits: "\<And>i p. ph i = Some p \<Longrightarrow> state_of_session i sv = Auth_Pending \<and> is_valid_user_id (login_name p)"
    using ok by (auto simp: overlap_ok_def)
  from step show ?thesis
  proof cases
    case (whole r e)
    have "state_of_session i sv' = Auth_Pending" if "ph i = Some p" for i p
    proof -
      have pend: "state_of_session i sv = Auth_Pending" using waits [OF that] ..
      then have "sessions sv i \<noteq> None" by (auto simp: state_of_session_def split: option.splits)
      moreover have "handler_of e \<noteq> Some i" using whole(3) that by auto
      ultimately have "sessions sv' i = sessions sv i" by (rule step_isolated [OF inv(1) whole(2)])
      with pend show ?thesis by (simp add: state_of_session_def)
    qed
    with waits show ?thesis
      using step_registry [OF inv(1) whole(2)] step_stores [OF inv(2) whole(2)] valid_users_step [OF whole(2) inv(3)]
      by (simp add: overlap_ok_def whole(1))
  next
    case (begins i data env auth r)
    have "is_valid_user_id (ar_user_id auth)" using begins(9) by (simp add: check_login_iff login_ok_def)
    with begins(1-4) inv waits show ?thesis by (simp add: overlap_ok_def reading_users)
  next
    case (goes_on i auth r)
    then show ?thesis
      using account_login_other [OF goes_on(3)] inv(2)
      by (intro overlap_ok_registry [OF ok]) (auto split: if_splits)
  next
    case (ends i auth r sv1)
    then show ?thesis
      using account_login_other [OF ends(4)] inv(2)
      by (intro overlap_ok_registry [OF ok]) (auto split: if_splits)
  next
    case (finishes i u r)
    have pend: "state_of_session i sv = Auth_Pending" and u: "is_valid_user_id u" using waits [OF finishes(3)] by simp_all
    then have some: "session_view sv i \<noteq> None" by (auto simp: view_state split: option.splits)
    have "state_of_session j sv' = Auth_Pending \<and> is_valid_user_id (login_name p)" if "ph' j = Some p" for j p
      using waits [of j p] that
      by (simp add: finishes(1,2) view_state reading_view auth_success_view(1) [OF some] split: if_splits)
    moreover have "registry_ok sv'" "stores_ok sv'"
      using auth_success_registry_ok [OF inv(1) pend] auth_success_stores [OF inv(2)] by (simp_all add: finishes(1))
    moreover have "\<forall>v \<in> dom (by_user sv'). is_valid_user_id v"
      using inv(3) u by (simp add: finishes(1) reading_users auth_success_view(2) [OF some])
    ultimately show ?thesis by (simp add: overlap_ok_def)
  qed
qed

lemma overlap_reachable_ok: "overlap_reachable w c \<Longrightarrow> overlap_ok w c"
proof (induction rule: overlap_reachable.induct)
  case (start udb odb fdb cf)
  have "by_user (start_server cf udb odb fdb) = Map.empty"
    by (simp add: start_server_def new_server_def run_listener_def set_ping_intervals_def set_rate_limits_def
        set_max_connections_def set_motd_def initial_server_def Let_def)
  with start_server_ok [OF start] show ?case by (simp add: overlap_ok_def)
next
  case (step c c')
  then show ?case by (cases c; cases c') (simp add: overlap_step_ok)
qed

text \<open>A run in which no login is interrupted is one of these.\<close>

lemma overlap_reachable_whole: "reachable w sv \<Longrightarrow> overlap_reachable w (sv, Map.empty)"
proof (induction rule: reachable.induct)
  case (step sv r e sv')
  from step.IH show ?case by (rule overlap_reachable.step) (rule overlap_step.whole [OF step(2)], simp)
qed (rule overlap_reachable.start)

section \<open>A login that ends\<close>

text \<open>The older session of a user who logs in again is told to close.\<close>

lemma auth_success_replaces:
  assumes "session_view sv i \<noteq> None" "by_user sv u = Some k"
  shows "k \<in> closing (auth_success w r i u sv)"
proof -
  have mail: "closing (send_offline w i ms sv') = closing sv'" for ms sv'
    by (induction ms arbitrary: sv') (simp_all add: frame_simps split: option.split)
  have presence: "closing (broadcast_presence w r u st ex sv') = closing sv'" for st ex sv'
    by (simp add: broadcast_presence_def broadcast_eq)
  have "session_user i (greeted w r i u sv) = u" using assms(1) by (auto simp: view_user greeted_view)
  then have "k \<in> closing (on_session_authenticated w r i (greeted w r i u sv))"
    using assms(2)
    by (simp add: on_session_authenticated_def register_session_def snapshot_eq disconnect_def greeted_view Let_def)
  then show ?thesis
    by (simp add: auth_success_eq presence mail start_ping_timer_def reset_ping_timer_def frame_simps Let_def
        split: prod.split)
qed

text \<open>Two logins that have passed their checks can end one after the other.\<close>

lemma both_finish:
  fixes r r' :: readings
  assumes ok: "overlap_ok w (sv, ph)" and ph: "ph i = Some (Accounted u)" "ph j = Some (Accounted v)" and "i \<noteq> j"
  defines "sv1 \<equiv> next_read i (auth_success w r i u sv)"
  defines "sv2 \<equiv> next_read j (auth_success w r' j v sv1)"
  shows "overlap_step w (sv, ph) (sv1, ph(i := None))"
    "overlap_step w (sv1, ph(i := None)) (sv2, ph(i := None, j := None))"
    "by_user sv2 = (by_user sv)(u \<mapsto> i, v \<mapsto> j)" "u = v \<Longrightarrow> i \<in> closing sv2 \<and> by_session sv2 i = None"
proof -
  show steps: "overlap_step w (sv, ph) (sv1, ph(i := None))"
      "overlap_step w (sv1, ph(i := None)) (sv2, ph(i := None, j := None))"
    unfolding sv1_def sv2_def using ph \<open>i \<noteq> j\<close> by (auto intro: overlap_step.finishes)
  have pend: "state_of_session i sv = Auth_Pending" "state_of_session j sv = Auth_Pending"
    using ok ph by (auto simp: overlap_ok_def)
  then have some: "session_view sv i \<noteq> None" "session_view sv j \<noteq> None"
    by (auto simp: view_state split: option.splits)
  then have some1: "session_view sv1 j \<noteq> None"
    by (simp add: sv1_def reading_view auth_success_view(1) [OF some(1)])
  have users1: "by_user sv1 = (by_user sv)(u \<mapsto> i)"
    by (simp add: sv1_def reading_users auth_success_view(2) [OF some(1)])
  then show users2: "by_user sv2 = (by_user sv)(u \<mapsto> i, v \<mapsto> j)"
    by (simp add: sv2_def reading_users auth_success_view(2) [OF some1])
  assume same: "u = v"
  have "by_session sv i = None"
    using ok pend(1) by (intro unregistered) (simp_all add: overlap_ok_def less_session_state_def)
  moreover have "registry_ok sv" "registry_ok sv2"
    using ok overlap_step_ok [OF overlap_step_ok [OF ok steps(1)] steps(2)] by (simp_all add: overlap_ok_def)
  ultimately have "by_session sv2 i \<noteq> Some x" for x
    using \<open>i \<noteq> j\<close> same users2 registry_inverse [of sv x i] registry_inverse [of sv2 x i]
    by (auto split: if_splits)
  moreover have "i \<in> closing sv2"
    using auth_success_replaces [OF some1, of v i] users1 same
    by (simp add: sv2_def next_read_def set_reading_def frame_simps)
  ultimately show "i \<in> closing sv2 \<and> by_session sv2 i = None" by auto
qed

section \<open>A run with two logins\<close>

text \<open>A second client connects and greets; then both log in, as \<open>al\<close> and as \<open>AL\<close>.\<close>

definition second_accepted :: server where
  "second_accepted = snd (do_accept demo_readings ''10.0.0.2'' ''g'' run_greeted)"

definition second_secured :: server where
  "second_secured = on_handshake run_world demo_readings 1 True second_accepted"

definition second_greeted :: server where
  "second_greeted = on_read run_world demo_readings 1 (Frame [1, 0]) second_secured"

definition race_auth :: "string \<Rightarrow> auth_response" where
  "race_auth u = \<lparr>ar_user_id = u, ar_identity_pub = replicate 32 5, ar_signature = replicate 64 6,
     ar_signed_prekey = [], ar_spk_sig = [], ar_password = []\<rparr>"

lemma run_accepted_limits:
  "\<not> shutting_down run_accepted" "active_connections run_accepted = 1" "next_session run_accepted = 1"
  "max_connections run_accepted = 100" "conn_rate_per_min run_accepted = 10" "ip_limiters run_accepted ''10.0.0.2'' = None"
  by (simp_all add: run_accepted_def run_start_def start_server_def new_server_def run_listener_def default_config_def
      set_ping_intervals_def set_rate_limits_def set_max_connections_def set_motd_def initial_server_def
      do_accept_def new_rate_limiter_def allow_def demo_readings_def Let_def minutes_def)

lemma run_secured_limits:
  "\<not> shutting_down run_secured" "active_connections run_secured = 1" "next_session run_secured = 1"
  "max_connections run_secured = 100" "conn_rate_per_min run_secured = 10" "ip_limiters run_secured ''10.0.0.2'' = None"
  by (simp_all add: run_secured_def on_handshake_def next_read_def set_reading_def set_state_def upd_session_def
      run_accepted_eq run_accepted_limits state_of_session_def new_session_def Let_def)

lemma run_greeted_limits:
  "\<not> shutting_down run_greeted" "active_connections run_greeted = 1" "next_session run_greeted = 1"
  "max_connections run_greeted = 100" "conn_rate_per_min run_greeted = 10" "ip_limiters run_greeted ''10.0.0.2'' = None"
  by (simp_all add: run_greeted_def on_read_def on_frame_received_def handle_envelope_def handle_hello_def
      parse_payload_def run_world_def demo_world_def run_codec_def plain_envelope_def kProtocolVersion_def
      send_envelope_def send_env_def next_read_def set_reading_def set_state_def upd_session_def demo_readings_def
      run_secured_eq run_secured_limits state_of_session_def new_session_def Let_def)

lemma second_accepted_eq:
  "sessions second_accepted = (sessions run_greeted)(1 \<mapsto> new_session ''g'')"
  "by_user second_accepted = Map.empty" "user_store second_accepted = empty_user_db"
  by (simp_all add: second_accepted_def do_accept_def run_greeted_limits run_greeted_eq(2-4) new_rate_limiter_def
      allow_def demo_readings_def Let_def minutes_def)

lemma second_secured_eq:
  "sessions second_secured = (sessions run_greeted)(1 \<mapsto> (new_session ''g'')\<lparr>s_state := Hello\<rparr>)"
  "by_user second_secured = Map.empty" "user_store second_secured = empty_user_db"
  by (simp_all add: second_secured_def on_handshake_def next_read_def set_reading_def set_state_def upd_session_def
      second_accepted_eq state_of_session_def new_session_def Let_def)

lemma second_greeted_eq:
  "sessions second_greeted = (sessions run_greeted)(1 \<mapsto> (new_session ''g'')\<lparr>s_state := Auth_Pending, s_next_seq := 2,
     s_nonce := replicate 32 7\<rparr>)"
  "by_user second_greeted = Map.empty" "user_store second_greeted = empty_user_db"
  by (simp_all add: second_greeted_def on_read_def on_frame_received_def handle_envelope_def handle_hello_def
      parse_payload_def run_world_def demo_world_def run_codec_def plain_envelope_def kProtocolVersion_def
      send_envelope_def send_env_def next_read_def set_reading_def set_state_def upd_session_def demo_readings_def
      second_secured_eq state_of_session_def new_session_def Let_def)

lemma second_greeted_reachable: "reachable run_world second_greeted"
proof -
  have accept: "server_step run_world run_greeted demo_readings (Accept ''10.0.0.2'' ''g'') second_accepted"
    unfolding second_accepted_def by (rule server_step.accept) (simp add: run_greeted_limits)
  have secure: "server_step run_world second_accepted demo_readings (Handshake_Done 1 True) second_secured"
    unfolding second_secured_def
    by (rule server_step.handshake) (simp_all add: outstanding_def state_of_session_def second_accepted_eq new_session_def)
  have greet: "server_step run_world second_secured demo_readings (Read_Done 1 (Frame [1, 0])) second_greeted"
    unfolding second_greeted_def
    by (rule server_step.read) (simp_all add: outstanding_def state_of_session_def second_secured_eq new_session_def)
  show ?thesis
    using reachable.step [OF reachable.step [OF reachable.step [OF run_greeted_reachable accept] secure] greet] .
qed

text \<open>Both logins pass their checks.\<close>

lemma race_check:
  assumes "by_user sv = Map.empty" "u = ''al'' \<or> u = ''AL''"
  shows "check_login run_world demo_readings i (race_auth u) sv = None"
  using assms
  by (auto simp: check_login_iff login_ok_def race_auth_def is_valid_user_id_def is_nickname_available_def
      run_world_def demo_world_def)

lemma race_account:
  assumes "users db u = None"
  shows "\<exists>db'. auth_account run_world demo_readings (race_auth u) db = (Account_Ok, db') \<and>
    (\<forall>v. v \<noteq> u \<longrightarrow> users db' v = users db v)"
  using assms
  by (simp add: auth_account_def race_auth_def find_by_id_def demo_readings_def insert_user_def
      store_offered_spk_def)

lemma race_begins:
  assumes "outstanding i sv" "state_of_session i sv = Auth_Pending" "by_user sv = Map.empty" "ph i = None"
    and u: "u = ''al'' \<or> u = ''AL''"
  shows "overlap_step run_world (sv, ph) (set_reading False i sv, ph(i \<mapsto> Checked (race_auth u)))"
proof (rule overlap_step.begins)
  let ?p = "[if u = ''AL'' then 1 else 0] :: bytes"
  let ?env = "plain_envelope MT_AUTH_RESPONSE ?p"
  show "parse_envelope (codec run_world) (3 # ?p) = Some ?env"
    by (simp add: run_world_def run_codec_def)
  show "parse_payload (parse_auth (codec run_world)) ?env = Some (race_auth u)"
    using u by (auto simp: run_world_def run_codec_def parse_payload_def plain_envelope_def race_auth_def)
  show "check_login run_world demo_readings i (race_auth u) (set_reading False i sv) = None"
    using assms(3) u by (intro race_check) (simp_all add: reading_users)
  show "env_type ?env = MT_AUTH_RESPONSE" by (simp add: plain_envelope_def)
qed (fact assms)+

lemma race_goes_on:
  assumes "auth_account run_world r (race_auth u) (user_store sv) = (Account_Ok, db)" "ph i = Some (Checked (race_auth u))"
  shows "overlap_step run_world (sv, ph) (sv\<lparr>user_store := db\<rparr>, ph(i \<mapsto> Accounted u))"
  using overlap_step.goes_on [of ph i "race_auth u" run_world r sv "sv\<lparr>user_store := db\<rparr>"] assms
  by (simp add: account_login_def Let_def race_auth_def)

lemma race_reachable:
  "\<exists>sv. overlap_reachable run_world (sv, [0 \<mapsto> Accounted ''al'', 1 \<mapsto> Accounted ''AL''])"
proof -
  let ?w = run_world and ?sv = second_greeted
  let ?sv1 = "set_reading False 0 ?sv" let ?sv2 = "set_reading False 1 ?sv1"
  obtain db1 where db1: "auth_account ?w demo_readings (race_auth ''al'') empty_user_db = (Account_Ok, db1)"
      "users db1 ''AL'' = None"
    using race_account [of empty_user_db "''al''"] by (auto simp: empty_user_db_def)
  obtain db2 where db2: "auth_account ?w demo_readings (race_auth ''AL'') db1 = (Account_Ok, db2)"
    using race_account [OF db1(2)] by blast
  have "overlap_reachable ?w (?sv, Map.empty)" using second_greeted_reachable by (rule overlap_reachable_whole)
  moreover have "overlap_step ?w (?sv, Map.empty) (?sv1, [0 \<mapsto> Checked (race_auth ''al'')])"
    by (rule race_begins) (simp_all add: outstanding_def state_of_session_def second_greeted_eq run_greeted_eq new_session_def)
  moreover have "overlap_step ?w (?sv1, [0 \<mapsto> Checked (race_auth ''al'')])
      (?sv2, [0 \<mapsto> Checked (race_auth ''al''), 1 \<mapsto> Checked (race_auth ''AL'')])"
    by (rule race_begins)
       (simp_all add: outstanding_def state_of_session_def set_reading_def sessions_upd frame_simps second_greeted_eq run_greeted_eq new_session_def)
  moreover have "overlap_step ?w (?sv2, [0 \<mapsto> Checked (race_auth ''al''), 1 \<mapsto> Checked (race_auth ''AL'')])
      (?sv2\<lparr>user_store := db1\<rparr>, [0 \<mapsto> Accounted ''al'', 1 \<mapsto> Checked (race_auth ''AL'')])"
    using race_goes_on [of demo_readings "''al''" ?sv2 db1 "[0 \<mapsto> Checked (race_auth ''al''), 1 \<mapsto> Checked (race_auth ''AL'')]" 0]
    by (simp add: db1 second_greeted_eq set_reading_def frame_simps fun_upd_twist)
  moreover have "overlap_step ?w (?sv2\<lparr>user_store := db1\<rparr>, [0 \<mapsto> Accounted ''al'', 1 \<mapsto> Checked (race_auth ''AL'')])
      (?sv2\<lparr>user_store := db2\<rparr>, [0 \<mapsto> Accounted ''al'', 1 \<mapsto> Accounted ''AL''])"
    using race_goes_on [of demo_readings "''AL''" "?sv2\<lparr>user_store := db1\<rparr>" db2
        "[0 \<mapsto> Accounted ''al'', 1 \<mapsto> Checked (race_auth ''AL'')]" 1]
    by (simp add: db2)
  ultimately show ?thesis by (blast intro: overlap_reachable.step)
qed

section \<open>Correctness\<close>

text \<open>
  C11: The registry and the stores stay consistent when logins overlap: in every state the server can reach with
  the steps of any number of logins interleaved, a user is registered for a session just when the session is for the
  user, a registered session is authenticated and belongs to that user, whose name is valid, a session whose login
  is under way is not registered, and signed prekeys belong to accounts.
\<close>

theorem overlapping_logins_consistent:
  assumes "overlap_reachable w (sv, ph)"
  shows "(find_session u sv = Some i \<longleftrightarrow> by_session sv i = Some u) \<and>
    (find_session u sv = Some i \<longrightarrow> session_user i sv = u \<and> Established \<le> state_of_session i sv \<and>
       is_valid_user_id u \<and> ph i = None) \<and>
    dom (signed_prekeys (user_store sv)) \<subseteq> dom (users (user_store sv))"
proof -
  have ok: "overlap_ok w (sv, ph)" using assms by (rule overlap_reachable_ok)
  then have reg: "registry_ok sv" and keys: "keys_ok (user_store sv)"
    by (simp_all add: overlap_ok_def stores_ok_def)
  have inv: "find_session u sv = Some i \<longleftrightarrow> by_session sv i = Some u"
    by (simp add: find_session_def registry_inverse [OF reg])
  have "session_user i sv = u \<and> Established \<le> state_of_session i sv \<and> is_valid_user_id u \<and> ph i = None"
    if found: "find_session u sv = Some i"
  proof -
    from found inv obtain s where "sessions sv i = Some s" "s_user s = u" "Established \<le> s_state s"
      using registry_session [OF reg] by metis
    then have s: "session_user i sv = u" "Established \<le> state_of_session i sv"
      by (simp_all add: session_user_def state_of_session_def)
    then have "state_of_session i sv \<noteq> Auth_Pending" by (auto simp: less_eq_session_state_def)
    then have "ph i = None" using ok by (cases "ph i") (auto simp: overlap_ok_def)
    moreover have "is_valid_user_id u" using ok found by (auto simp: overlap_ok_def find_session_def)
    ultimately show ?thesis using s by simp
  qed
  with inv keys show ?thesis by (simp add: keys_ok_def)
qed

theorem overlapping_logins_consistent_witness:
  "\<exists>sv. find_session ''al'' sv \<noteq> Some 0 \<and> dom (signed_prekeys (user_store sv)) \<subseteq> dom (users (user_store sv)) \<and>
     overlap_reachable run_world (sv, [0 \<mapsto> Accounted ''al'', 1 \<mapsto> Accounted ''AL''])"
proof -
  obtain sv where sv: "overlap_reachable run_world (sv, [0 \<mapsto> Accounted ''al'', 1 \<mapsto> Accounted ''AL''])"
    using race_reachable by blast
  from overlapping_logins_consistent [OF sv, of "''al''" 0] sv show ?thesis by auto
qed

text \<open>
  C16: The check of a name and its registration are not one critical section: when two logins have both passed
  their checks, both can end, and then both sessions are registered whatever their names are, also when these are
  equal up to case; when they are the same name, the session that ends last is the user's and the other is told
  to close.
\<close>

theorem overlapping_logins_race:
  assumes "overlap_reachable w (sv, ph)" "ph i = Some (Accounted u)" "ph j = Some (Accounted v)" "i \<noteq> j"
  shows "let sv1 = next_read i (auth_success w r i u sv); sv2 = next_read j (auth_success w r' j v sv1)
    in overlap_step w (sv, ph) (sv1, ph(i := None)) \<and>
       overlap_step w (sv1, ph(i := None)) (sv2, ph(i := None, j := None)) \<and>
       find_session v sv2 = Some j \<and>
       (if u = v then by_session sv2 i = None \<and> i \<in> closing sv2 else find_session u sv2 = Some i)"
  using both_finish [OF overlap_reachable_ok [OF assms(1)] assms(2-4)] assms(4)
  by (simp add: Let_def find_session_def)

text \<open>Both names are registered, although they are equal up to case.\<close>

theorem overlapping_logins_race_witness:
  "\<exists>sv. overlap_reachable run_world (sv, Map.empty) \<and> nicknames_equal ''al'' ''AL'' \<and>
     find_session ''al'' sv = Some 0 \<and> find_session ''AL'' sv = Some 1"
proof -
  obtain sv where sv: "overlap_reachable run_world (sv, [0 \<mapsto> Accounted ''al'', 1 \<mapsto> Accounted ''AL''])"
    using race_reachable by blast
  let ?ph = "[0 \<mapsto> Accounted ''al'', 1 \<mapsto> Accounted ''AL''] :: phases"
  let ?sv1 = "next_read 0 (auth_success run_world demo_readings 0 ''al'' sv)"
  let ?sv2 = "next_read 1 (auth_success run_world demo_readings 1 ''AL'' ?sv1)"
  have "?ph(0 := None, 1 := None) = Map.empty" by (simp add: fun_eq_iff)
  then have race: "overlap_step run_world (sv, ?ph) (?sv1, ?ph(0 := None))"
      "overlap_step run_world (?sv1, ?ph(0 := None)) (?sv2, Map.empty)"
      "find_session ''AL'' ?sv2 = Some 1" "find_session ''al'' ?sv2 = Some 0"
    using overlapping_logins_race [OF sv, of 0 "''al''" 1 "''AL''" demo_readings demo_readings]
    by (simp_all add: Let_def)
  moreover have "nicknames_equal ''al'' ''AL''" by code_simp
  moreover have "overlap_reachable run_world (?sv2, Map.empty)"
    using overlap_reachable.step [OF overlap_reachable.step [OF sv race(1)] race(2)] .
  ultimately show ?thesis by blast
qed

end
