(* ===== verification/Directory_Client.thy ===== *)
theory Directory_Client
  imports Server_Config "HOL-Library.Sublist"
begin

text \<open>
  The client of the public server directory, \<open>src/net/directory_client.cpp\<close>: the parsing of the directory's
  URL, the JSON and HTTP texts it writes and reads, and the cycle of registration and pings.  Name
  resolution, connections and TLS are Boost.Asio's: how a request ends is an event of the model.  Waiting
  on the timer is the flag \<open>dc_timer\<close>: arming it again replaces the wait, and \<open>stop\<close> cancels it.
\<close>

section \<open>Searching in strings\<close>

text \<open>\<open>std::string::find\<close>, from the start and from a position; \<open>npos\<close> is \<open>None\<close>.\<close>

fun find_sub :: "string \<Rightarrow> string \<Rightarrow> nat option" where
  "find_sub p s =
     (if prefix p s then Some 0
      else case s of [] \<Rightarrow> None | c # cs \<Rightarrow> map_option Suc (find_sub p cs))"

declare find_sub.simps [simp del]

definition find_at :: "string \<Rightarrow> string \<Rightarrow> nat \<Rightarrow> nat option" where
  "find_at p s pos = (if pos > length s then None else map_option ((+) pos) (find_sub p (drop pos s)))"

section \<open>JSON and HTTP texts\<close>

definition json_char :: "char \<Rightarrow> string" where
  "json_char c =
     (if c = CHR 0x22 then [CHR 0x5C, CHR 0x22]
      else if c = CHR 0x5C then [CHR 0x5C, CHR 0x5C]
      else if c = CHR 0x08 then [CHR 0x5C, CHR ''b'']
      else if c = CHR 0x0C then [CHR 0x5C, CHR ''f'']
      else if c = CHR 0x0A then [CHR 0x5C, CHR ''n'']
      else if c = CHR 0x0D then [CHR 0x5C, CHR ''r'']
      else if c = CHR 0x09 then [CHR 0x5C, CHR ''t'']
      else [c])"

definition escape_json :: "string \<Rightarrow> string" where
  "escape_json s = concat (map json_char s)"

definition quoted :: "string \<Rightarrow> string" where
  "quoted s = CHR 0x22 # s @ [CHR 0x22]"

definition crlf :: string where
  "crlf = [CHR 0x0D, CHR 0x0A]"

text \<open>\<open>parse_http_response\<close>: whether the status is a success, and the body.\<close>

definition parse_http_response :: "string \<Rightarrow> (bool \<times> string) option" where
  "parse_http_response response =
     (case find_sub (crlf @ crlf) response of
        None \<Rightarrow> None
      | Some body_start \<Rightarrow>
          (case find_sub '' '' response of
             None \<Rightarrow> None
           | Some status_pos \<Rightarrow>
               (case stoi (take 3 (drop (status_pos + 1) response)) of
                  None \<Rightarrow> None
                | Some code \<Rightarrow> Some (200 \<le> code \<and> code < 300, drop (body_start + 4) response))))"

section \<open>The client\<close>

datatype dc_call = Register_Call | Ping_Call

record directory_client =
  dc_config :: server_config
  dc_host :: string
  dc_path :: string
  dc_port :: "16 word"
  dc_use_ssl :: bool
  dc_enabled :: bool
  dc_registered :: bool
  dc_running :: bool
  dc_last_error :: string
  dc_server_id :: string
  dc_timer :: bool
  dc_requests :: "(dc_call \<times> string) list"

text \<open>The scheme of the URL: TLS or not, and what follows.\<close>

definition url_scheme :: "string \<Rightarrow> bool \<times> string" where
  "url_scheme url =
     (if take 8 url = ''https://'' then (True, drop 8 url)
      else if take 7 url = ''http://'' then (False, drop 7 url)
      else (True, url))"

definition default_port :: "bool \<Rightarrow> 16 word" where
  "default_port ssl = (if ssl then 443 else 80)"

definition url_authority :: "bool \<Rightarrow> string \<Rightarrow> string \<times> 16 word" where
  "url_authority ssl url =
     (let path_pos = find_sub ''/'' url
      in case find_sub '':'' url of
           Some port_pos \<Rightarrow>
             if (case path_pos of None \<Rightarrow> True | Some p \<Rightarrow> port_pos < p)
             then
               let port_end = (case path_pos of Some p \<Rightarrow> p | None \<Rightarrow> length url)
               in (take port_pos url,
                   case stoi (take (port_end - port_pos - 1) (drop (port_pos + 1) url)) of
                     Some v \<Rightarrow> word_of_int v
                   | None \<Rightarrow> default_port ssl)
             else (case path_pos of Some p \<Rightarrow> take p url | None \<Rightarrow> url, default_port ssl)
         | None \<Rightarrow> (case path_pos of Some p \<Rightarrow> take p url | None \<Rightarrow> url, default_port ssl))"

definition url_path :: "string \<Rightarrow> string" where
  "url_path url = (case find_sub ''/'' url of Some p \<Rightarrow> drop p url | None \<Rightarrow> [])"

definition new_directory_client :: "server_config \<Rightarrow> directory_client" where
  "new_directory_client cf =
     (let url = (if cf_directory_url cf = [] then ''https://directory.ircord.dev'' else cf_directory_url cf);
          (ssl, rest) = url_scheme url
      in \<lparr>dc_config = cf, dc_host = fst (url_authority ssl rest), dc_path = url_path rest,
          dc_port = snd (url_authority ssl rest), dc_use_ssl = ssl,
          dc_enabled = cf_is_public cf \<and> cf_directory_enabled cf, dc_registered = False, dc_running = False,
          dc_last_error = [], dc_server_id = [], dc_timer = False, dc_requests = []\<rparr>)"

definition build_http_request :: "directory_client \<Rightarrow> string \<Rightarrow> string \<Rightarrow> string" where
  "build_http_request dc path json_body =
     ''POST '' @ dc_path dc @ path @ '' HTTP/1.1'' @ crlf @
     ''Host: '' @ dc_host dc @ crlf @
     ''Content-Type: application/json'' @ crlf @
     ''Content-Length: '' @ show_nat (length json_body) @ crlf @
     ''Connection: close'' @ crlf @ crlf @ json_body"

text \<open>\<open>post_request\<close> starts a request; how it ends is an event.\<close>

definition post_request :: "dc_call \<Rightarrow> string \<Rightarrow> string \<Rightarrow> directory_client \<Rightarrow> directory_client" where
  "post_request call path json_body dc =
     dc\<lparr>dc_requests := dc_requests dc @ [(call, build_http_request dc path json_body)]\<rparr>"

definition register_json :: "server_config \<Rightarrow> string" where
  "register_json cf =
     (let name = (if cf_server_name cf = [] then ''IRCord Server'' else cf_server_name cf);
          desc = (if cf_server_description cf = [] then ''An IRCord encrypted chat server''
                  else cf_server_description cf)
      in ''{'' @ quoted ''host'' @ '':'' @ quoted (escape_json (cf_host cf)) @ '','' @
         quoted ''port'' @ '':'' @ show_nat (unat (cf_port cf)) @ '','' @
         quoted ''name'' @ '':'' @ quoted (escape_json name) @ '','' @
         quoted ''description'' @ '':'' @ quoted (escape_json desc) @ ''}'')"

definition ping_json :: "string \<Rightarrow> string" where
  "ping_json sid = ''{'' @ quoted ''server_id'' @ '':'' @ quoted (escape_json sid) @ ''}''"

definition register_server :: "directory_client \<Rightarrow> directory_client" where
  "register_server dc =
     (if \<not> dc_running dc then dc
      else post_request Register_Call ''/api/servers/register'' (register_json (dc_config dc)) dc)"

definition schedule_next_ping :: "directory_client \<Rightarrow> directory_client" where
  "schedule_next_ping dc = (if \<not> dc_running dc then dc else dc\<lparr>dc_timer := True\<rparr>)"

definition send_ping :: "directory_client \<Rightarrow> directory_client" where
  "send_ping dc =
     (if \<not> dc_running dc \<or> \<not> dc_registered dc then schedule_next_ping dc
      else post_request Ping_Call ''/api/servers/ping'' (ping_json (dc_server_id dc)) dc)"

definition start_client :: "directory_client \<Rightarrow> directory_client" where
  "start_client dc =
     (if \<not> dc_enabled dc \<or> dc_running dc then dc else register_server (dc\<lparr>dc_running := True\<rparr>))"

definition stop_client :: "directory_client \<Rightarrow> directory_client" where
  "stop_client dc = (if \<not> dc_running dc then dc else dc\<lparr>dc_running := False, dc_timer := False\<rparr>)"

text \<open>The server id in the response to a registration.\<close>

definition extract_server_id :: "string \<Rightarrow> string option" where
  "extract_server_id response =
     (case find_sub (quoted ''server_id'') response of
        None \<Rightarrow> None
      | Some id_pos \<Rightarrow>
          (case find_at '':'' response id_pos of
             None \<Rightarrow> None
           | Some colon_pos \<Rightarrow>
               (case find_at [CHR 0x22] response colon_pos of
                  None \<Rightarrow> None
                | Some q \<Rightarrow>
                    (case find_at [CHR 0x22] response (q + 1) of
                       None \<Rightarrow> None
                     | Some e \<Rightarrow> Some (take (e - q - 1) (drop (q + 1) response))))))"

definition on_registered :: "bool \<times> string \<Rightarrow> directory_client \<Rightarrow> directory_client" where
  "on_registered res dc =
     (case res of (success, response) \<Rightarrow>
        if \<not> dc_running dc then dc
        else if success
        then
          let dc = (case extract_server_id response of
                      Some sid \<Rightarrow> dc\<lparr>dc_server_id := sid, dc_registered := True\<rparr>
                    | None \<Rightarrow> dc);
              dc = (if \<not> dc_registered dc
                    then dc\<lparr>dc_last_error := ''Registration response missing server_id''\<rparr> else dc)
          in schedule_next_ping dc
        else schedule_next_ping (dc\<lparr>dc_last_error := response\<rparr>))"

definition on_pinged :: "bool \<times> string \<Rightarrow> directory_client \<Rightarrow> directory_client" where
  "on_pinged res dc =
     (case res of (success, response) \<Rightarrow>
        if \<not> dc_running dc then dc
        else
          let dc = (if \<not> success \<and> (find_sub ''not found'' response \<noteq> None \<or>
                                        find_sub ''Invalid server'' response \<noteq> None)
                    then dc\<lparr>dc_registered := False, dc_server_id := []\<rparr> else dc)
          in schedule_next_ping dc)"

definition on_timer :: "bool \<Rightarrow> directory_client \<Rightarrow> directory_client" where
  "on_timer ec dc =
     (if ec \<or> \<not> dc_running dc then dc
      else if dc_registered dc then send_ping dc else register_server dc)"

text \<open>
  How a request can end: an error on the way, with the message of its error code, or the pieces of the
  response that were read up to the end of the stream or an error.
\<close>

datatype post_end =
    Dns_Failed string
  | Connect_Failed string
  | Tls_Failed string
  | Request_Write_Failed string
  | Response "string list" "string option"

fun async_read_response :: "string \<Rightarrow> string list \<Rightarrow> string option \<Rightarrow> bool \<times> string" where
  "async_read_response response (piece # pieces) err = async_read_response (response @ piece) pieces err"
| "async_read_response response [] (Some msg) = (False, ''Read failed: '' @ msg)"
| "async_read_response response [] None =
     (case parse_http_response response of
        Some (success, body) \<Rightarrow> (success, body)
      | None \<Rightarrow> (False, ''Invalid HTTP response''))"

fun post_result :: "post_end \<Rightarrow> bool \<times> string" where
  "post_result (Dns_Failed msg) = (False, ''DNS resolution failed: '' @ msg)"
| "post_result (Connect_Failed msg) = (False, ''Connection failed: '' @ msg)"
| "post_result (Tls_Failed msg) = (False, ''TLS handshake failed: '' @ msg)"
| "post_result (Request_Write_Failed msg) = (False, ''Request write failed: '' @ msg)"
| "post_result (Response pieces err) = async_read_response [] pieces err"

definition on_reply :: "dc_call \<Rightarrow> post_end \<Rightarrow> directory_client \<Rightarrow> directory_client" where
  "on_reply call e dc =
     (case call of Register_Call \<Rightarrow> on_registered (post_result e) dc | Ping_Call \<Rightarrow> on_pinged (post_result e) dc)"

section \<open>Events\<close>

text \<open>
  What can happen to the client: it is started or stopped, the request with some number ends, the wait on
  the timer is over.  (A wait that is cancelled runs its handler with an error, which does nothing.)
\<close>

datatype dc_event = Client_Starts | Client_Stops | Request_Ends nat post_end | Timer_Fires

fun dc_handle :: "directory_client \<Rightarrow> dc_event \<Rightarrow> directory_client" where
  "dc_handle dc Client_Starts = start_client dc"
| "dc_handle dc Client_Stops = stop_client dc"
| "dc_handle dc (Request_Ends n e) =
     (if n < length (dc_requests dc)
      then on_reply (fst (dc_requests dc ! n)) e
             (dc\<lparr>dc_requests := take n (dc_requests dc) @ drop (Suc n) (dc_requests dc)\<rparr>)
      else dc)"
| "dc_handle dc Timer_Fires = (if dc_timer dc then on_timer False (dc\<lparr>dc_timer := False\<rparr>) else dc)"

text \<open>A running client waits for a reply or for its timer; one that does not run does not wait.\<close>

definition dc_ok :: "directory_client \<Rightarrow> bool" where
  "dc_ok dc \<longleftrightarrow>
     (dc_running dc \<longrightarrow> dc_enabled dc \<and> (dc_timer dc \<or> dc_requests dc \<noteq> [])) \<and> (dc_timer dc \<longrightarrow> dc_running dc)"

lemmas dc_defs = start_client_def stop_client_def register_server_def post_request_def schedule_next_ping_def
  send_ping_def on_timer_def on_registered_def on_pinged_def

lemma on_reply_fields [frame_simps]:
  "dc_running (on_reply k e dc) = dc_running dc" "dc_enabled (on_reply k e dc) = dc_enabled dc"
  "dc_requests (on_reply k e dc) = dc_requests dc" "dc_timer (on_reply k e dc) = (dc_running dc \<or> dc_timer dc)"
  by (auto simp: on_reply_def dc_defs Let_def split: dc_call.split prod.split option.split)

lemma dc_handle_ok: "dc_ok dc \<Longrightarrow> dc_ok (dc_handle dc e)"
  by (cases e) (auto simp: dc_ok_def frame_simps dc_defs)

lemma new_directory_client_fields [simp]:
  "\<not> dc_running (new_directory_client cf)" "\<not> dc_timer (new_directory_client cf)"
  "dc_requests (new_directory_client cf) = []"
  "dc_enabled (new_directory_client cf) = (cf_is_public cf \<and> cf_directory_enabled cf)"
  by (simp_all add: new_directory_client_def Let_def split: prod.split)

lemma new_directory_client_ok: "dc_ok (new_directory_client cf)"
  by (simp add: dc_ok_def)

interpretation directory: invariant_machine dc_handle dc_ok
  by unfold_locales (rule dc_handle_ok)

text \<open>A client that is not enabled never gets beyond its initial state.\<close>

definition dc_silent :: "directory_client \<Rightarrow> bool" where
  "dc_silent dc \<longleftrightarrow> \<not> dc_enabled dc \<and> \<not> dc_running dc \<and> \<not> dc_timer dc \<and> dc_requests dc = []"

interpretation disabled: invariant_machine dc_handle dc_silent
  by unfold_locales (case_tac e; simp add: dc_silent_def dc_defs)

lemma timer_posts:
  assumes "dc_running dc" "dc_timer dc"
  shows "dc_requests (dc_handle dc Timer_Fires) = dc_requests dc @
    [if dc_registered dc then (Ping_Call, build_http_request dc ''/api/servers/ping'' (ping_json (dc_server_id dc)))
     else (Register_Call, build_http_request dc ''/api/servers/register'' (register_json (dc_config dc)))]"
  using assms by (simp add: dc_defs build_http_request_def)

section \<open>Correctness of the cycle\<close>

text \<open>
  C25: Once started, the directory client never stalls: whatever replies and errors arrive and whenever the
  timer fires, while it runs a request is in flight or the timer is armed; the end of a request arms the
  timer, and the timer sends the next request, a ping when the server is registered and a registration
  otherwise.  Once stopped it starts nothing until it is started again.
\<close>

theorem directory_never_stalls:
  "let dc = foldl dc_handle (new_directory_client cf) es
   in (dc_running dc \<longrightarrow> dc_timer dc \<or> dc_requests dc \<noteq> []) \<and>
      (dc_running dc \<and> n < length (dc_requests dc) \<longrightarrow> dc_timer (dc_handle dc (Request_Ends n e))) \<and>
      (dc_timer dc \<longrightarrow> map fst (dc_requests (dc_handle dc Timer_Fires)) =
         map fst (dc_requests dc) @ [if dc_registered dc then Ping_Call else Register_Call]) \<and>
      (\<not> dc_running dc \<and> ev \<noteq> Client_Starts \<longrightarrow>
         \<not> dc_timer (dc_handle dc ev) \<and> set (dc_requests (dc_handle dc ev)) \<subseteq> set (dc_requests dc))"
proof -
  define dc where "dc = foldl dc_handle (new_directory_client cf) es"
  have ok: "dc_ok dc" unfolding dc_def by (rule directory.inv_run) (rule new_directory_client_ok)
  have "\<not> dc_running dc \<and> ev \<noteq> Client_Starts \<longrightarrow>
      \<not> dc_timer (dc_handle dc ev) \<and> set (dc_requests (dc_handle dc ev)) \<subseteq> set (dc_requests dc)"
    using ok by (cases ev) (auto simp: dc_ok_def frame_simps dc_defs dest: in_set_takeD in_set_dropD)
  moreover have "dc_timer dc \<longrightarrow> map fst (dc_requests (dc_handle dc Timer_Fires)) =
      map fst (dc_requests dc) @ [if dc_registered dc then Ping_Call else Register_Call]"
    using ok timer_posts by (simp add: dc_ok_def del: dc_handle.simps)
  ultimately show ?thesis using ok by (simp add: dc_def [symmetric] Let_def dc_ok_def frame_simps)
qed

definition public_config :: server_config where
  "public_config = default_config\<lparr>cf_is_public := True, cf_directory_enabled := True, cf_server_name := ''Irc''\<rparr>"

theorem directory_never_stalls_witness:
  "dc_timer (dc_handle (foldl dc_handle (new_directory_client public_config) [Client_Starts])
     (Request_Ends 0 (Dns_Failed ''no host'')))"
proof -
  have "dc_running (foldl dc_handle (new_directory_client public_config) [Client_Starts]) \<and>
      0 < length (dc_requests (foldl dc_handle (new_directory_client public_config) [Client_Starts]))"
    by (simp add: dc_defs public_config_def)
  then show ?thesis
    using directory_never_stalls [of public_config "[Client_Starts]" 0 "Dns_Failed ''no host''" Client_Stops]
    unfolding Let_def by blast
qed

text \<open>
  A server that is not public, or whose directory registration is switched off, never contacts the
  directory, whatever happens.
\<close>

theorem private_server_stays_silent:
  assumes "\<not> (cf_is_public cf \<and> cf_directory_enabled cf)"
  shows "dc_requests (foldl dc_handle (new_directory_client cf) es) = []"
proof -
  have "dc_silent (new_directory_client cf)" using assms by (simp add: dc_silent_def)
  then show ?thesis using disabled.inv_run dc_silent_def by blast
qed

theorem private_server_stays_silent_witness:
  "dc_requests (foldl dc_handle (new_directory_client default_config) [Client_Starts, Timer_Fires]) = []"
  by (rule private_server_stays_silent) (simp add: default_config_def)

section \<open>Searching\<close>

lemma find_sub_char: "find_sub [c] s = (if c \<in> set s then Some (length (takeWhile (\<lambda>d. d \<noteq> c) s)) else None)"
  by (induction s) (auto simp: find_sub.simps)

lemma find_sub_skip: "\<not> prefix p (c # s) \<Longrightarrow> find_sub p (c # s) = map_option Suc (find_sub p s)"
  by (simp add: find_sub.simps)

lemma find_sub_here: "prefix p s \<Longrightarrow> find_sub p s = Some 0"
  by (simp add: find_sub.simps)

lemma find_sub_clean:
  "p \<noteq> [] \<Longrightarrow> hd p \<notin> set xs \<Longrightarrow> find_sub p (xs @ s) = map_option ((+) (length xs)) (find_sub p s)"
proof (induction xs)
  case Nil
  show ?case by (simp add: option.map_ident)
next
  case (Cons c xs)
  then have "\<not> prefix p (c # xs @ s)" by (cases p) auto
  with Cons show ?case by (simp add: find_sub_skip option.map_comp comp_def)
qed

lemma takeWhile_clean: "c \<notin> set xs \<Longrightarrow> takeWhile (\<lambda>d. d \<noteq> c) (xs @ c # s) = xs"
  by (induction xs) auto

section \<open>Correctness of the texts\<close>

text \<open>A reader of JSON strings: the rest of the text after the closing quote, and the value.\<close>

definition json_unescape :: "char \<Rightarrow> char option" where
  "json_unescape c = map_of [(CHR 0x22, CHR 0x22), (CHR 0x5C, CHR 0x5C), (CHR ''/'', CHR ''/''), (CHR ''b'', CHR 0x08),
     (CHR ''f'', CHR 0x0C), (CHR ''n'', CHR 0x0A), (CHR ''r'', CHR 0x0D), (CHR ''t'', CHR 0x09)] c"

fun read_json_string :: "string \<Rightarrow> (string \<times> string) option" where
  "read_json_string [] = None"
| "read_json_string (c # cs) =
     (if c = CHR 0x22 then Some ([], cs)
      else if c = CHR 0x5C
      then (case cs of
              [] \<Rightarrow> None
            | d # ds \<Rightarrow> (case json_unescape d of
                None \<Rightarrow> None
              | Some x \<Rightarrow> map_option (\<lambda>(v, rest). (x # v, rest)) (read_json_string ds)))
      else map_option (\<lambda>(v, rest). (c # v, rest)) (read_json_string cs))"

lemma read_json_char:
  "read_json_string (json_char c @ s) = map_option (\<lambda>(v, rest). (c # v, rest)) (read_json_string s)"
  by (simp add: json_char_def json_unescape_def)

text \<open>
  A configured name cannot break out of the JSON text it is put into: a JSON reader that starts inside
  the quotes gets the string back, whatever characters it has, and stops right after it.
\<close>

theorem json_string_roundtrip:
  "read_json_string (escape_json s @ [CHR 0x22] @ rest) = Some (s, rest)"
  by (induction s) (simp_all add: escape_json_def read_json_char)

lemma url_scheme_https: "url_scheme (''https://'' @ u) = (True, u)"
  and url_scheme_http: "url_scheme (''http://'' @ u) = (False, u)"
  by (simp_all add: url_scheme_def)

lemma show_nat_not_char: "\<not> is_digit c \<Longrightarrow> c \<notin> set (show_nat n)"
  using show_nat_digits(2) [of n] by (auto simp: list_all_iff)

lemma url_path_found:
  assumes "CHR ''/'' \<notin> set pre" "path = [] \<or> hd path = CHR ''/''"
  shows "find_sub ''/'' (pre @ path) = (if path = [] then None else Some (length pre))"
  using assms by (cases path) (simp_all add: find_sub_char takeWhile_clean)

lemma url_authority_eq:
  assumes host: "CHR '':'' \<notin> set host" "CHR ''/'' \<notin> set host"
    and path: "path = [] \<or> hd path = CHR ''/''"
  shows "url_authority ssl (host @ path) = (host, default_port ssl)"
    and "url_authority ssl (host @ '':'' @ show_nat (unat (n :: 16 word)) @ path) = (host, n)"
proof -
  note pos = url_path_found [OF host(2) path]
  show "url_authority ssl (host @ path) = (host, default_port ssl)"
  proof (cases path)
    case Nil
    with host pos show ?thesis by (simp add: url_authority_def Let_def find_sub_char)
  next
    case (Cons c rest)
    have "length host \<le> length (takeWhile (\<lambda>d. d \<noteq> CHR '':'') (host @ path))"
      using host(1) by (subst takeWhile_append2) auto
    with Cons pos show ?thesis by (simp add: url_authority_def Let_def find_sub_char)
  qed
  let ?p = "show_nat (unat n)"
  have "\<not> is_digit (CHR ''/'')" "\<not> is_digit (CHR '':'')" by (simp_all add: ctype_simps)
  then have no: "CHR ''/'' \<notin> set (host @ '':'' @ ?p)" using host(2) show_nat_not_char by auto
  have slash: "find_sub ''/'' (host @ '':'' @ ?p @ path) =
      (if path = [] then None else Some (length host + 1 + length ?p))"
    using url_path_found [OF no path] by simp
  have colon: "find_sub '':'' (host @ '':'' @ ?p @ path) = Some (length host)"
    using host(1) by (simp add: find_sub_char takeWhile_clean)
  have "uint n < 2147483648" using uint_bounded [of n] by simp
  then have "stoi ?p = Some (int (unat n))"
    using stoi_digits(1) [OF show_nat_digits [of "unat n"]] by simp
  then show "url_authority ssl (host @ '':'' @ ?p @ path) = (host, n)"
    unfolding url_authority_def Let_def slash colon by simp
qed

text \<open>
  The directory's URL is taken apart as it was written: scheme, host, port and path come back, for a
  host without colon and slash and a path that is empty or starts with a slash; without a port the
  scheme's default is used.
\<close>

theorem directory_url_roundtrip:
  assumes host: "CHR '':'' \<notin> set host" "CHR ''/'' \<notin> set host"
    and path: "path = [] \<or> hd path = CHR ''/''"
    and url: "cf_directory_url cf = (if ssl then ''https://'' else ''http://'') @ host @
      (case port of None \<Rightarrow> [] | Some n \<Rightarrow> '':'' @ show_nat (unat (n :: 16 word))) @ path"
  shows "let dc = new_directory_client cf
    in dc_use_ssl dc = ssl \<and> dc_host dc = host \<and> dc_path dc = path \<and>
       dc_port dc = (case port of Some n \<Rightarrow> n | None \<Rightarrow> default_port ssl)"
proof -
  define u where "u = host @ (case port of None \<Rightarrow> [] | Some n \<Rightarrow> '':'' @ show_nat (unat n)) @ path"
  have sch: "cf_directory_url cf \<noteq> [] \<and> url_scheme (cf_directory_url cf) = (ssl, u)"
    using url_scheme_https [of u] url_scheme_http [of u] by (cases ssl) (simp_all add: url u_def)
  have "\<not> is_digit (CHR ''/'')" by (simp add: ctype_simps)
  then have no: "CHR ''/'' \<notin> set (host @ (case port of None \<Rightarrow> [] | Some n \<Rightarrow> '':'' @ show_nat (unat n)))"
    using host(2) show_nat_not_char by (auto split: option.splits)
  have "url_path u = path"
    using url_path_found [OF no path] by (simp add: url_path_def u_def split: if_splits)
  moreover have "url_authority ssl u = (host, case port of Some n \<Rightarrow> n | None \<Rightarrow> default_port ssl)"
    using url_authority_eq [OF host path] by (simp add: u_def split: option.split)
  ultimately show ?thesis using sch by (simp add: new_directory_client_def Let_def)
qed

theorem directory_url_roundtrip_witness:
  "dc_port (new_directory_client (default_config\<lparr>cf_directory_url := ''http://dir.org:8080/v1''\<rparr>)) = 8080"
proof -
  have digits: "show_nat 8080 = ''8080''"
    by (simp add: show_nat.simps digit_char_def char_of_def bit_iff_odd)
  show ?thesis
    using directory_url_roundtrip [of "''dir.org''" "''/v1''"
        "default_config\<lparr>cf_directory_url := ''http://dir.org:8080/v1''\<rparr>" False "Some 8080"]
    by (simp add: digits Let_def)
qed

section \<open>HTTP responses\<close>

definition http_text :: "string list \<Rightarrow> string \<Rightarrow> string" where
  "http_text lines body = concat (map (\<lambda>l. l @ crlf) lines) @ crlf @ body"

lemma http_text_Cons: "http_text (l # ls) body = l @ crlf @ http_text ls body"
  by (simp add: http_text_def)

lemma find_blank_line:
  assumes "lines \<noteq> []" "\<forall>l \<in> set lines. l \<noteq> [] \<and> CHR 0x0D \<notin> set l"
  shows "\<exists>n. find_sub (crlf @ crlf) (http_text lines body) = Some n \<and> drop (n + 4) (http_text lines body) = body"
  using assms
proof (induction lines rule: list_nonempty_induct)
  case (single l)
  then have "find_sub (crlf @ crlf) (l @ crlf @ crlf @ body) = Some (length l)"
    by (subst find_sub_clean) (simp_all add: crlf_def find_sub_here)
  then show ?case by (auto simp: http_text_def crlf_def)
next
  case (cons l ls)
  then obtain n where n: "find_sub (crlf @ crlf) (http_text ls body) = Some n" "drop (n + 4) (http_text ls body) = body"
    by auto
  obtain k ks where ls: "ls = k # ks" "k \<noteq> []" "CHR 0x0D \<notin> set k" using cons by (cases ls) auto
  then have "\<not> prefix (crlf @ crlf) (crlf @ http_text ls body)"
    by (cases k) (auto simp: http_text_def crlf_def)
  then have "find_sub (crlf @ crlf) (crlf @ http_text ls body) = Some (n + 2)"
    using n(1) by (simp add: crlf_def find_sub_skip)
  then have "find_sub (crlf @ crlf) (http_text (l # ls) body) = Some (length l + n + 2)"
    unfolding http_text_Cons using cons.prems by (subst find_sub_clean) (simp_all add: crlf_def)
  moreover have "drop (length l + n + 2 + 4) (http_text (l # ls) body) = drop (n + 4) (http_text ls body)"
    by (simp add: http_text_Cons crlf_def eval_nat_numeral)
  ultimately show ?case using n(2) by auto
qed

lemma http_parsed:
  assumes code: "100 \<le> code" "code < 1000"
    and lines: "\<forall>l \<in> set (reason # headers). CHR 0x0D \<notin> set l" "[] \<notin> set headers"
  shows "parse_http_response (http_text ((''HTTP/1.1 '' @ show_nat code @ '' '' @ reason) # headers) body) =
    Some (200 \<le> code \<and> code < 300, body)"
proof -
  let ?first = "''HTTP/1.1 '' @ show_nat code @ '' '' @ reason"
  let ?t = "http_text (?first # headers) body"
  have "\<not> is_digit (CHR 0x0D)" by (simp add: ctype_simps)
  then have "\<forall>l \<in> set (?first # headers). l \<noteq> [] \<and> CHR 0x0D \<notin> set l"
    using lines show_nat_not_char by auto
  then obtain n where n: "find_sub (crlf @ crlf) ?t = Some n" "drop (n + 4) ?t = body"
    using find_blank_line [of "?first # headers"] by blast
  have "show_nat (code div 100) = [digit_char (code div 100)]" using code by (subst show_nat.simps) simp
  moreover have "show_nat code = show_nat (code div 10) @ [digit_char (code mod 10)]"
    using code by (subst show_nat.simps) simp
  moreover have "show_nat (code div 10) = show_nat (code div 10 div 10) @ [digit_char (code div 10 mod 10)]"
    using code by (subst show_nat.simps) simp
  moreover have "code div 10 div 10 = code div 100" by simp
  ultimately have len: "length (show_nat code) = 3" by simp
  have sp: "find_sub '' '' ?t = Some 8" by (simp add: http_text_def find_sub_char)
  have "take 3 (drop (8 + 1) ?t) = show_nat code" using len by (simp add: http_text_def)
  moreover have "stoi (show_nat code) = Some (int code)"
    using stoi_digits(1) [OF show_nat_digits [of code]] code by simp
  ultimately show ?thesis unfolding parse_http_response_def n sp option.case by simp
qed

lemma server_id_read:
  assumes "CHR 0x22 \<notin> set sid"
  shows "extract_server_id (''{'' @ quoted ''server_id'' @ '':'' @ quoted sid @ rest) = Some sid"
proof -
  let ?b = "''{'' @ quoted ''server_id'' @ '':'' @ quoted sid @ rest"
  have "find_sub (quoted ''server_id'') ?b = Some 1"
    by (simp add: find_sub.simps [where s = "_ # _"] quoted_def)
  moreover have "find_at '':'' ?b 1 = Some 12" by (simp add: find_at_def find_sub_char quoted_def)
  moreover have "find_at [CHR 0x22] ?b 12 = Some 13" by (simp add: find_at_def find_sub_char quoted_def)
  moreover have "find_at [CHR 0x22] ?b 14 = Some (14 + length sid)"
    using assms by (simp add: find_at_def find_sub_char quoted_def takeWhile_clean)
  ultimately show ?thesis by (simp add: extract_server_id_def quoted_def)
qed

lemma pieces_read: "async_read_response r pieces None = async_read_response (r @ concat pieces) [] None"
  by (induction pieces arbitrary: r) simp_all

text \<open>
  A directory that answers the registration with a success and a JSON object that starts with the server
  id makes the client registered under that id, however the response is cut into pieces, and the next
  thing it sends is a ping with that id; an answer with another status leaves it unregistered.
\<close>

theorem registration_registers:
  assumes run: "dc_running dc" "\<not> dc_registered dc"
    and code: "100 \<le> code" "code < 1000"
    and lines: "\<forall>l \<in> set (reason # headers). CHR 0x0D \<notin> set l" "[] \<notin> set headers"
    and sid: "CHR 0x22 \<notin> set sid"
    and got: "concat pieces = http_text ((''HTTP/1.1 '' @ show_nat code @ '' '' @ reason) # headers)
      (''{'' @ quoted ''server_id'' @ '':'' @ quoted sid @ rest)"
  shows "let dc' = on_reply Register_Call (Response pieces None) dc
    in if 200 \<le> code \<and> code < 300
       then dc_registered dc' \<and> dc_server_id dc' = sid \<and>
            dc_requests (dc_handle dc' Timer_Fires) =
              dc_requests dc @ [(Ping_Call, build_http_request dc ''/api/servers/ping'' (ping_json sid))]
       else \<not> dc_registered dc' \<and> dc_timer dc'"
proof -
  have "post_result (Response pieces None) = (200 \<le> code \<and> code < 300,
      ''{'' @ quoted ''server_id'' @ '':'' @ quoted sid @ rest)"
    using http_parsed [OF code lines] by (simp add: pieces_read [of "[]"] got)
  then show ?thesis
    using run server_id_read [OF sid, of rest]
    by (simp add: on_reply_def dc_defs build_http_request_def Let_def del: post_result.simps append.simps)
qed

theorem registration_registers_witness:
  "dc_server_id (on_reply Register_Call (Response [http_text [''HTTP/1.1 200 OK'']
       (''{'' @ quoted ''server_id'' @ '':'' @ quoted ''s1'' @ ''}'')] None)
     (start_client (new_directory_client public_config))) = ''s1''"
proof -
  have digits: "show_nat 200 = ''200''"
    by (simp add: show_nat.simps digit_char_def char_of_def bit_iff_odd)
  have run: "dc_running (start_client (new_directory_client public_config))"
    "\<not> dc_registered (start_client (new_directory_client public_config))"
    by (simp_all add: dc_defs public_config_def) (simp add: new_directory_client_def Let_def split: prod.split)
  show ?thesis
    using registration_registers [OF run, of 200 "''OK''" "[]" "''s1''"
        "[http_text [''HTTP/1.1 200 OK''] (''{'' @ quoted ''server_id'' @ '':'' @ quoted ''s1'' @ ''}'')]" "''}''"]
    by (simp add: digits Let_def)
qed

end
