(* ===== verification/Server_Owner.thy ===== *)
theory Server_Owner
  imports Server_Config Reserved_Identity
begin

text \<open>
  The server owner's identity, \<open>src/admin/server_owner.cpp\<close>: its key file and its console commands.  Key
  generation is libsodium's, the parameter \<open>keypair\<close> (\<open>None\<close> when it fails); files are a map from paths
  to contents.  A command returns its result and the announcements it makes; the code logs them and does
  nothing else.
\<close>

section \<open>Keys\<close>

definition PUBLICKEYBYTES :: nat where "PUBLICKEYBYTES = 32"
definition SECRETKEYBYTES :: nat where "SECRETKEYBYTES = 64"

record server_owner =
  so_key_path :: string
  so_public_key :: bytes
  so_private_key :: bytes
  so_keys_loaded :: bool

definition generate_key_pair ::
  "(bytes \<times> bytes) option \<Rightarrow> bool \<Rightarrow> string \<Rightarrow> (string \<rightharpoonup> bytes) \<Rightarrow> bool \<times> (string \<rightharpoonup> bytes)"
where
  "generate_key_pair keypair writable path fs =
     (case keypair of
        None \<Rightarrow> (False, fs)
      | Some (pk, sk) \<Rightarrow>
          if \<not> writable then (False, fs)
          else (True, fs(path \<mapsto> take PUBLICKEYBYTES pk @ take SECRETKEYBYTES sk)))"

definition load_keys :: "(string \<rightharpoonup> bytes) \<Rightarrow> server_owner \<Rightarrow> bool \<times> server_owner" where
  "load_keys fs so =
     (case fs (so_key_path so) of
        None \<Rightarrow> (False, so)
      | Some content \<Rightarrow>
          if length content < PUBLICKEYBYTES + SECRETKEYBYTES then (False, so)
          else (True, so\<lparr>so_public_key := take PUBLICKEYBYTES content,
                         so_private_key := take SECRETKEYBYTES (drop PUBLICKEYBYTES content),
                         so_keys_loaded := True\<rparr>))"

definition new_server_owner ::
  "(bytes \<times> bytes) option \<Rightarrow> bool \<Rightarrow> string \<Rightarrow> (string \<rightharpoonup> bytes) \<Rightarrow> server_owner \<times> (string \<rightharpoonup> bytes)"
where
  "new_server_owner keypair writable path fs =
     (let so = \<lparr>so_key_path = path, so_public_key = [], so_private_key = [], so_keys_loaded = False\<rparr>
      in case (if fs path = None then generate_key_pair keypair writable path fs else (True, fs)) of
           (False, fs) \<Rightarrow> (so, fs)
         | (True, fs) \<Rightarrow> (snd (load_keys fs so), fs))"

section \<open>The identity\<close>

datatype owner_availability = Owner_Online | Owner_Away | Owner_Busy

record owner_presence =
  op_user_id :: string
  op_status :: owner_availability
  op_status_message :: string

definition get_presence :: owner_presence where
  "get_presence = \<lparr>op_user_id = ''admin'', op_status = Owner_Online, op_status_message = ''Server Owner''\<rparr>"

text \<open>The two sending methods log a message and do nothing else: the log line, if there is one.\<close>

definition send_to_channel :: "server_owner \<Rightarrow> string \<Rightarrow> string \<Rightarrow> string" where
  "send_to_channel so channel_id message =
     (if \<not> so_keys_loaded so then ''ServerOwner: Cannot send message - keys not loaded''
      else ''ServerOwner: Sending message to '' @ channel_id @ '': '' @ take 50 message)"

definition send_to_user :: "server_owner \<Rightarrow> string \<Rightarrow> string \<Rightarrow> string" where
  "send_to_user so user_id message =
     (if \<not> so_keys_loaded so then ''ServerOwner: Cannot send message - keys not loaded''
      else ''ServerOwner: Sending DM to '' @ user_id @ '': '' @ take 50 message)"

definition get_public_key :: "server_owner \<Rightarrow> bytes" where
  "get_public_key so = so_public_key so"

text \<open>\<open>ed25519\<close> is libsodium's detached signature under a secret key.\<close>

definition sign_message :: "(bytes \<Rightarrow> string \<Rightarrow> bytes) \<Rightarrow> server_owner \<Rightarrow> string \<Rightarrow> bytes" where
  "sign_message ed25519 so message = ed25519 (so_private_key so) message"

section \<open>Commands\<close>

record owner_result =
  or_success :: bool
  or_message :: string
  or_announced :: "string list"

definition plain_result :: "bool \<Rightarrow> string \<Rightarrow> owner_result" where
  "plain_result success message = \<lparr>or_success = success, or_message = message, or_announced = []\<rparr>"

definition owner_announce :: "string list \<Rightarrow> owner_result" where
  "owner_announce args =
     (if args = [] then plain_result False ''Usage: /announce <message>''
      else \<lparr>or_success = True, or_message = ''Announcement sent to all channels: '' @ join_with '' '' args,
            or_announced = [join_with '' '' args]\<rparr>)"

definition reason_of :: "string list \<Rightarrow> string" where
  "reason_of args = (if length args > 1 then join_with '' '' (tl args) else ''No reason given'')"

definition owner_ban :: "string list \<Rightarrow> owner_result" where
  "owner_ban args =
     (if args = [] then plain_result False ''Usage: /ban <user_id> [reason]''
      else if hd args = OWNER_ID then plain_result False ''Cannot ban the server owner''
      else plain_result True (''User '' @ hd args @ '' has been banned. Reason: '' @ reason_of args))"

definition owner_kick :: "string list \<Rightarrow> owner_result" where
  "owner_kick args =
     (if args = [] then plain_result False ''Usage: /kick <user_id> [reason]''
      else plain_result True (''User '' @ hd args @ '' has been kicked. Reason: '' @ reason_of args))"

definition owner_shutdown :: "string list \<Rightarrow> owner_result" where
  "owner_shutdown args =
     (let delay = (if args = [] then 0 else case stoi (hd args) of Some d \<Rightarrow> d | None \<Rightarrow> 0);
          message = ''Server is shutting down'' @
            (if delay > 0 then '' in '' @ show_int delay @ '' seconds'' else [])
      in \<lparr>or_success = True, or_message = ''Server shutdown initiated'',
          or_announced = or_announced (owner_announce [message])\<rparr>)"

definition owner_restart :: "string list \<Rightarrow> owner_result" where
  "owner_restart args =
     \<lparr>or_success = True, or_message = ''Server restart initiated'',
      or_announced = or_announced (owner_announce [''Server is restarting...''])\<rparr>"

definition text_lines :: "string list \<Rightarrow> string" where
  "text_lines ls = concat (map (\<lambda>l. l @ [CHR 0x0A]) ls)"

definition owner_status :: "string list \<Rightarrow> owner_result" where
  "owner_status args = plain_result True (text_lines
     [''=== Server Status ==='', ''Server Owner: '' @ OWNER_ID, ''Status: Online'',
      ''Online users: (not implemented)'', ''Active channels: (not implemented)'', ''Uptime: (not implemented)''])"

definition owner_config :: "string list \<Rightarrow> owner_result" where
  "owner_config args =
     (if args = []
      then plain_result False (''Usage: /config <key> [value]'' @ [CHR 0x0A] @ ''Use '' @ [CHR 0x27] @
             ''/config list'' @ [CHR 0x27] @ '' to see available keys'')
      else if hd args = ''list''
      then plain_result True ''Available config keys: max_connections, log_level, msg_rate_per_sec''
      else if length args < 2 then plain_result False ''Getting config values not yet implemented''
      else plain_result True (''Config updated: '' @ hd args @ '' = '' @ args ! 1))"

definition owner_help :: "string list \<Rightarrow> owner_result" where
  "owner_help args = plain_result True (text_lines
     [''Available admin commands:'', [],
      ''/announce <message>     - Send announcement to all channels'',
      ''/ban <user> [reason]    - Ban a user from the server'',
      ''/kick <user> [reason]   - Kick a user from current channel'',
      ''/shutdown [delay]       - Gracefully shutdown the server'',
      ''/restart                - Restart the server'',
      ''/status                 - Show server status and statistics'',
      ''/config <key> [value]   - View or change server configuration'',
      ''/help                   - Show this help message'', [],
      ''You can use abbreviated forms: /a for /announce, /b for /ban, etc.''])"

definition execute_command :: "string \<Rightarrow> string list \<Rightarrow> owner_result" where
  "execute_command command args =
     (if command \<in> {''announce'', ''a''} then owner_announce args
      else if command \<in> {''ban'', ''b''} then owner_ban args
      else if command \<in> {''kick'', ''k''} then owner_kick args
      else if command \<in> {''shutdown'', ''stop''} then owner_shutdown args
      else if command \<in> {''restart'', ''reboot''} then owner_restart args
      else if command \<in> {''status'', ''s''} then owner_status args
      else if command \<in> {''config'', ''cfg''} then owner_config args
      else if command \<in> {''help'', ''h'', ''?''} then owner_help args
      else plain_result False (''Unknown command: '' @ command @ ''. Type /help for available commands.''))"

text \<open>\<open>iss >> word\<close>: skip white space, read up to the next one; it fails at the end of the text.\<close>

definition read_word :: "string \<Rightarrow> (string \<times> string) option" where
  "read_word s =
     (let s = dropWhile is_space s
      in if s = [] then None else Some (takeWhile (\<lambda>c. \<not> is_space c) s, dropWhile (\<lambda>c. \<not> is_space c) s))"

lemma read_word_shorter: "read_word s = Some (w, rest) \<Longrightarrow> length rest < length s"
proof -
  assume a: "read_word s = Some (w, rest)"
  let ?t = "dropWhile is_space s"
  have t: "?t \<noteq> []" "rest = dropWhile (\<lambda>c. \<not> is_space c) ?t"
    using a by (auto simp: read_word_def Let_def split: if_splits)
  then obtain c u where c: "?t = c # u" "\<not> is_space c" by (metis hd_dropWhile list.exhaust_sel)
  then have "length rest \<le> length u" using t(2) by (simp add: length_dropWhile_le)
  also have "length u < length ?t" using c(1) by simp
  also have "\<dots> \<le> length s" by (rule length_dropWhile_le)
  finally show ?thesis .
qed

function read_words :: "string \<Rightarrow> string list" where
  "read_words s = (case read_word s of None \<Rightarrow> [] | Some (w, rest) \<Rightarrow> w # read_words rest)"
  by pat_completeness auto
termination by (relation "measure length") (auto dest: read_word_shorter)

declare read_words.simps [simp del]

definition execute_command_line :: "string \<Rightarrow> owner_result" where
  "execute_command_line line =
     (let (command, rest) = (case read_word line of Some (w, rest) \<Rightarrow> (w, rest) | None \<Rightarrow> ([], []));
          command = (if command \<noteq> [] \<and> hd command = CHR ''/'' then tl command else command)
      in execute_command command (read_words rest))"

section \<open>Correctness\<close>



text \<open>When there is no usable key file the owner is not initialised, and has no keys.\<close>

lemma owner_needs_keys:
  "so_keys_loaded (snd (load_keys fs so)) \<longleftrightarrow>
     so_keys_loaded so \<or> (\<exists>c. fs (so_key_path so) = Some c \<and> 96 \<le> length c)"
  by (auto simp: load_keys_def PUBLICKEYBYTES_def SECRETKEYBYTES_def split: option.split)

lemma read_word_gap:
  assumes "list_all is_space gap" "w \<noteq> []" "list_all (\<lambda>c. \<not> is_space c) w" "rest = [] \<or> is_space (hd rest)"
  shows "read_word (gap @ w @ rest) = Some (w, rest)"
proof -
  have "dropWhile is_space (gap @ w @ rest) = w @ rest"
    using assms by (cases w) (auto simp: list_all_iff dropWhile_append2)
  moreover have "takeWhile (\<lambda>c. \<not> is_space c) (w @ rest) = w" "dropWhile (\<lambda>c. \<not> is_space c) (w @ rest) = rest"
    using assms(3,4) by (cases rest; simp add: list_all_iff takeWhile_append2 dropWhile_append2)+
  ultimately show ?thesis using assms(2) by (simp add: read_word_def)
qed

lemma read_word_blank: "list_all is_space s \<Longrightarrow> read_word s = None"
  by (simp add: read_word_def list_all_iff dropWhile_eq_Nil_conv)

text \<open>A line of words, each after a gap, and white space at its end.\<close>

definition spaced :: "(string \<times> string) list \<Rightarrow> string \<Rightarrow> string" where
  "spaced ws trail = concat (map (\<lambda>(gap, w). gap @ w) ws) @ trail"

definition word_ok :: "string \<Rightarrow> bool" where
  "word_ok w \<longleftrightarrow> w \<noteq> [] \<and> list_all (\<lambda>c. \<not> is_space c) w"

lemma spaced_start:
  assumes "\<forall>(gap, w) \<in> set ws. gap \<noteq> [] \<and> list_all is_space gap" "list_all is_space trail"
  shows "spaced ws trail = [] \<or> is_space (hd (spaced ws trail))"
  using assms by (cases ws; cases trail) (auto simp: spaced_def neq_Nil_conv)

lemma read_words_spaced:
  assumes "\<forall>(gap, w) \<in> set ws. gap \<noteq> [] \<and> list_all is_space gap \<and> word_ok w" "list_all is_space trail"
  shows "read_words (spaced ws trail) = map snd ws"
  using assms
proof (induction ws)
  case Nil
  then show ?case by (subst read_words.simps) (simp add: spaced_def read_word_blank)
next
  case (Cons p ws)
  obtain gap w where p: "p = (gap, w)" by fastforce
  have "spaced ws trail = [] \<or> is_space (hd (spaced ws trail))"
    using Cons.prems by (intro spaced_start) auto
  then have "read_word (gap @ w @ spaced ws trail) = Some (w, spaced ws trail)"
    using Cons.prems by (intro read_word_gap) (simp_all add: p word_ok_def)
  moreover have "spaced (p # ws) trail = gap @ w @ spaced ws trail" by (simp add: spaced_def p)
  ultimately show ?case using Cons by (subst read_words.simps) (simp add: p)
qed

text \<open>
  A console line runs the command of its first word, with or without the slash, on the words that
  follow, whatever white space surrounds and separates them.
\<close>

theorem console_line_words:
  assumes "list_all is_space start" "word_ok c" "hd c \<noteq> CHR ''/''"
    and "\<forall>(gap, w) \<in> set ws. gap \<noteq> [] \<and> list_all is_space gap \<and> word_ok w" "list_all is_space trail"
  shows "execute_command_line (start @ (if slash then ''/'' else []) @ c @ spaced ws trail) =
    execute_command c (map snd ws)"
proof -
  have slash: "\<not> is_space (CHR ''/'')" by (simp add: ctype_simps)
  have "spaced ws trail = [] \<or> is_space (hd (spaced ws trail))"
    using assms(4,5) by (intro spaced_start) auto
  then have "read_word (start @ ((if slash then ''/'' else []) @ c) @ spaced ws trail) =
      Some ((if slash then ''/'' else []) @ c, spaced ws trail)"
    using assms(1,2) slash by (intro read_word_gap) (auto simp: word_ok_def)
  then show ?thesis
    using assms(2,3) read_words_spaced [OF assms(4,5)] by (simp add: execute_command_line_def word_ok_def)
qed

theorem console_line_words_witness:
  "execute_command_line '' /kick  bob '' = execute_command ''kick'' [''bob'']"
proof -
  have "is_space (CHR '' '')" "\<forall>c \<in> set ''kickbob''. \<not> is_space c" by (simp_all add: ctype_simps)
  then show ?thesis
    using console_line_words [of "'' ''" "''kick''" "[(''  '', ''bob'')]" "'' ''" True]
    by (simp add: spaced_def word_ok_def)
qed

end
