(* ===== verification/Tls_Context.thy ===== *)
theory Tls_Context
  imports Prelude
begin

text \<open>
  The TLS context of the server, \<open>src/net/tls_context.cpp\<close>: which protocol versions a client can negotiate,
  and the errors that keep the server from starting.  What OpenSSL makes of the two files is a parameter.
\<close>

section \<open>Protocol versions\<close>

datatype tls_version = SSLv2 | SSLv3 | TLSv1_0 | TLSv1_1 | TLSv1_2 | TLSv1_3

primrec wire_version :: "tls_version \<Rightarrow> nat" where
  "wire_version SSLv2 = 2"
| "wire_version SSLv3 = 768"
| "wire_version TLSv1_0 = 769"
| "wire_version TLSv1_1 = 770"
| "wire_version TLSv1_2 = 771"
| "wire_version TLSv1_3 = 772"

lemma wire_version_inject [simp]: "wire_version a = wire_version b \<longleftrightarrow> a = b"
  by (cases a; cases b) simp_all

instantiation tls_version :: linorder
begin

definition less_eq_tls_version :: "tls_version \<Rightarrow> tls_version \<Rightarrow> bool" where
  "less_eq_tls_version a b \<longleftrightarrow> wire_version a \<le> wire_version b"

definition less_tls_version :: "tls_version \<Rightarrow> tls_version \<Rightarrow> bool" where
  "less_tls_version a b \<longleftrightarrow> wire_version a < wire_version b"

instance
  by standard (auto simp: less_eq_tls_version_def less_tls_version_def order_antisym)

end

section \<open>The context\<close>

text \<open>
  The file system and OpenSSL: whether a file can be opened, and what the two loading functions throw for it
  (\<open>None\<close>: nothing).
\<close>

record tls_lib =
  file_readable :: "string \<Rightarrow> bool"
  chain_error :: "string \<Rightarrow> string option"
  key_error :: "string \<Rightarrow> string option"

record tls_context =
  tc_disabled :: "tls_version list"
  tc_min_version :: tls_version
  tc_certificate :: string
  tc_private_key :: string
  tc_ciphersuites :: "string list"

definition verify_cert_files :: "tls_lib \<Rightarrow> string \<Rightarrow> string \<Rightarrow> string option" where
  "verify_cert_files L cert_file key_file =
     (if \<not> file_readable L cert_file then Some (''Certificate file not found or unreadable: '' @ cert_file)
      else if \<not> file_readable L key_file then Some (''Private key file not found or unreadable: '' @ key_file)
      else None)"

definition create_server_context :: "tls_lib \<Rightarrow> string \<Rightarrow> string \<Rightarrow> string + tls_context" where
  "create_server_context L cert_file key_file =
     (case verify_cert_files L cert_file key_file of
        Some msg \<Rightarrow> Inl msg
      | None \<Rightarrow>
          (case chain_error L cert_file of
             Some e \<Rightarrow> Inl (''Failed to load certificate file: '' @ cert_file @ '' - '' @ e)
           | None \<Rightarrow>
               (case key_error L key_file of
                  Some e \<Rightarrow> Inl (''Failed to load private key file: '' @ key_file @ '' - '' @ e)
                | None \<Rightarrow>
                    Inr \<lparr>tc_disabled = [SSLv2, SSLv3, TLSv1_0, TLSv1_1, TLSv1_2], tc_min_version = TLSv1_3,
                         tc_certificate = cert_file, tc_private_key = key_file,
                         tc_ciphersuites = [''TLS_AES_256_GCM_SHA384'', ''TLS_CHACHA20_POLY1305_SHA256'',
                                            ''TLS_AES_128_GCM_SHA256'']\<rparr>)))"

text \<open>The versions that OpenSSL negotiates under a context.\<close>

definition negotiable :: "tls_context \<Rightarrow> tls_version \<Rightarrow> bool" where
  "negotiable ctx v \<longleftrightarrow> v \<notin> set (tc_disabled ctx) \<and> tc_min_version ctx \<le> v"

lemma created_context:
  assumes "create_server_context L cert_file key_file = Inr ctx"
  shows "file_readable L cert_file" "file_readable L key_file" "chain_error L cert_file = None"
    "key_error L key_file = None" "negotiable ctx v \<longleftrightarrow> v = TLSv1_3"
proof -
  show "file_readable L cert_file" "file_readable L key_file" "chain_error L cert_file = None" "key_error L key_file = None"
    using assms by (auto simp: create_server_context_def verify_cert_files_def split: option.splits if_splits)
  show "negotiable ctx v \<longleftrightarrow> v = TLSv1_3"
    using assms by (cases v) (auto simp: create_server_context_def negotiable_def less_eq_tls_version_def
      split: option.splits)
qed

lemma context_refused:
  "(\<exists>msg. create_server_context L cert_file key_file = Inl msg) \<longleftrightarrow>
     \<not> file_readable L cert_file \<or> \<not> file_readable L key_file \<or> chain_error L cert_file \<noteq> None \<or> key_error L key_file \<noteq> None"
  by (auto simp: create_server_context_def verify_cert_files_def split: option.split)

end
