(* ===== verification/Server_Process.thy ===== *)
theory Server_Process
  imports Server_Control Directory_Client Server_Owner Tls_Context
begin

text \<open>
  The \<open>Server\<close> object of \<open>src/server.cpp\<close> as a process: what its constructor builds, \<open>run\<close>, \<open>shutdown\<close> with
  the threads it waits for, the state it sends to the admin console, and the routes of the HTTP API.  The
  HTTP library and its JSON values belong to a submodule: a request's body is a map from names to
  values, and a conversion to the wrong type is an exception.
\<close>

section \<open>Logging and threads\<close>

datatype log_level = Log_Debug | Log_Info | Log_Warn | Log_Error

definition log_level_of :: "string \<Rightarrow> log_level" where
  "log_level_of level =
     (if level = ''debug'' then Log_Debug else if level = ''info'' then Log_Info
      else if level = ''warn'' \<or> level = ''warning'' then Log_Warn
      else if level = ''error'' then Log_Error else Log_Info)"

text \<open>A thread is a number; \<open>hardware\<close> is \<open>hardware_concurrency()\<close>.\<close>

definition create_thread_pool :: "nat \<Rightarrow> nat list" where
  "create_thread_pool hardware = [0..<max 2 hardware]"

text \<open>
  Joining the threads in order; \<open>std::thread::join\<close> throws when the thread is the caller itself.  \<open>None\<close> is
  that exception.
\<close>

fun stop_thread_pool :: "nat option \<Rightarrow> nat list \<Rightarrow> nat list option" where
  "stop_thread_pool caller [] = Some []"
| "stop_thread_pool caller (t # ts) = (if caller = Some t then None else stop_thread_pool caller ts)"

section \<open>The process\<close>

text \<open>What the HTTP server is started with.\<close>

record api_config =
  api_port :: "16 word"
  api_bind_address :: string
  api_keys :: "string list"
  api_cors_enabled :: bool
  api_rate_limit_enabled :: bool
  api_rate_limit_requests :: int

definition api_config_of :: "server_config \<Rightarrow> api_config" where
  "api_config_of cf =
     \<lparr>api_port = cf_http_api_port cf, api_bind_address = cf_http_api_bind cf, api_keys = cf_http_api_keys cf,
      api_cors_enabled = cf_http_api_cors cf, api_rate_limit_enabled = cf_http_api_rate_limit cf,
      api_rate_limit_requests = cf_http_api_rate_limit_requests cf\<rparr>"

record server_process =
  sp_config :: server_config
  sp_level :: log_level
  sp_running :: bool
  sp_io_stopped :: bool
  sp_tls :: tls_context
  sp_server :: server
  sp_directory :: "directory_client option"
  sp_owner :: "server_owner option"
  sp_http :: "api_config option"
  sp_has_tui :: bool
  sp_admin_listening :: bool
  sp_tui_thread :: bool
  sp_cleanup_timer :: bool
  sp_pool :: "nat list"

text \<open>
  The listener's constructor opens the port: what Boost.Asio reports for each of its calls (\<open>None\<close>: success),
  and the exception that the first failure becomes.
\<close>

record socket_lib =
  acceptor_open :: "string option"
  set_reuse_address :: "string option"
  address_error :: "string \<Rightarrow> string option"
  acceptor_bind :: "string \<Rightarrow> 16 word \<Rightarrow> string option"
  acceptor_listen :: "string option"

definition new_listener :: "socket_lib \<Rightarrow> string \<Rightarrow> 16 word \<Rightarrow> string option" where
  "new_listener N host port =
     (case acceptor_open N of
        Some e \<Rightarrow> Some (''Failed to open acceptor: '' @ e)
      | None \<Rightarrow>
          (case set_reuse_address N of
             Some e \<Rightarrow> Some (''Failed to set reuse_address: '' @ e)
           | None \<Rightarrow>
               (case address_error N host of
                  Some e \<Rightarrow> Some e
                | None \<Rightarrow>
                    (case acceptor_bind N host port of
                       Some e \<Rightarrow> Some (''Failed to bind to '' @ host @ '':'' @ show_nat (unat port) @ '': '' @ e)
                     | None \<Rightarrow> map_option (\<lambda>e. ''Failed to listen: '' @ e) (acceptor_listen N)))))"

text \<open>
  The constructor: what it builds once the TLS context exists, and the whole; \<open>Inl\<close> is the exception.
  \<open>has_tui\<close> is the build option \<open>IRCORD_HAS_TUI\<close>.
\<close>

definition build_process ::
  "bool \<Rightarrow> tls_context \<Rightarrow> (bytes \<times> bytes) option \<Rightarrow> bool \<Rightarrow> (string \<rightharpoonup> bytes) \<Rightarrow> server_config \<Rightarrow> user_db \<Rightarrow> offline_db \<Rightarrow>
   file_db \<Rightarrow> server_process"
where
  "build_process has_tui tls keypair writable fs cf udb odb fdb =
    \<lparr>sp_config = cf, sp_level = log_level_of (cf_log_level cf), sp_running = False, sp_io_stopped = False,
     sp_tls = tls, sp_server = new_server cf udb odb fdb,
     sp_directory = (if cf_is_public cf \<and> cf_directory_enabled cf then Some (new_directory_client cf) else None),
     sp_owner = (if cf_admin_enabled cf
                 then Some (fst (new_server_owner keypair writable (cf_admin_key_file cf) fs)) else None),
     sp_http = None, sp_has_tui = has_tui, sp_admin_listening = False, sp_tui_thread = False,
     sp_cleanup_timer = False, sp_pool = []\<rparr>"

definition new_process ::
  "tls_lib \<Rightarrow> socket_lib \<Rightarrow> bool \<Rightarrow> bool \<Rightarrow> (bytes \<times> bytes) option \<Rightarrow> bool \<Rightarrow> (string \<rightharpoonup> bytes) \<Rightarrow> server_config \<Rightarrow>
   string + user_db \<times> offline_db \<times> file_db \<Rightarrow> string + server_process"
where
  "new_process L N has_tui sodium keypair writable fs cf db =
     (if \<not> sodium then Inl ''Failed to initialize libsodium''
      else case db of
             Inl msg \<Rightarrow> Inl msg
           | Inr (udb, odb, fdb) \<Rightarrow>
               (case create_server_context L (cf_tls_cert_file cf) (cf_tls_key_file cf) of
                  Inl msg \<Rightarrow> Inl msg
                | Inr tls \<Rightarrow>
                    (case new_listener N (cf_host cf) (cf_port cf) of
                       Some msg \<Rightarrow> Inl msg
                     | None \<Rightarrow> Inr (build_process has_tui tls keypair writable fs cf udb odb fdb))))"

text \<open>\<open>run\<close> up to its waiting loop; the terminal interface gets a thread unless the server is headless.\<close>

definition run_process :: "nat \<Rightarrow> server_process \<Rightarrow> server_process" where
  "run_process hardware sp =
     (if sp_running sp then sp
      else sp\<lparr>sp_running := True, sp_server := run_listener (sp_server sp),
              sp_directory := map_option start_client (sp_directory sp),
              sp_http := (if cf_http_api_enabled (sp_config sp) then Some (api_config_of (sp_config sp)) else None),
              sp_cleanup_timer := True, sp_admin_listening := sp_has_tui sp,
              sp_tui_thread := sp_has_tui sp \<and> \<not> cf_headless (sp_config sp),
              sp_pool := sp_pool sp @ create_thread_pool hardware\<rparr>)"

text \<open>
  \<open>shutdown\<close>, called on a thread of the pool or (\<open>None\<close>) on another; \<open>None\<close> is an exception that leaves it.
  It joins the thread of the terminal interface, which ends when its user or its connection does.
\<close>

definition shutdown_process :: "nat option \<Rightarrow> server_process \<Rightarrow> server_process option" where
  "shutdown_process caller sp =
     (if \<not> sp_running sp then Some sp
      else
        let sp = sp\<lparr>sp_running := False, sp_http := None, sp_admin_listening := False, sp_tui_thread := False,
                    sp_directory := map_option stop_client (sp_directory sp),
                    sp_server := shutdown (sp_server sp), sp_io_stopped := True\<rparr>
        in case stop_thread_pool caller (sp_pool sp) of
             None \<Rightarrow> None
           | Some ts \<Rightarrow> Some (sp\<lparr>sp_pool := ts\<rparr>))"

section \<open>The admin console\<close>

datatype admin_event =
    Users_Event "(user_id \<times> string) list"
  | Stats_Event int int string

text \<open>One round of \<open>send_periodic_state\<close>: the events it sends to a console that is connected.\<close>

definition periodic_state ::
  "world \<Rightarrow> readings \<Rightarrow> time \<Rightarrow> string \<Rightarrow> bool \<Rightarrow> server_process \<Rightarrow> admin_event list"
where
  "periodic_state w r started version has_client sp =
     (if \<not> sp_running sp \<or> \<not> sp_admin_listening sp \<or> \<not> has_client then []
      else [Users_Event (get_online_users w (sp_server sp)),
            Stats_Event ((steady r - started) div 1000000000) (active_connections (sp_server sp)) version])"

section \<open>The HTTP API\<close>

datatype json = J_String string | J_Int int | J_Bool bool | J_Other

datatype api_response =
    Api_Ok "(string \<times> json) list"
  | Api_Created "(string \<times> json) list"
  | Api_Bad_Request string
  | Api_Threw

definition route_health :: api_response where
  "route_health = Api_Ok [(''status'', J_String ''ok''), (''service'', J_String ''ircord-server'')]"

definition route_info :: "server_config \<Rightarrow> api_response" where
  "route_info cf = Api_Ok [(''name'', J_String (cf_server_name cf)), (''version'', J_String ''0.1.0''),
     (''public'', J_Bool (cf_is_public cf))]"

definition route_bug_reports :: "(string \<rightharpoonup> json) option \<Rightarrow> api_response" where
  "route_bug_reports request_body =
     (case request_body of
        None \<Rightarrow> Api_Bad_Request ''JSON body required''
      | Some body \<Rightarrow>
          (case body ''description'' of
             None \<Rightarrow> Api_Bad_Request (''Missing '' @ [CHR 0x27] @ ''description'' @ [CHR 0x27] @ '' field'')
           | Some (J_String description) \<Rightarrow>
               (case (case body ''user_id'' of None \<Rightarrow> Some ''anonymous'' | Some (J_String u) \<Rightarrow> Some u | _ \<Rightarrow> None) of
                  None \<Rightarrow> Api_Threw
                | Some user_id \<Rightarrow>
                    if length description < 10 then Api_Bad_Request ''Description too short (min 10 chars)''
                    else if length description > 2000
                    then Api_Bad_Request ''Description too long (max 2000 chars)''
                    else Api_Created [(''id'', J_Int 1), (''message'', J_String ''Bug report submitted successfully'')])
           | Some _ \<Rightarrow> Api_Threw))"

definition route_stats :: api_response where
  "route_stats = Api_Ok [(''online_users'', J_Int 0), (''channels'', J_Int 0)]"

section \<open>Correctness\<close>

lemma stop_thread_pool_eq:
  "stop_thread_pool caller ts = (if \<exists>t \<in> set ts. caller = Some t then None else Some [])"
  by (induction ts) auto


definition demo_tls_lib :: tls_lib where
  "demo_tls_lib = \<lparr>file_readable = (\<lambda>p. True), chain_error = (\<lambda>p. None), key_error = (\<lambda>p. None)\<rparr>"

definition demo_socket_lib :: socket_lib where
  "demo_socket_lib = \<lparr>acceptor_open = None, set_reuse_address = None, address_error = (\<lambda>h. None),
     acceptor_bind = (\<lambda>h p. None), acceptor_listen = None\<rparr>"

definition demo_process :: server_process where
  "demo_process = run_process 4 (projr (new_process demo_tls_lib demo_socket_lib True True None False Map.empty default_config
     (Inr (empty_user_db, empty_offline, empty_file_db))))"

lemma demo_process_runs:
  "sp_running demo_process" "\<not> shutting_down (sp_server demo_process)" "sp_pool demo_process = [0, 1, 2, 3]"
  by (simp_all add: demo_process_def run_process_def new_process_def build_process_def create_server_context_def
      verify_cert_files_def demo_tls_lib_def new_listener_def demo_socket_lib_def new_server_def run_listener_def set_ping_intervals_def
      set_rate_limits_def set_max_connections_def set_motd_def initial_server_def create_thread_pool_def upt_rec Let_def)


text \<open>
  The admin commands for shutdown and restart do not shut the server down: they post the shutdown to the
  pool, whose thread then waits for itself; the exception that \<open>join\<close> throws leaves that thread, which
  terminates the program.
\<close>

theorem admin_shutdown_aborts:
  assumes "sp_running sp" "t \<in> set (sp_pool sp)" "command = ''shutdown'' \<or> command = ''restart''"
  shows "fst (snd (handle_admin_command w r started command ps (sp_server sp))) \<and>
    shutdown_process (Some t) sp = None"
  using assms by (auto simp: handle_admin_command_def shutdown_process_def stop_thread_pool_eq Let_def)

theorem admin_shutdown_aborts_witness:
  "shutdown_process (Some 0) demo_process = None"
  using admin_shutdown_aborts [of demo_process 0 "''shutdown''"] demo_process_runs by auto

text \<open>
  A server that is built talks TLS 1.3 and nothing older, with the certificate and key of its
  configuration, which could be read and loaded; when one of them cannot, there is no server.
\<close>

theorem server_speaks_tls13:
  assumes "new_process L N has_tui sodium keypair writable fs cf db = Inr sp"
  shows "(\<forall>v. negotiable (sp_tls (run_process n sp)) v \<longleftrightarrow> v = TLSv1_3) \<and>
    tc_certificate (sp_tls sp) = cf_tls_cert_file cf \<and> tc_private_key (sp_tls sp) = cf_tls_key_file cf \<and>
    file_readable L (cf_tls_cert_file cf) \<and> file_readable L (cf_tls_key_file cf) \<and>
    chain_error L (cf_tls_cert_file cf) = None \<and> key_error L (cf_tls_key_file cf) = None"
proof -
  obtain udb odb fdb tls where tls: "create_server_context L (cf_tls_cert_file cf) (cf_tls_key_file cf) = Inr tls"
    and sp: "sp = build_process has_tui tls keypair writable fs cf udb odb fdb"
    using assms by (auto simp: new_process_def split: if_splits sum.splits option.splits)
  have "tc_certificate tls = cf_tls_cert_file cf \<and> tc_private_key tls = cf_tls_key_file cf"
    using tls by (auto simp: create_server_context_def split: option.splits)
  moreover have "sp_tls (run_process n sp) = tls" by (simp add: run_process_def sp build_process_def)
  ultimately show ?thesis using created_context [OF tls] by (simp add: sp build_process_def)
qed

theorem server_speaks_tls13_witness:
  "\<not> negotiable (sp_tls (run_process 4 (build_process True \<lparr>tc_disabled = [SSLv2, SSLv3, TLSv1_0, TLSv1_1, TLSv1_2],
     tc_min_version = TLSv1_3, tc_certificate = [], tc_private_key = [],
     tc_ciphersuites = [''TLS_AES_256_GCM_SHA384'', ''TLS_CHACHA20_POLY1305_SHA256'', ''TLS_AES_128_GCM_SHA256'']\<rparr>
     None False Map.empty default_config empty_user_db empty_offline empty_file_db))) TLSv1_2"
  using server_speaks_tls13 [of demo_tls_lib demo_socket_lib True True None False Map.empty default_config
    "Inr (empty_user_db, empty_offline, empty_file_db)"]
  by (simp add: new_process_def create_server_context_def verify_cert_files_def demo_tls_lib_def new_listener_def demo_socket_lib_def default_config_def)

text \<open>
  A bug report is accepted exactly when it has a description of 10 to 2000 characters and, if it names a
  user, a user name that is a string.
\<close>

theorem bug_report_accepted_iff:
  "(\<exists>fields. route_bug_reports body = Api_Created fields) \<longleftrightarrow>
    (\<exists>b d. body = Some b \<and> b ''description'' = Some (J_String d) \<and> 10 \<le> length d \<and> length d \<le> 2000 \<and>
       b ''user_id'' \<in> {None} \<union> Some ` range J_String)"
  by (auto simp: route_bug_reports_def split: option.splits json.splits)

end
