(* ===== verification/Config_Loader.thy ===== *)
theory Config_Loader
  imports Server_Config Directory_Client
begin

text \<open>
  \<open>ConfigLoader\<close> of \<open>src/config.cpp\<close> and the command line of \<open>src/main.cpp\<close>: from the program's arguments
  and the configuration file to a validated configuration.  The TOML library is a parameter: a record of
  the operations the code calls, on the library's own values.
\<close>

section \<open>The library\<close>

text \<open>
  \<open>toml::find<T>\<close>: the value under the key, \<open>std::out_of_range\<close> when there is none, \<open>toml::type_error\<close> (with
  its message) when it has another type.  Exceptions that are no \<open>std::runtime_error\<close> are \<open>Other_Exception\<close>.
\<close>

datatype 'a found = Got 'a | Absent | Ill_Typed string

datatype thrown = Runtime_Error string | Other_Exception

record 'v toml_lib =
  tl_parse :: "string option \<Rightarrow> thrown + 'v"
  tl_contains :: "'v \<Rightarrow> string \<Rightarrow> bool option"
  tl_at :: "'v \<Rightarrow> string \<Rightarrow> 'v"
  tl_find_string :: "'v \<Rightarrow> string \<Rightarrow> string found"
  tl_find_int64 :: "'v \<Rightarrow> string \<Rightarrow> 64 word found"
  tl_find_int :: "'v \<Rightarrow> string \<Rightarrow> int found"
  tl_find_bool :: "'v \<Rightarrow> string \<Rightarrow> bool found"
  tl_is_array :: "'v \<Rightarrow> bool"
  tl_as_array :: "'v \<Rightarrow> 'v list"
  tl_is_string :: "'v \<Rightarrow> bool"
  tl_as_string :: "'v \<Rightarrow> string option"

section \<open>Loading\<close>

fun and_then :: "'e + 'a \<Rightarrow> ('a \<Rightarrow> 'e + 'b) \<Rightarrow> 'e + 'b" where
  "and_then (Inl e) f = Inl e"
| "and_then (Inr x) f = f x"

fun get_required :: "string \<Rightarrow> 'a found \<Rightarrow> thrown + 'a" where
  "get_required key (Got x) = Inr x"
| "get_required key Absent = Inl (Runtime_Error (''Missing required config field: '' @ key))"
| "get_required key (Ill_Typed what) =
     Inl (Runtime_Error (''Invalid type for config field '' @ key @ '': '' @ what))"

fun get_optional :: "'a \<Rightarrow> 'a found \<Rightarrow> 'a" where
  "get_optional d (Got x) = x"
| "get_optional d Absent = d"
| "get_optional d (Ill_Typed what) = d"

definition load_server :: "'v toml_lib \<Rightarrow> 'v \<Rightarrow> server_config \<Rightarrow> thrown + server_config" where
  "load_server L v cf =
     and_then (get_required ''host'' (tl_find_string L v ''host'')) (\<lambda>host.
     and_then (get_required ''port'' (tl_find_int64 L v ''port'')) (\<lambda>port.
       Inr (cf\<lparr>cf_host := host, cf_port := ucast port,
               cf_log_level := get_optional ''info'' (tl_find_string L v ''log_level''),
               cf_max_connections := get_optional 100 (tl_find_int L v ''max_connections''),
               cf_is_public := get_optional False (tl_find_bool L v ''public'')\<rparr>)))"

definition load_tls :: "'v toml_lib \<Rightarrow> 'v \<Rightarrow> server_config \<Rightarrow> thrown + server_config" where
  "load_tls L v cf =
     and_then (get_required ''cert_file'' (tl_find_string L v ''cert_file'')) (\<lambda>cert.
     and_then (get_required ''key_file'' (tl_find_string L v ''key_file'')) (\<lambda>key.
       Inr (cf\<lparr>cf_tls_cert_file := cert, cf_tls_key_file := key\<rparr>)))"

definition load_database :: "'v toml_lib \<Rightarrow> 'v \<Rightarrow> server_config \<Rightarrow> thrown + server_config" where
  "load_database L v cf = Inr (cf\<lparr>cf_db_path := get_optional ''./ircord.db'' (tl_find_string L v ''path'')\<rparr>)"

definition load_limits :: "'v toml_lib \<Rightarrow> 'v \<Rightarrow> server_config \<Rightarrow> thrown + server_config" where
  "load_limits L v cf = Inr (cf\<lparr>
     cf_max_message_bytes := unat (get_optional 65536 (tl_find_int64 L v ''max_message_bytes'')),
     cf_ping_interval_sec := get_optional 30 (tl_find_int L v ''ping_interval_sec''),
     cf_ping_timeout_sec := get_optional 60 (tl_find_int L v ''ping_timeout_sec''),
     cf_msg_rate_per_sec := get_optional 20 (tl_find_int L v ''msg_rate_per_sec''),
     cf_conn_rate_per_min := get_optional 10 (tl_find_int L v ''conn_rate_per_min''),
     cf_commands_per_min := get_optional 30 (tl_find_int L v ''commands_per_min''),
     cf_joins_per_min := get_optional 5 (tl_find_int L v ''joins_per_min''),
     cf_abuse_threshold := get_optional 5 (tl_find_int L v ''abuse_threshold''),
     cf_abuse_window_min := get_optional 10 (tl_find_int L v ''abuse_window_min''),
     cf_ban_duration_min := get_optional 30 (tl_find_int L v ''ban_duration_min'')\<rparr>)"

definition load_security :: "'v toml_lib \<Rightarrow> 'v \<Rightarrow> server_config \<Rightarrow> thrown + server_config" where
  "load_security L v cf =
     Inr (cf\<lparr>cf_file_encryption_key := get_optional [] (tl_find_string L v ''file_encryption_key'')\<rparr>)"

definition load_antivirus :: "'v toml_lib \<Rightarrow> 'v \<Rightarrow> server_config \<Rightarrow> thrown + server_config" where
  "load_antivirus L v cf = Inr (cf\<lparr>
     cf_clamav_socket := get_optional [] (tl_find_string L v ''clamav_socket''),
     cf_clamav_host := get_optional ''127.0.0.1'' (tl_find_string L v ''clamav_host''),
     cf_clamav_port := ucast (get_optional 0 (tl_find_int64 L v ''clamav_port''))\<rparr>)"

text \<open>The lines of the message of the day; a line that is no string is an exception.\<close>

fun motd_lines :: "'v toml_lib \<Rightarrow> nat \<Rightarrow> string \<Rightarrow> 'v list \<Rightarrow> thrown + string" where
  "motd_lines L i acc [] = Inr acc"
| "motd_lines L i acc (v # vs) =
     (case tl_as_string L v of
        None \<Rightarrow> Inl Other_Exception
      | Some s \<Rightarrow> motd_lines L (Suc i) (acc @ (if i > 0 then [CHR 0x0A] else []) @ s) vs)"

definition load_motd :: "'v toml_lib \<Rightarrow> 'v \<Rightarrow> server_config \<Rightarrow> thrown + server_config" where
  "load_motd L v cf =
     (if tl_is_array L v
      then and_then (motd_lines L 0 [] (tl_as_array L v)) (\<lambda>text. Inr (cf\<lparr>cf_motd := text\<rparr>))
      else if tl_is_string L v
      then (case tl_as_string L v of None \<Rightarrow> Inl Other_Exception | Some s \<Rightarrow> Inr (cf\<lparr>cf_motd := s\<rparr>))
      else Inr cf)"

definition load_directory :: "'v toml_lib \<Rightarrow> 'v \<Rightarrow> server_config \<Rightarrow> thrown + server_config" where
  "load_directory L v cf = Inr (cf\<lparr>
     cf_directory_enabled := get_optional False (tl_find_bool L v ''enabled''),
     cf_directory_url := get_optional ''https://directory.ircord.dev'' (tl_find_string L v ''url''),
     cf_directory_ping_interval_sec := get_optional 300 (tl_find_int L v ''ping_interval_sec''),
     cf_server_name := get_optional [] (tl_find_string L v ''server_name''),
     cf_server_description := get_optional [] (tl_find_string L v ''description'')\<rparr>)"

text \<open>The strings of an array under a key, if it is there; \<open>push_back\<close> onto what the field has.\<close>

fun string_elements :: "'v toml_lib \<Rightarrow> 'v list \<Rightarrow> thrown + string list" where
  "string_elements L [] = Inr []"
| "string_elements L (v # vs) =
     (if tl_is_string L v
      then (case tl_as_string L v of
              None \<Rightarrow> Inl Other_Exception
            | Some s \<Rightarrow> and_then (string_elements L vs) (\<lambda>ss. Inr (s # ss)))
      else string_elements L vs)"

definition string_list :: "'v toml_lib \<Rightarrow> 'v \<Rightarrow> string \<Rightarrow> thrown + string list" where
  "string_list L v key =
     (case tl_contains L v key of
        None \<Rightarrow> Inl Other_Exception
      | Some False \<Rightarrow> Inr []
      | Some True \<Rightarrow>
          let xs = tl_at L v key
          in if tl_is_array L xs then string_elements L (tl_as_array L xs) else Inr [])"

definition load_http_api :: "'v toml_lib \<Rightarrow> 'v \<Rightarrow> server_config \<Rightarrow> thrown + server_config" where
  "load_http_api L v cf =
     and_then (string_list L v ''api_keys'') (\<lambda>keys.
       Inr (cf\<lparr>
         cf_http_api_enabled := get_optional False (tl_find_bool L v ''enabled''),
         cf_http_api_port := ucast (get_optional 8080 (tl_find_int64 L v ''port'')),
         cf_http_api_bind := get_optional ''127.0.0.1'' (tl_find_string L v ''bind_address''),
         cf_http_api_cors := get_optional True (tl_find_bool L v ''cors_enabled''),
         cf_http_api_rate_limit := get_optional True (tl_find_bool L v ''rate_limit_enabled''),
         cf_http_api_rate_limit_requests := get_optional 60 (tl_find_int L v ''rate_limit_requests''),
         cf_http_api_keys := cf_http_api_keys cf @ keys\<rparr>))"

definition load_admin :: "'v toml_lib \<Rightarrow> 'v \<Rightarrow> server_config \<Rightarrow> thrown + server_config" where
  "load_admin L v cf =
     and_then (string_list L v ''auto_join_channels'') (\<lambda>join.
     and_then (string_list L v ''additional_reserved'') (\<lambda>patterns.
       Inr (cf\<lparr>
         cf_admin_enabled := get_optional True (tl_find_bool L v ''enabled''),
         cf_admin_key_file := get_optional ''./keys/admin.ed25519'' (tl_find_string L v ''key_file''),
         cf_admin_tui_socket := get_optional ''/run/ircord/admin.sock'' (tl_find_string L v ''tui_socket''),
         cf_admin_auto_join := cf_admin_auto_join cf @ join,
         cf_admin_additional_reserved := cf_admin_additional_reserved cf @ patterns\<rparr>)))"

text \<open>\<open>if (data.contains(name))\<close>, with the error of a section that is required.\<close>

definition section_of ::
  "'v toml_lib \<Rightarrow> 'v \<Rightarrow> string \<Rightarrow> thrown + server_config \<Rightarrow>
   ('v \<Rightarrow> server_config \<Rightarrow> thrown + server_config) \<Rightarrow> server_config \<Rightarrow> thrown + server_config"
where
  "section_of L data name missing f cf =
     (case tl_contains L data name of
        None \<Rightarrow> Inl Other_Exception
      | Some True \<Rightarrow> f (tl_at L data name) cf
      | Some False \<Rightarrow> missing)"

definition optional_section ::
  "'v toml_lib \<Rightarrow> 'v \<Rightarrow> string \<Rightarrow> ('v \<Rightarrow> server_config \<Rightarrow> thrown + server_config) \<Rightarrow>
   server_config \<Rightarrow> thrown + server_config"
where
  "optional_section L data name f cf = section_of L data name (Inr cf) f cf"

definition load_data :: "'v toml_lib \<Rightarrow> 'v \<Rightarrow> thrown + server_config" where
  "load_data L data =
     and_then (section_of L data ''server''
       (Inl (Runtime_Error ''Missing required [server] section in config'')) (load_server L) default_config) (\<lambda>cf.
     and_then (section_of L data ''tls''
       (Inl (Runtime_Error ''Missing required [tls] section in config'')) (load_tls L) cf) (\<lambda>cf.
     and_then (optional_section L data ''database'' (load_database L) cf) (\<lambda>cf.
     and_then (optional_section L data ''limits'' (load_limits L) cf) (\<lambda>cf.
     and_then (optional_section L data ''security'' (load_security L) cf) (\<lambda>cf.
     and_then (optional_section L data ''antivirus'' (load_antivirus L) cf) (\<lambda>cf.
     and_then (optional_section L data ''motd'' (load_motd L) cf) (\<lambda>cf.
     and_then (optional_section L data ''directory'' (load_directory L) cf) (\<lambda>cf.
     and_then (optional_section L data ''http_api'' (load_http_api L) cf) (\<lambda>cf.
     optional_section L data ''admin'' (load_admin L) cf)))))))))"

section \<open>The file\<close>

text \<open>The configuration file that is written when there is none.\<close>

definition server_toml_template :: string where
  "server_toml_template = concat (map (\<lambda>l. l @ [CHR 0x0A])
     [''# IRCord v.0.10.0  -  Server Configuration'',
      [],
      ''[server]'',
      ''# Server bind address (0.0.0.0 = all interfaces)'',
      ''host = '' @ quoted ''0.0.0.0'',
      [],
      ''# Server port (6667 is the historical IRC port)'',
      ''port = 6667'',
      [],
      ''# Log level: debug, info, warn, error'',
      ''log_level = '' @ quoted ''info'',
      [],
      ''# Maximum concurrent connections'',
      ''max_connections = 100'',
      [],
      ''# Message of the Day (optional)'',
      ''# Supports single string or array for multiline:'',
      ''# motd = '' @ quoted ''Welcome to IRCord!'',
      ''# motd = ['' @ quoted ''Welcome to IRCord!'' @ '', '' @ quoted ''Please read the rules.'' @ '']'',
      ''motd = '' @ quoted [],
      [],
      ''[tls]'',
      ''# TLS certificate file (required)'',
      ''# Generate self-signed for testing:'',
      ''#   openssl req -x509 -newkey ed25519 -keyout server.key -out server.crt -days 365 -nodes'',
      ''cert_file = '' @ quoted ''./certs/server.crt'',
      [],
      ''# TLS private key file (required)'',
      ''key_file = '' @ quoted ''./certs/server.key'',
      [],
      ''[database]'',
      ''# SQLite database file path'',
      ''path = '' @ quoted ''./ircord.db'',
      [],
      ''[limits]'',
      ''# Maximum message size in bytes (64 KB default)'',
      ''max_message_bytes = 65536'',
      [],
      ''# Ping interval in seconds (server sends PING)'',
      ''ping_interval_sec = 30'',
      [],
      ''# Ping timeout in seconds (disconnect if no PONG)'',
      ''ping_timeout_sec = 60'',
      [],
      ''# Maximum messages per second per authenticated user (rate limiting)'',
      ''msg_rate_per_sec = 20'',
      [],
      ''# Maximum connection attempts per minute per IP address'',
      ''conn_rate_per_min = 10''])"

text \<open>
  Files are a map from paths to contents; \<open>writable\<close> says whether the new file can be opened for writing.
\<close>

definition create_config_file :: "bool \<Rightarrow> string \<Rightarrow> (string \<rightharpoonup> string) \<Rightarrow> (string \<rightharpoonup> string)" where
  "create_config_file writable filename fs =
     (if fs filename \<noteq> None then fs
      else if writable then fs(filename \<mapsto> server_toml_template) else fs)"

definition load_config ::
  "'v toml_lib \<Rightarrow> bool \<Rightarrow> string \<Rightarrow> (string \<rightharpoonup> string) \<Rightarrow> (thrown + server_config) \<times> (string \<rightharpoonup> string)"
where
  "load_config L writable path fs =
     (let fs = (if fs path = None then create_config_file writable path fs else fs)
      in (and_then (tl_parse L (fs path)) (load_data L), fs))"

definition load_or_default ::
  "'v toml_lib \<Rightarrow> bool \<Rightarrow> string \<Rightarrow> (string \<rightharpoonup> string) \<Rightarrow> (thrown + server_config) \<times> (string \<rightharpoonup> string)"
where
  "load_or_default L writable path fs =
     (case load_config L writable path fs of
        (Inl (Runtime_Error msg), fs) \<Rightarrow>
          (Inr (default_config\<lparr>cf_tls_cert_file := ''./certs/server.crt'', cf_tls_key_file := ''./certs/server.key''\<rparr>), fs)
      | (res, fs) \<Rightarrow> (res, fs))"

section \<open>Correctness\<close>

text \<open>A file that says everything a configuration has.\<close>

definition says_strings :: "'v toml_lib \<Rightarrow> 'v \<Rightarrow> string \<Rightarrow> string list \<Rightarrow> bool" where
  "says_strings L v key ss \<longleftrightarrow> tl_contains L v key = Some True \<and> tl_is_array L (tl_at L v key) \<and>
     list_all (tl_is_string L) (tl_as_array L (tl_at L v key)) \<and>
     map (tl_as_string L) (tl_as_array L (tl_at L v key)) = map Some ss"

definition file_says :: "'v toml_lib \<Rightarrow> 'v \<Rightarrow> server_config \<Rightarrow> bool" where
  "file_says L v cf \<longleftrightarrow>
     (\<forall>n \<in> {''server'', ''tls'', ''database'', ''limits'', ''security'', ''antivirus'', ''motd'', ''directory'',
            ''http_api'', ''admin''}. tl_contains L v n = Some True) \<and>
     (let s = tl_at L v ''server''
      in tl_find_string L s ''host'' = Got (cf_host cf) \<and> tl_find_int64 L s ''port'' = Got (ucast (cf_port cf)) \<and>
         tl_find_string L s ''log_level'' = Got (cf_log_level cf) \<and>
         tl_find_int L s ''max_connections'' = Got (cf_max_connections cf) \<and>
         tl_find_bool L s ''public'' = Got (cf_is_public cf)) \<and>
     (let s = tl_at L v ''tls''
      in tl_find_string L s ''cert_file'' = Got (cf_tls_cert_file cf) \<and>
         tl_find_string L s ''key_file'' = Got (cf_tls_key_file cf)) \<and>
     tl_find_string L (tl_at L v ''database'') ''path'' = Got (cf_db_path cf) \<and>
     cf_max_message_bytes cf < 2 ^ 64 \<and>
     (let s = tl_at L v ''limits''
      in tl_find_int64 L s ''max_message_bytes'' = Got (of_nat (cf_max_message_bytes cf)) \<and>
         tl_find_int L s ''ping_interval_sec'' = Got (cf_ping_interval_sec cf) \<and>
         tl_find_int L s ''ping_timeout_sec'' = Got (cf_ping_timeout_sec cf) \<and>
         tl_find_int L s ''msg_rate_per_sec'' = Got (cf_msg_rate_per_sec cf) \<and>
         tl_find_int L s ''conn_rate_per_min'' = Got (cf_conn_rate_per_min cf) \<and>
         tl_find_int L s ''commands_per_min'' = Got (cf_commands_per_min cf) \<and>
         tl_find_int L s ''joins_per_min'' = Got (cf_joins_per_min cf) \<and>
         tl_find_int L s ''abuse_threshold'' = Got (cf_abuse_threshold cf) \<and>
         tl_find_int L s ''abuse_window_min'' = Got (cf_abuse_window_min cf) \<and>
         tl_find_int L s ''ban_duration_min'' = Got (cf_ban_duration_min cf)) \<and>
     tl_find_string L (tl_at L v ''security'') ''file_encryption_key'' = Got (cf_file_encryption_key cf) \<and>
     (let s = tl_at L v ''antivirus''
      in tl_find_string L s ''clamav_socket'' = Got (cf_clamav_socket cf) \<and>
         tl_find_string L s ''clamav_host'' = Got (cf_clamav_host cf) \<and>
         tl_find_int64 L s ''clamav_port'' = Got (ucast (cf_clamav_port cf))) \<and>
     (let s = tl_at L v ''motd''
      in \<not> tl_is_array L s \<and> tl_is_string L s \<and> tl_as_string L s = Some (cf_motd cf)) \<and>
     (let s = tl_at L v ''directory''
      in tl_find_bool L s ''enabled'' = Got (cf_directory_enabled cf) \<and>
         tl_find_string L s ''url'' = Got (cf_directory_url cf) \<and>
         tl_find_int L s ''ping_interval_sec'' = Got (cf_directory_ping_interval_sec cf) \<and>
         tl_find_string L s ''server_name'' = Got (cf_server_name cf) \<and>
         tl_find_string L s ''description'' = Got (cf_server_description cf)) \<and>
     (let s = tl_at L v ''http_api''
      in tl_find_bool L s ''enabled'' = Got (cf_http_api_enabled cf) \<and>
         tl_find_int64 L s ''port'' = Got (ucast (cf_http_api_port cf)) \<and>
         tl_find_string L s ''bind_address'' = Got (cf_http_api_bind cf) \<and>
         tl_find_bool L s ''cors_enabled'' = Got (cf_http_api_cors cf) \<and>
         tl_find_bool L s ''rate_limit_enabled'' = Got (cf_http_api_rate_limit cf) \<and>
         tl_find_int L s ''rate_limit_requests'' = Got (cf_http_api_rate_limit_requests cf) \<and>
         says_strings L s ''api_keys'' (cf_http_api_keys cf)) \<and>
     (let s = tl_at L v ''admin''
      in tl_find_bool L s ''enabled'' = Got (cf_admin_enabled cf) \<and>
         tl_find_string L s ''key_file'' = Got (cf_admin_key_file cf) \<and>
         tl_find_string L s ''tui_socket'' = Got (cf_admin_tui_socket cf) \<and>
         says_strings L s ''auto_join_channels'' (cf_admin_auto_join cf) \<and>
         says_strings L s ''additional_reserved'' (cf_admin_additional_reserved cf))"

lemma string_elements_all:
  "list_all (tl_is_string L) vs \<Longrightarrow> map (tl_as_string L) vs = map Some ss \<Longrightarrow> string_elements L vs = Inr ss"
  by (induction vs arbitrary: ss) auto

lemma string_list_says: "says_strings L v key ss \<Longrightarrow> string_list L v key = Inr ss"
  by (simp add: string_list_def says_strings_def Let_def string_elements_all)

lemmas load_sections = load_server_def load_tls_def load_database_def load_limits_def load_security_def
  load_antivirus_def load_motd_def load_directory_def load_http_api_def load_admin_def
  section_of_def optional_section_def

lemma ucast_up_down: "ucast (ucast (n :: 16 word) :: 64 word) = n"
  by (simp add: unsigned_ucast_eq take_bit_word_eq_self)

lemma unat_of_nat_64: "n < 2 ^ 64 \<Longrightarrow> unat (of_nat n :: 64 word) = n"
  by (simp add: unat_of_nat take_bit_nat_eq_self)

lemma file_loads:
  assumes "file_says L v cf"
  shows "load_data L v = Inr (cf\<lparr>cf_headless := False\<rparr>)"
proof -
  have "string_list L (tl_at L v ''http_api'') ''api_keys'' = Inr (cf_http_api_keys cf)"
    "string_list L (tl_at L v ''admin'') ''auto_join_channels'' = Inr (cf_admin_auto_join cf)"
    "string_list L (tl_at L v ''admin'') ''additional_reserved'' = Inr (cf_admin_additional_reserved cf)"
    using assms by (simp_all add: file_says_def Let_def string_list_says)
  with assms show ?thesis
    by (cases cf) (simp add: load_data_def load_sections file_says_def Let_def ucast_up_down default_config_def
        unat_of_nat_64)
qed

text \<open>
  C26: A configuration file that says everything is loaded as it says: every key of every section ends up in
  its own field and nowhere else.  (Only \<open>headless\<close> has no key: it is the command line's.)
\<close>

theorem config_read_back:
  assumes "file_says L v cf"
  shows "load_data L v = Inr (cf\<lparr>cf_headless := False\<rparr>)"
  using assms by (rule file_loads)

text \<open>The tree of values as a concrete library: what the documentation of each operation says.\<close>

datatype toml_tree =
    T_String string
  | T_Integer int
  | T_Boolean bool
  | T_Array "toml_tree list"
  | T_Table "(string \<times> toml_tree) list"

definition tree_find :: "(toml_tree \<Rightarrow> 'a option) \<Rightarrow> toml_tree \<Rightarrow> string \<Rightarrow> 'a found" where
  "tree_find get t key =
     (case t of
        T_Table es \<Rightarrow>
          (case map_of es key of
             None \<Rightarrow> Absent
           | Some x \<Rightarrow> (case get x of Some y \<Rightarrow> Got y | None \<Rightarrow> Ill_Typed ''bad_cast''))
      | _ \<Rightarrow> Ill_Typed ''not a table'')"

definition tree_string :: "toml_tree \<Rightarrow> string option" where
  "tree_string t = (case t of T_String s \<Rightarrow> Some s | _ \<Rightarrow> None)"

definition tree_integer :: "toml_tree \<Rightarrow> int option" where
  "tree_integer t = (case t of T_Integer i \<Rightarrow> Some i | _ \<Rightarrow> None)"

definition tree_lib :: "toml_tree \<Rightarrow> toml_tree toml_lib" where
  "tree_lib file =
    \<lparr>tl_parse = (\<lambda>text. case text of None \<Rightarrow> Inl Other_Exception | Some _ \<Rightarrow> Inr file),
     tl_contains = (\<lambda>t k. case t of T_Table es \<Rightarrow> Some (map_of es k \<noteq> None) | _ \<Rightarrow> None),
     tl_at = (\<lambda>t k. case t of T_Table es \<Rightarrow> the (map_of es k) | _ \<Rightarrow> t),
     tl_find_string = tree_find tree_string,
     tl_find_int64 = tree_find (map_option word_of_int \<circ> tree_integer),
     tl_find_int = tree_find tree_integer,
     tl_find_bool = tree_find (\<lambda>t. case t of T_Boolean b \<Rightarrow> Some b | _ \<Rightarrow> None),
     tl_is_array = (\<lambda>t. case t of T_Array _ \<Rightarrow> True | _ \<Rightarrow> False),
     tl_as_array = (\<lambda>t. case t of T_Array ts \<Rightarrow> ts | _ \<Rightarrow> []),
     tl_is_string = (\<lambda>t. tree_string t \<noteq> None),
     tl_as_string = tree_string\<rparr>"

definition full_file :: "server_config \<Rightarrow> toml_tree" where
  "full_file cf = T_Table
    [(''server'', T_Table [(''host'', T_String (cf_host cf)), (''port'', T_Integer (uint (cf_port cf))),
        (''log_level'', T_String (cf_log_level cf)), (''max_connections'', T_Integer (cf_max_connections cf)),
        (''public'', T_Boolean (cf_is_public cf))]),
     (''tls'', T_Table [(''cert_file'', T_String (cf_tls_cert_file cf)), (''key_file'', T_String (cf_tls_key_file cf))]),
     (''database'', T_Table [(''path'', T_String (cf_db_path cf))]),
     (''limits'', T_Table [(''max_message_bytes'', T_Integer (int (cf_max_message_bytes cf))),
        (''ping_interval_sec'', T_Integer (cf_ping_interval_sec cf)),
        (''ping_timeout_sec'', T_Integer (cf_ping_timeout_sec cf)),
        (''msg_rate_per_sec'', T_Integer (cf_msg_rate_per_sec cf)),
        (''conn_rate_per_min'', T_Integer (cf_conn_rate_per_min cf)),
        (''commands_per_min'', T_Integer (cf_commands_per_min cf)),
        (''joins_per_min'', T_Integer (cf_joins_per_min cf)),
        (''abuse_threshold'', T_Integer (cf_abuse_threshold cf)),
        (''abuse_window_min'', T_Integer (cf_abuse_window_min cf)),
        (''ban_duration_min'', T_Integer (cf_ban_duration_min cf))]),
     (''security'', T_Table [(''file_encryption_key'', T_String (cf_file_encryption_key cf))]),
     (''antivirus'', T_Table [(''clamav_socket'', T_String (cf_clamav_socket cf)),
        (''clamav_host'', T_String (cf_clamav_host cf)), (''clamav_port'', T_Integer (uint (cf_clamav_port cf)))]),
     (''motd'', T_String (cf_motd cf)),
     (''directory'', T_Table [(''enabled'', T_Boolean (cf_directory_enabled cf)), (''url'', T_String (cf_directory_url cf)),
        (''ping_interval_sec'', T_Integer (cf_directory_ping_interval_sec cf)),
        (''server_name'', T_String (cf_server_name cf)), (''description'', T_String (cf_server_description cf))]),
     (''http_api'', T_Table [(''enabled'', T_Boolean (cf_http_api_enabled cf)), (''port'', T_Integer (uint (cf_http_api_port cf))),
        (''bind_address'', T_String (cf_http_api_bind cf)), (''cors_enabled'', T_Boolean (cf_http_api_cors cf)),
        (''rate_limit_enabled'', T_Boolean (cf_http_api_rate_limit cf)),
        (''rate_limit_requests'', T_Integer (cf_http_api_rate_limit_requests cf)),
        (''api_keys'', T_Array (map T_String (cf_http_api_keys cf)))]),
     (''admin'', T_Table [(''enabled'', T_Boolean (cf_admin_enabled cf)), (''key_file'', T_String (cf_admin_key_file cf)),
        (''tui_socket'', T_String (cf_admin_tui_socket cf)),
        (''auto_join_channels'', T_Array (map T_String (cf_admin_auto_join cf))),
        (''additional_reserved'', T_Array (map T_String (cf_admin_additional_reserved cf)))])]"

lemma word_of_uint: "(word_of_int (uint (n :: 16 word)) :: 64 word) = ucast n"
  by (rule ucast_eq [symmetric])

lemmas tree_lib_simps = tree_lib_def tree_find_def tree_string_def tree_integer_def

lemma full_file_says: "cf_max_message_bytes cf < 2 ^ 64 \<Longrightarrow> file_says (tree_lib file) (full_file cf) cf"
  by (auto simp: file_says_def full_file_def tree_lib_simps Let_def says_strings_def list_all_iff word_of_uint
      comp_def)

lemma full_file_loads:
  "cf_max_message_bytes cf < 2 ^ 64 \<Longrightarrow> load_data (tree_lib file) (full_file cf) = Inr (cf\<lparr>cf_headless := False\<rparr>)"
  by (rule file_loads) (rule full_file_says)

theorem config_read_back_witness:
  "load_data (tree_lib (full_file default_config)) (full_file default_config) = Inr default_config"
  using config_read_back [OF full_file_says [of default_config "full_file default_config"]]
  by (simp add: default_config_def)

text \<open>A section with no keys.\<close>

definition empty_section :: "'v toml_lib \<Rightarrow> 'v \<Rightarrow> bool" where
  "empty_section L s \<longleftrightarrow> \<not> tl_is_array L s \<and> \<not> tl_is_string L s \<and>
     (\<forall>k. tl_find_string L s k = Absent \<and> tl_find_int64 L s k = Absent \<and> tl_find_int L s k = Absent \<and>
          tl_find_bool L s k = Absent \<and> tl_contains L s k = Some False)"

definition optional_names :: "string list" where
  "optional_names = [''database'', ''limits'', ''security'', ''antivirus'', ''motd'', ''directory'', ''http_api'', ''admin'']"

lemma skip_section:
  assumes "tl_contains L v n = Some False \<or> tl_contains L v n = Some True \<and> f (tl_at L v n) cf = Inr cf"
  shows "optional_section L v n f cf = Inr cf"
  using assms by (auto simp: optional_section_def section_of_def)

text \<open>
  What a file leaves out has its default: a section that is missing and a section without keys are the
  same, and a file with nothing but an address and TLS files gives the defaults of the configuration
  record.
\<close>

theorem missing_means_default:
  assumes names: "tl_contains L v ''server'' = Some True" "tl_contains L v ''tls'' = Some True"
    and missing: "\<forall>n \<in> set optional_names. tl_contains L v n = Some False \<or>
      tl_contains L v n = Some True \<and> empty_section L (tl_at L v n)"
    and keys: "tl_find_string L (tl_at L v ''server'') ''host'' = Got host"
      "tl_find_int64 L (tl_at L v ''server'') ''port'' = Got port"
      "tl_find_string L (tl_at L v ''tls'') ''cert_file'' = Got cert"
      "tl_find_string L (tl_at L v ''tls'') ''key_file'' = Got key"
    and rest: "tl_find_string L (tl_at L v ''server'') ''log_level'' = Absent"
      "tl_find_int L (tl_at L v ''server'') ''max_connections'' = Absent"
      "tl_find_bool L (tl_at L v ''server'') ''public'' = Absent"
  shows "load_data L v = Inr (default_config\<lparr>cf_host := host, cf_port := ucast port,
    cf_tls_cert_file := cert, cf_tls_key_file := key\<rparr>)"
proof -
  define cf where "cf = default_config\<lparr>cf_host := host, cf_port := ucast port,
    cf_tls_cert_file := cert, cf_tls_key_file := key\<rparr>"
  have skipped: "optional_section L v n f cf = Inr cf"
    if "n \<in> set optional_names" "\<And>s. empty_section L s \<Longrightarrow> f s cf = Inr cf" for n f
    using missing that by (intro skip_section) blast
  have req: "load_server L (tl_at L v ''server'') default_config = Inr (default_config\<lparr>cf_host := host, cf_port := ucast port\<rparr>)"
    "load_tls L (tl_at L v ''tls'') (default_config\<lparr>cf_host := host, cf_port := ucast port\<rparr>) = Inr cf"
    by (simp_all add: load_server_def load_tls_def keys rest cf_def default_config_def)
  have empty: "load_database L s cf = Inr cf" "load_limits L s cf = Inr cf" "load_security L s cf = Inr cf"
    "load_antivirus L s cf = Inr cf" "load_motd L s cf = Inr cf" "load_directory L s cf = Inr cf"
    "load_http_api L s cf = Inr cf" "load_admin L s cf = Inr cf" if "empty_section L s" for s
    using that by (simp_all add: load_sections empty_section_def string_list_def cf_def default_config_def)
  have "optional_section L v ''database'' (load_database L) cf = Inr cf"
    "optional_section L v ''limits'' (load_limits L) cf = Inr cf"
    "optional_section L v ''security'' (load_security L) cf = Inr cf"
    "optional_section L v ''antivirus'' (load_antivirus L) cf = Inr cf"
    "optional_section L v ''motd'' (load_motd L) cf = Inr cf"
    "optional_section L v ''directory'' (load_directory L) cf = Inr cf"
    "optional_section L v ''http_api'' (load_http_api L) cf = Inr cf"
    "optional_section L v ''admin'' (load_admin L) cf = Inr cf"
    by (rule skipped, simp add: optional_names_def, erule empty)+
  then show ?thesis by (simp add: load_data_def section_of_def names req cf_def [symmetric])
qed

theorem missing_means_default_witness:
  "load_data (tree_lib (T_Table [])) (T_Table
     [(''server'', T_Table [(''host'', T_String ''::''), (''port'', T_Integer 6697)]),
      (''tls'', T_Table [(''cert_file'', T_String ''c''), (''key_file'', T_String ''k'')]),
      (''limits'', T_Table [])]) =
   Inr (default_config\<lparr>cf_host := ''::'', cf_tls_cert_file := ''c'', cf_tls_key_file := ''k''\<rparr>)"
  (is "load_data ?L ?v = _")
proof -
  have "load_data ?L ?v = Inr (default_config\<lparr>cf_host := ''::'', cf_port := ucast (6697 :: 64 word),
      cf_tls_cert_file := ''c'', cf_tls_key_file := ''k''\<rparr>)"
    by (rule missing_means_default) (simp_all add: tree_lib_simps optional_names_def empty_section_def)
  then show ?thesis by (simp add: default_config_def)
qed

text \<open>Whether the message of the day can be read.\<close>

definition motd_readable :: "'v toml_lib \<Rightarrow> 'v \<Rightarrow> bool" where
  "motd_readable L s \<longleftrightarrow>
     (if tl_is_array L s then \<forall>x \<in> set (tl_as_array L s). tl_as_string L x \<noteq> None
      else tl_is_string L s \<longrightarrow> tl_as_string L s \<noteq> None)"

lemma motd_lines_ok: "(\<exists>t. motd_lines L i acc vs = Inr t) \<longleftrightarrow> (\<forall>x \<in> set vs. tl_as_string L x \<noteq> None)"
  by (induction vs arbitrary: i acc) (auto split: option.split)

lemma and_then_ok: "(\<exists>y. and_then r f = Inr y) \<longleftrightarrow> (\<exists>x. r = Inr x \<and> (\<exists>y. f x = Inr y))"
  by (cases r) auto

lemma load_motd_ok: "(\<exists>y. load_motd L s cf = Inr y) \<longleftrightarrow> motd_readable L s"
  using motd_lines_ok [of L 0 "[]" "tl_as_array L s"]
  by (auto simp: load_motd_def motd_readable_def and_then_ok split: option.split)

lemma and_then_const:
  assumes "\<And>x. (\<exists>y. f x = Inr y) = M"
  shows "(\<exists>y. and_then r f = Inr y) = ((\<exists>x. r = Inr x) \<and> M)"
  using assms by (cases r) auto

lemma string_elements_ok:
  "\<forall>x. tl_is_string L x \<longrightarrow> tl_as_string L x \<noteq> None \<Longrightarrow> \<exists>ss. string_elements L vs = Inr ss"
  by (induction vs) (auto split: option.split)

lemma string_list_ok:
  assumes "tl_contains L s k \<noteq> None" "\<forall>x. tl_is_string L x \<longrightarrow> tl_as_string L x \<noteq> None"
  shows "\<exists>ss. string_list L s k = Inr ss"
  using assms string_elements_ok [OF assms(2)]
  by (auto simp: string_list_def Let_def split: option.split bool.split)

lemma optional_section_ok:
  assumes "tl_contains L v n \<noteq> None"
  shows "(\<exists>y. optional_section L v n f cf = Inr y) =
    (tl_contains L v n = Some True \<longrightarrow> (\<exists>y. f (tl_at L v n) cf = Inr y))"
  using assms by (auto simp: optional_section_def section_of_def split: option.split bool.split)

definition got :: "'a found \<Rightarrow> bool" where
  "got r \<longleftrightarrow> (\<exists>x. r = Got x)"

lemma get_required_ok: "(\<exists>x. get_required k r = Inr x) = got r"
  by (cases r) (simp_all add: got_def)

text \<open>
  C27: When a configuration file is refused: exactly when a required section or key is missing or has the
  wrong type, or the message of the day is an array with something that is no string in it.  Every other
  key may have any type or be absent.  (For a file whose sections are tables.)
\<close>

theorem config_refused_iff:
  assumes tables: "\<forall>n. tl_contains L v n \<noteq> None"
      "\<forall>k. tl_contains L (tl_at L v ''http_api'') k \<noteq> None \<and> tl_contains L (tl_at L v ''admin'') k \<noteq> None"
    and str: "\<forall>x. tl_is_string L x \<longrightarrow> tl_as_string L x \<noteq> None"
  shows "(\<exists>cf. load_data L v = Inr cf) \<longleftrightarrow>
    tl_contains L v ''server'' = Some True \<and> got (tl_find_string L (tl_at L v ''server'') ''host'') \<and>
    got (tl_find_int64 L (tl_at L v ''server'') ''port'') \<and>
    tl_contains L v ''tls'' = Some True \<and> got (tl_find_string L (tl_at L v ''tls'') ''cert_file'') \<and>
    got (tl_find_string L (tl_at L v ''tls'') ''key_file'') \<and>
    (tl_contains L v ''motd'' = Some True \<longrightarrow> motd_readable L (tl_at L v ''motd''))"
proof -
  let ?M = "tl_contains L v ''motd'' = Some True \<longrightarrow> motd_readable L (tl_at L v ''motd'')"
  have opt: "(\<exists>y. optional_section L v n f cf = Inr y) = True" if "\<exists>y. f (tl_at L v n) cf = Inr y" for n f cf
    using that tables by (simp add: optional_section_ok)
  have lists: "\<exists>ss. string_list L (tl_at L v n) k = Inr ss" if "n = ''http_api'' \<or> n = ''admin''" for n k
    using that tables(2) str by (auto intro: string_list_ok)
  have admin: "\<And>cf. (\<exists>y. optional_section L v ''admin'' (load_admin L) cf = Inr y) = True"
    by (rule opt) (use lists [of "''admin''"] in \<open>auto simp: load_admin_def and_then_ok\<close>)
  have http: "\<And>cf. (\<exists>y. and_then (optional_section L v ''http_api'' (load_http_api L) cf)
      (optional_section L v ''admin'' (load_admin L)) = Inr y) = True"
    unfolding and_then_const [of "optional_section L v ''admin'' (load_admin L)" True, OF admin]
    by (subst opt) (use lists [of "''http_api''"] in \<open>auto simp: load_http_api_def and_then_ok\<close>)
  define rest where "rest cf = and_then (optional_section L v ''directory'' (load_directory L) cf) (\<lambda>cf.
     and_then (optional_section L v ''http_api'' (load_http_api L) cf) (optional_section L v ''admin'' (load_admin L)))" for cf
  have rest: "\<And>cf. (\<exists>y. rest cf = Inr y) = True"
    unfolding rest_def by (subst and_then_const [OF http]) (subst opt, simp_all add: load_directory_def)
  have "\<And>cf. (\<exists>y. optional_section L v ''motd'' (load_motd L) cf = Inr y) = ?M"
    using tables by (simp add: optional_section_ok load_motd_ok)
  then have motd: "\<And>cf. (\<exists>y. and_then (optional_section L v ''motd'' (load_motd L) cf) rest = Inr y) = ?M"
    using and_then_const [of rest True, OF rest] by simp
  define tail where "tail cf =
     and_then (optional_section L v ''database'' (load_database L) cf) (\<lambda>cf.
     and_then (optional_section L v ''limits'' (load_limits L) cf) (\<lambda>cf.
     and_then (optional_section L v ''security'' (load_security L) cf) (\<lambda>cf.
     and_then (optional_section L v ''antivirus'' (load_antivirus L) cf) (\<lambda>cf.
     and_then (optional_section L v ''motd'' (load_motd L) cf) rest))))" for cf
  have "\<And>cf. (\<exists>y. optional_section L v ''database'' (load_database L) cf = Inr y) = True"
    "\<And>cf. (\<exists>y. optional_section L v ''limits'' (load_limits L) cf = Inr y) = True"
    "\<And>cf. (\<exists>y. optional_section L v ''security'' (load_security L) cf = Inr y) = True"
    "\<And>cf. (\<exists>y. optional_section L v ''antivirus'' (load_antivirus L) cf = Inr y) = True"
    by (rule opt, simp add: load_sections)+
  note tot = this
  have tail: "\<And>cf. (\<exists>y. tail cf = Inr y) = ?M"
    unfolding tail_def
    by (simp only: and_then_const [where M = ?M] motd tot simp_thms)
  have tls: "\<And>cf. (\<exists>y. and_then (section_of L v ''tls''
       (Inl (Runtime_Error ''Missing required [tls] section in config'')) (load_tls L) cf) tail = Inr y) =
      (tl_contains L v ''tls'' = Some True \<and> got (tl_find_string L (tl_at L v ''tls'') ''cert_file'') \<and>
       got (tl_find_string L (tl_at L v ''tls'') ''key_file'') \<and> ?M)"
    using tables unfolding and_then_const [of tail, OF tail]
    by (auto simp: section_of_def load_tls_def and_then_ok get_required_ok split: option.splits bool.splits)
  show ?thesis
    unfolding load_data_def rest_def [symmetric] tail_def [symmetric] and_then_const [OF tls]
    using tables
    by (auto simp: section_of_def load_server_def and_then_ok get_required_ok split: option.splits bool.splits)
qed

theorem config_refused_iff_witness:
  "\<exists>cf. load_data (tree_lib (T_Table [])) (full_file default_config) = Inr cf"
proof -
  let ?L = "tree_lib (T_Table [])" and ?v = "full_file default_config"
  have "(\<forall>n. tl_contains ?L ?v n \<noteq> None) \<and>
      (\<forall>k. tl_contains ?L (tl_at ?L ?v ''http_api'') k \<noteq> None \<and> tl_contains ?L (tl_at ?L ?v ''admin'') k \<noteq> None) \<and>
      (\<forall>x. tl_is_string ?L x \<longrightarrow> tl_as_string ?L x \<noteq> None)"
    by (simp add: tree_lib_simps full_file_def)
  moreover have "motd_readable ?L (tl_at ?L ?v ''motd'')"
    by (simp add: motd_readable_def tree_lib_simps full_file_def)
  ultimately show ?thesis
    using config_refused_iff [of ?L ?v] by (simp add: got_def tree_lib_simps full_file_def)
qed

text \<open>A port outside its 16 bits is cut down without a word, here to 6697.\<close>

lemma port_wraps:
  assumes "tl_find_string L v ''host'' = Got h" "tl_find_int64 L v ''port'' = Got 72233"
  shows "\<exists>cf'. load_server L v cf = Inr cf' \<and> cf_port cf' = 6697"
  by (simp add: load_server_def assms)

end
