(* ===== verification/Command_Line.thy ===== *)
theory Command_Line
  imports Config_Loader
begin

text \<open>
  The program's entry, \<open>src/main.cpp\<close>, and \<open>src/utils/string_utils.hpp\<close>: the arguments, the configuration
  they select, and whether the server is built.  What is printed is a list of texts.
\<close>

section \<open>Texts\<close>

text \<open>
  \<open>boost::replace_all\<close> is the parameter \<open>replace_all\<close>; \<open>vars\<close> is the map in the order it is iterated in.
\<close>

definition format_template ::
  "(string \<Rightarrow> string \<Rightarrow> string \<Rightarrow> string) \<Rightarrow> string \<Rightarrow> (string \<times> string) list \<Rightarrow> string"
where
  "format_template replace_all tmpl vars =
     foldl (\<lambda>t (key, value). replace_all t (''${'' @ key @ ''}'') value) tmpl vars"

text \<open>The map \<open>template_strings\<close>, with the program's name under \<open>args\<close> while the usage is printed.\<close>

definition template_strings :: "string \<Rightarrow> (string \<times> string) list" where
  "template_strings prog =
     [(''program_name'', ''IRCord-Server''), (''program_description'', ''End-to-end encrypted chat & voice server''),
      (''version_major'', ''0''), (''version_minor'', ''01.0''), (''git_url'', ''https://github.com/hittoSepi/ircord''),
      (''config_path'', ''./server.toml''), (''args'', prog)]"

definition usage_string :: string where
  "usage_string = concat (map (\<lambda>l. l @ [CHR 0x0A])
     [[],
      ''${program_description} v.${version_major}.${version_minor}'',
      [],
      ''Usage: '',
      ''${args} [options]'',
      [],
      ''Options:'',
      CHR 0x09 # ''--config <path>   Path to configuration file (default: ./config/server.toml)'',
      CHR 0x09 # ''--headless        Run without TUI (daemon mode)'',
      CHR 0x09 # ''--daemon          Alias for --headless'',
      CHR 0x09 # ''--help, -h        Show this help message'',
      CHR 0x09 # ''--version, -V     Show version information'',
      [],
      ''Example:'',
      ''${args} --config ./server.toml'',
      []]) @ [CHR 0x09]"

text \<open>What the program writes: the usage for its name, its version, a line of an error.\<close>

datatype console = Usage string | Version | Complaint string

text \<open>
  The text of each.  \<open>order\<close> is the order in which the map is iterated; version, commit and time of the build come
  from a header that the build generates.
\<close>

definition print_usage ::
  "(string \<Rightarrow> string \<Rightarrow> string \<Rightarrow> string) \<Rightarrow> ((string \<times> string) list \<Rightarrow> (string \<times> string) list) \<Rightarrow> string \<Rightarrow> string" where
  "print_usage replace_all order prog = format_template replace_all usage_string (order (template_strings prog))"

definition print_version :: "string \<Rightarrow> string \<Rightarrow> string \<Rightarrow> string" where
  "print_version version commit built = concat (map (\<lambda>l. l @ [CHR 0x0A])
     [''IRCord-Server v'' @ version, ''Git: '' @ commit, ''Built: '' @ built, ''https://github.com/hittoSepi/ircord''])"

definition console_text ::
  "(string \<Rightarrow> string \<Rightarrow> string \<Rightarrow> string) \<Rightarrow> ((string \<times> string) list \<Rightarrow> (string \<times> string) list) \<Rightarrow>
   string \<times> string \<times> string \<Rightarrow> console \<Rightarrow> string"
where
  "console_text replace_all order build c =
     (case c of Usage prog \<Rightarrow> print_usage replace_all order prog
      | Version \<Rightarrow> print_version (fst build) (fst (snd build)) (snd (snd build))
      | Complaint msg \<Rightarrow> msg @ [CHR 0x0A])"

section \<open>Arguments\<close>

text \<open>The environment variable \<open>IRCORD_CONFIG\<close>, if it is set.\<close>

definition default_config_path :: string where
  "default_config_path = ''./server.toml''"

definition get_default_config_path :: "string option \<Rightarrow> string" where
  "get_default_config_path env =
     (case env of Some p \<Rightarrow> if p \<noteq> [] then p else default_config_path | None \<Rightarrow> default_config_path)"

definition asks_help :: "string \<Rightarrow> bool" where
  "asks_help arg \<longleftrightarrow> arg = ''--help'' \<or> arg = ''-h''"

definition asks_version :: "string \<Rightarrow> bool" where
  "asks_version arg \<longleftrightarrow> arg = ''--version'' \<or> arg = ''-V''"

definition asks_headless :: "string \<Rightarrow> bool" where
  "asks_headless arg \<longleftrightarrow> arg = ''--headless'' \<or> arg = ''--daemon''"

definition asks_config :: "string \<Rightarrow> bool" where
  "asks_config arg \<longleftrightarrow> arg = ''--config''"

text \<open>
  \<open>parse_command_line\<close> over the arguments after the program's name: the result (-1 is going on), what is
  printed, the path and the flag.
\<close>

fun parse_command_line ::
  "string \<Rightarrow> string list \<Rightarrow> string \<Rightarrow> bool \<Rightarrow> int \<times> console list \<times> string \<times> bool"
where
  "parse_command_line prog [] path headless = (-1, [], path, headless)"
| "parse_command_line prog (arg # args) path headless =
     (if asks_help arg then (0, [Usage prog], path, headless)
      else if asks_version arg then (0, [Version], path, headless)
      else if asks_headless arg then parse_command_line prog args path True
      else if asks_config arg
      then (case args of
              p # args \<Rightarrow> parse_command_line prog args p headless
            | [] \<Rightarrow> (1, [Complaint ''Error: --config requires a path argument'', Usage prog], path, headless))
      else (1, [Complaint (''Error: Unknown argument: '' @ arg), Usage prog], path, headless))"

section \<open>The program\<close>

text \<open>How \<open>main\<close> gets on: an exit code, an exception that leaves it, or a server with a configuration.\<close>

datatype program_run = Exits int | Throws thrown | Serves server_config

definition run_program ::
  "'v toml_lib \<Rightarrow> bool \<Rightarrow> string option \<Rightarrow> string \<Rightarrow> string list \<Rightarrow> (string \<rightharpoonup> string) \<Rightarrow> program_run"
where
  "run_program L writable env prog args fs =
     (case parse_command_line prog args (get_default_config_path env) False of
        (code, out, path, headless) \<Rightarrow>
          if code \<noteq> -1 then Exits code
          else case fst (load_config L writable path fs) of
                 Inl e \<Rightarrow> Throws e
               | Inr cf \<Rightarrow>
                   let cf = (if headless then cf\<lparr>cf_headless := True\<rparr> else cf)
                   in case validate_config cf of
                        Some msg \<Rightarrow> Throws (Runtime_Error msg)
                      | None \<Rightarrow> Serves cf)"

section \<open>Correctness\<close>

lemmas asks_defs = asks_help_def asks_version_def asks_headless_def asks_config_def

lemma option_kinds:
  "asks_headless arg \<Longrightarrow> \<not> asks_help arg" "asks_headless arg \<Longrightarrow> \<not> asks_version arg"
  "asks_config arg \<Longrightarrow> \<not> asks_help arg" "asks_config arg \<Longrightarrow> \<not> asks_version arg"
  by (auto simp: asks_defs)

text \<open>The options as the usage text lists them.\<close>

datatype cli_option = Headless bool | Config_Path string

fun written :: "cli_option \<Rightarrow> string list" where
  "written (Headless daemon) = [if daemon then ''--daemon'' else ''--headless'']"
| "written (Config_Path p) = [''--config'', p]"

fun chosen :: "string \<times> bool \<Rightarrow> cli_option \<Rightarrow> string \<times> bool" where
  "chosen (path, headless) (Headless daemon) = (path, True)"
| "chosen (path, headless) (Config_Path p) = (p, headless)"


text \<open>No key of the file sets \<open>headless\<close>.\<close>

definition keeps_headless :: "(server_config \<Rightarrow> thrown + server_config) \<Rightarrow> bool" where
  "keeps_headless f \<longleftrightarrow> (\<forall>cf cf'. f cf = Inr cf' \<longrightarrow> cf_headless cf' = cf_headless cf)"

lemma and_then_Inr: "and_then r f = Inr y \<longleftrightarrow> (\<exists>x. r = Inr x \<and> f x = Inr y)"
  by (cases r) auto

lemma keeps_then: "keeps_headless f \<Longrightarrow> keeps_headless g \<Longrightarrow> keeps_headless (\<lambda>cf. and_then (f cf) g)"
  by (auto simp: keeps_headless_def and_then_Inr)

lemma keeps_section:
  "(\<And>s. keeps_headless (f s)) \<Longrightarrow> keeps_headless (optional_section L v n f)"
  "(\<And>s. keeps_headless (f s)) \<Longrightarrow> keeps_headless (section_of L v n (Inl e) f)"
  by (auto simp: keeps_headless_def optional_section_def section_of_def split: option.splits bool.splits)

lemma keeps_loaders:
  "keeps_headless (load_server L s)" "keeps_headless (load_tls L s)" "keeps_headless (load_database L s)"
  "keeps_headless (load_limits L s)" "keeps_headless (load_security L s)" "keeps_headless (load_antivirus L s)"
  "keeps_headless (load_motd L s)" "keeps_headless (load_directory L s)" "keeps_headless (load_http_api L s)"
  "keeps_headless (load_admin L s)"
  by (auto simp: keeps_headless_def load_sections and_then_Inr split: option.splits if_splits)

lemma load_data_headless: "load_data L v = Inr cf \<Longrightarrow> \<not> cf_headless cf"
proof -
  have "keeps_headless (\<lambda>cf. and_then (section_of L v ''server''
       (Inl (Runtime_Error ''Missing required [server] section in config'')) (load_server L) cf) (\<lambda>cf.
     and_then (section_of L v ''tls''
       (Inl (Runtime_Error ''Missing required [tls] section in config'')) (load_tls L) cf) (\<lambda>cf.
     and_then (optional_section L v ''database'' (load_database L) cf) (\<lambda>cf.
     and_then (optional_section L v ''limits'' (load_limits L) cf) (\<lambda>cf.
     and_then (optional_section L v ''security'' (load_security L) cf) (\<lambda>cf.
     and_then (optional_section L v ''antivirus'' (load_antivirus L) cf) (\<lambda>cf.
     and_then (optional_section L v ''motd'' (load_motd L) cf) (\<lambda>cf.
     and_then (optional_section L v ''directory'' (load_directory L) cf) (\<lambda>cf.
     and_then (optional_section L v ''http_api'' (load_http_api L) cf) (\<lambda>cf.
     optional_section L v ''admin'' (load_admin L) cf))))))))))"
    by (intro keeps_then keeps_section keeps_loaders)
  moreover assume "load_data L v = Inr cf"
  ultimately show ?thesis by (simp add: load_data_def keeps_headless_def) (auto simp: default_config_def)
qed

text \<open>
  The server is only ever built with a validated configuration: it has an address, a port and TLS files,
  and its ping interval, ping timeout and message size are within their bounds; it is headless exactly
  when the command line says so.
\<close>

theorem server_runs_validated:
  assumes "run_program L writable env prog args fs = Serves cf"
  shows "cf_host cf \<noteq> [] \<and> cf_port cf \<noteq> 0 \<and> cf_tls_cert_file cf \<noteq> [] \<and> cf_tls_key_file cf \<noteq> [] \<and>
    0 < cf_max_message_bytes cf \<and> cf_max_message_bytes cf \<le> 1024 * 1024 \<and>
    0 < cf_ping_interval_sec cf \<and> cf_ping_interval_sec cf \<le> 300 \<and>
    0 < cf_ping_timeout_sec cf \<and> cf_ping_timeout_sec cf \<le> 600 \<and>
    cf_headless cf = snd (snd (snd (parse_command_line prog args (get_default_config_path env) False)))"
proof -
  let ?parsed = "parse_command_line prog args (get_default_config_path env) False"
  obtain out path headless where parsed: "?parsed = (-1, out, path, headless)"
    using assms by (auto simp: run_program_def split: prod.splits if_splits)
  then obtain cf0 where cf0: "fst (load_config L writable path fs) = Inr cf0"
      "cf = (if headless then cf0\<lparr>cf_headless := True\<rparr> else cf0)" and valid: "validate_config cf = None"
    using assms by (auto simp: run_program_def Let_def split: sum.splits option.splits)
  then have "\<not> cf_headless cf0" by (auto simp: load_config_def Let_def and_then_Inr dest: load_data_headless)
  then have "cf_headless cf = headless" using cf0(2) by simp
  with valid show ?thesis by (simp add: parsed validate_config_def split: if_splits)
qed

theorem server_runs_validated_witness:
  "cf_port (default_config\<lparr>cf_tls_cert_file := ''c'', cf_tls_key_file := ''k'', cf_headless := True\<rparr>) \<noteq> 0"
proof -
  let ?cf = "default_config\<lparr>cf_tls_cert_file := ''c'', cf_tls_key_file := ''k''\<rparr>"
  let ?L = "tree_lib (full_file ?cf)"
  have "load_data ?L (full_file ?cf) = Inr (?cf\<lparr>cf_headless := False\<rparr>)"
    by (rule full_file_loads) (simp add: default_config_def)
  then have "run_program ?L True None ''ircord'' [''--daemon'', ''--config'', ''a''] [''a'' \<mapsto> []] =
      Serves (?cf\<lparr>cf_headless := True\<rparr>)"
    by (simp add: run_program_def load_config_def asks_defs tree_lib_def validate_config_def default_config_def)
  then show ?thesis using server_runs_validated by blast
qed

end
