(* ===== verification/Spec2Isabelle.thy ===== *)
theory Spec2Isabelle
  imports Accounts Strangers Connections File_Roundtrip Key_Life Store_Forward Overlap Server_Process Command_Line
begin

text \<open>
  A verification development for ircord-server, a chat server in C++ (TLS connections, protobuf messages
  in length-prefixed frames, end-to-end encrypted chat that the server only relays, IRC-style channels and
  commands, voice rooms, offline queues, file transfer, key distribution, SQLite storage).  Paths are those
  of the repository's \<open>src/\<close> directory.

  The program.  \<open>Server\<close> (server.cpp) builds everything from a configuration and runs the I/O threads.
  \<open>Listener\<close> (net/listener.cpp) accepts connections, keeps the registry of authenticated sessions, and owns
  the stores.  A \<open>Session\<close> (net/session.cpp) is one connection: handshake, greeting, authentication by an
  Ed25519 signature of a nonce, then the message handlers, which call the command handler
  (commands/command_handler.cpp), the voice rooms (voice/voice_room_manager.cpp), the stores (db/) and the
  listener again for broadcasts.

  The theories, in the order of their imports, and what they model.

  \<^item> Prelude: names of types, the C locale's character classes, decimal and byte encodings, lists and maps,
    and the locale \<open>machine\<close> (an invariant kept by every operation) that the stateful components interpret.
  \<^item> Names: utils/channel_utils.hpp and utils/nickname_utils.hpp.  The scanning loop of the channel name is
    shown equal to a filter, idempotent, and to produce valid names; nicknames are compared up to case.
  \<^item> Reserved_Identity: admin/reserved_identity.cpp, with the regular expressions it uses.
  \<^item> Rate_Limiter: net/rate_limiter.hpp; how many requests pass in any interval.
  \<^item> Mailbox: the interface between message routing and the offline queue, as a locale.
  \<^item> Offline_Store: db/offline_store.cpp, an interpretation of Mailbox; limits, order, errors.
  \<^item> User_Store: db/user_store.cpp, accounts, passwords, prekeys; the schema of db/database.cpp.
  \<^item> File_Encryptor: crypto/file_encryptor.cpp; hexadecimal keys, the two envelopes, the key blob.
  \<^item> File_Store: db/file_store.cpp; metadata and chunks, expiry, the optional encryption of chunks.
  \<^item> Messages: the fields of proto/ircord.proto and the framing of net/session.cpp.
  \<^item> Voice_Rooms: voice/voice_room_manager.cpp.  Virus_Scanner: security/virus_scanner.cpp.
  \<^item> Server_State: the sessions, the registry, the stores and the list of the writes that were started, in
    one record; a \<open>Session\<close> object is a number.
  \<^item> Listener: net/listener.cpp.  Command_Handler: commands/command_handler.cpp and
    channel/channel_manager.cpp.  Session: net/session.cpp.
  \<^item> Channel_Safety: what commands may do to channels.  Session_Safety: every handler keeps the registry and
    the stores consistent.  Sending: to whom a handler writes and what.
  \<^item> Server_Config: the configuration record of config.hpp and its validation.  Config_Loader: config.cpp; what
    a file says is what is loaded, what it leaves out has the default, and which files are refused.
  \<^item> Server_Control: server.cpp; start, cleanup, the admin commands.
  \<^item> System: the server as a step relation over the events the I/O threads run, its reachable states, and the
    protocol that each session follows.
  \<^item> Onlooker: what the handlers leave alone, proved once for any view of the server in four locales, each an extension of
    the one before (\<open>own_view\<close>, \<open>bystander\<close>, \<open>onlooker\<close>, \<open>detached\<close>), which the next theories interpret on their own views.
  \<^item> Delivery, Accounts, Isolation, Strangers, Connections, File_Transfer: properties of runs of that relation.
    Mail is delivered at login and a chat message is never lost silently; an account keeps its key; handlers of
    one session leave the others alone, sessions come to an end and silent clients are dropped; a client that
    has not logged in reaches nothing; no address can flood the listener; what a download writes.
  \<^item> File_Roundtrip: a file from its announcement through its chunks to a download by another session.
  \<^item> Queue_Life, Key_Life: what holds of a store on its own holds of it inside the server.  Each has a locale for a
    condition that every operation of the store keeps (\<open>queue_keeper\<close>, \<open>key_keeper\<close>), lifted to runs of the server: the mailboxes
    stay within their limits, and no one-time prekey is handed out twice.
  \<^item> Store_Forward: a message to a user who is away, from the sender's frame to the recipient's login, through a run
    in which the server does everything else; \<open>queue_keeper\<close> interpreted on the row of the message.
  \<^item> Presence_View: what the presence messages make a client believe about who is online, and that it is right.
  \<^item> Overlap: logins of several clients whose parts are interleaved; what still holds, and a race that the code has.
  \<^item> Directory_Client: net/directory_client.cpp as a machine driven by the ends of its requests and its timer;
    the JSON and URL texts it writes and reads.
  \<^item> Server_Owner: admin/server_owner.cpp; the key file and the console commands.
  \<^item> Tls_Context: net/tls_context.cpp.  Server_Process: the \<open>Server\<close> object of server.cpp around all this, with
    its failures to start, its threads, its shutdown and the routes of the HTTP API.
  \<^item> Command_Line: main.cpp and utils/string_utils.hpp.

  How the model corresponds to the code.  A method is a function of the server record (and of the session's
  number) that returns the new record; a method that can let a database exception through returns an
  \<open>outcome\<close>, and the frame handler keeps what was done before the exception, as the code's \<open>catch\<close> does.
  A database table is the list of its rows, or a map where it has a primary key, and each SQL statement is
  the operation on it that the statement stands for.  Integers keep their width where the code's arithmetic
  depends on it (frame lengths, chunk numbers, sizes and the message types' numbers); clock readings and
  \<open>int\<close> counters are unbounded integers.  What varies from run to run is an argument: clock readings, nonces
  and which statements throw are in the record \<open>readings\<close>, one per step; the iteration order of hash
  tables, the protobuf codec, the signature check and the password hash are in the record \<open>world\<close>.  The
  hypotheses on them (\<open>world_ok\<close>, \<open>box_laws\<close>, \<open>entropy_ok\<close>) say what their documentation says: an iteration visits every
  element once, a sealed box opens under its own key and nonce only.

  No fuel is used: every loop of the code runs over a list, a string or a count, and the definitions
  terminate by structural recursion or a measure.  An endless run of the server is a sequence of steps, and
  statements about it are inductions over \<open>reachable\<close>.

  Concurrency.  Each session's handlers run on its strand one at a time; the relation \<open>server_step\<close> interleaves
  handlers of different sessions in any order but runs each of them as one step, as if the shared tables were
  locked for its duration.  (The code locks each table for an operation, not for a handler, and does not lock the
  channels at all.)  Overlap takes the longest handler, the login, apart into the check of the name and the signature,
  the work on the account and the registration, and interleaves these parts with everything else: \<open>overlap_step\<close>.
  The registry and the stores stay consistent, but the names of the users online need no longer be different up to
  case, since the name is checked in one critical section and registered in another.

  Libraries are parameters: \<open>toml_lib\<close> reads the configuration file (toml11), \<open>tls_lib\<close> and \<open>socket_lib\<close> say
  what OpenSSL and Boost.Asio report, the key pair of the owner comes from libsodium, and a request of the
  HTTP API carries its body as a map of JSON values.

  Not modelled, and why: socket I/O and timers themselves, the log sinks, the terminal user interface and its
  local socket, the HTTP server (libraries and submodules do the work); the protobuf wire format (generated when
  the program is built); the Argon2, Ed25519 and XSalsa20-Poly1305 primitives (libsodium); server_config.hpp,
  which no file includes.
\<close>

section \<open>The program\<close>



end
